theory Spec2Isabelle
  imports Main "HOL-Library.Char_ord" "HOL-Library.List_Lexorder"
begin

section \<open>Values, rows and JavaScript truthiness\<close>

text \<open>
  The repository keeps its state in SQLite tables and passes rows around as plain
  JavaScript objects. A cell is NULL, an INTEGER or a TEXT. A TEXT cell that holds the
  ISO-8601 rendering of an instant (what \<^verbatim>\<open>Date.prototype.toISOString\<close> writes) is
  kept apart as \<open>TimeV\<close> with the instant in milliseconds since the epoch, so that
  \<^verbatim>\<open>new Date(text)\<close> and \<^verbatim>\<open>toISOString()\<close> are the two directions of one
  constructor; any other text is \<open>TextV\<close>.
\<close>

datatype sqlval = Null | IntV int | TextV string | TimeV int

text \<open>JavaScript truthiness of a cell read back from a row (\<^verbatim>\<open>if (x)\<close>, \<^verbatim>\<open>x || y\<close>).\<close>

fun truthy :: "sqlval \<Rightarrow> bool" where
  "truthy Null = False"
| "truthy (IntV n) = (n \<noteq> 0)"
| "truthy (TextV s) = (s \<noteq> [])"
| "truthy (TimeV t) = True"

text \<open>A row gives a value to every column name; a JavaScript object has its own properties.\<close>

type_synonym row = "string \<Rightarrow> sqlval"
type_synonym jsobj = "string \<rightharpoonup> sqlval"

section \<open>The calls table (db.js, callDataDb.js)\<close>

text \<open>
  \<^verbatim>\<open>CREATE TABLE calls\<close> with the columns added by \<^verbatim>\<open>initializeDatabase\<close>: every
  column with its DEFAULT (NULL where the schema names none). \<open>callSid\<close> is the primary key.
\<close>

definition calls_schema :: "(string \<times> sqlval) list" where
  "calls_schema =
    [(''callSid'', Null), (''to'', Null), (''contactId'', Null), (''retry_count'', IntV 0),
     (''status'', Null), (''created_at'', Null), (''signedUrl'', Null), (''fullName'', Null),
     (''firstName'', Null), (''email'', Null), (''answeredBy'', Null),
     (''availableSlots'', Null), (''conversationId'', Null),
     (''first_attempt_timestamp'', Null), (''service'', Null),
     (''retry_scheduled'', IntV 0), (''province'', Null), (''streamSid'', Null)]"

definition column_default :: "string \<Rightarrow> sqlval" where
  "column_default c = (case map_of calls_schema c of Some d \<Rightarrow> d | None \<Rightarrow> Null)"

type_synonym calls_table = "string \<rightharpoonup> row"

text \<open>
  \<^verbatim>\<open>INSERT OR REPLACE INTO calls (fields) VALUES (values)\<close>: a row with the same primary
  key is deleted first; the new row has the listed values and the schema default in every
  other column.
\<close>

definition new_row :: "(string \<times> sqlval) list \<Rightarrow> row" where
  "new_row fields = (\<lambda>c. case map_of fields c of Some v \<Rightarrow> v | None \<Rightarrow> column_default c)"

definition insert_or_replace :: "calls_table \<Rightarrow> string \<Rightarrow> (string \<times> sqlval) list \<Rightarrow> calls_table" where
  "insert_or_replace db pk fields = db(pk \<mapsto> new_row fields)"

text \<open>\<^verbatim>\<open>UPDATE calls SET k = v, ... WHERE callSid = ?\<close>: only an existing row changes.\<close>

definition update_row :: "row \<Rightarrow> (string \<times> sqlval) list \<Rightarrow> row" where
  "update_row r sets = (\<lambda>c. case map_of sets c of Some v \<Rightarrow> v | None \<Rightarrow> r c)"

definition updateCallData :: "string \<Rightarrow> (string \<times> sqlval) list \<Rightarrow> calls_table \<Rightarrow> calls_table" where
  "updateCallData callSid dataToUpdate db =
    (if callSid = [] \<or> dataToUpdate = [] then db
     else case db callSid of None \<Rightarrow> db | Some r \<Rightarrow> db(callSid \<mapsto> update_row r dataToUpdate))"

text \<open>\<^verbatim>\<open>getCallData\<close>: \<^verbatim>\<open>SELECT * FROM calls WHERE callSid = ?\<close>, null without a sid.\<close>

definition getCallData :: "string \<Rightarrow> calls_table \<Rightarrow> row option" where
  "getCallData callSid db = (if callSid = [] then None else db callSid)"

text \<open>
  \<^verbatim>\<open>setCallData(callSid, data)\<close>. The whitelist \<open>columns\<close> is the array of the source;
  \<open>retry_scheduled\<close> and \<open>streamSid\<close> are not in it. \<open>data\<close> is \<open>None\<close> when the
  argument is not an object. The field list starts with \<open>callSid\<close> and then holds, in
  whitelist order, every whitelisted own property of \<open>data\<close>.
\<close>

definition columns :: "string list" where
  "columns =
    [''callSid'', ''to'', ''contactId'', ''retry_count'', ''status'', ''created_at'',
     ''signedUrl'', ''fullName'', ''firstName'', ''email'', ''answeredBy'',
     ''availableSlots'', ''conversationId'', ''first_attempt_timestamp'', ''service'',
     ''province'']"

fun collect_fields :: "string list \<Rightarrow> jsobj \<Rightarrow> (string \<times> sqlval) list" where
  "collect_fields [] flatData = []"
| "collect_fields (col # cols) flatData =
     (case flatData col of
        Some v \<Rightarrow> (if col \<noteq> ''callSid'' then (col, v) # collect_fields cols flatData
                   else collect_fields cols flatData)
      | None \<Rightarrow> collect_fields cols flatData)"

definition setCallData :: "string \<Rightarrow> jsobj option \<Rightarrow> calls_table \<Rightarrow> calls_table" where
  "setCallData callSid data db =
    (if callSid = [] then db
     else case data of
       None \<Rightarrow> db
     | Some flatData \<Rightarrow>
         insert_or_replace db callSid
           ((''callSid'', TextV callSid) # collect_fields columns flatData))"

section \<open>Strings\<close>

text \<open>
  Strings are lists of characters. Case conversion is the ASCII one: the letters
  \<open>A\<close>..\<open>Z\<close> and \<open>a\<close>..\<open>z\<close> are mapped onto each other and every other character is
  left alone (the texts compared below are ASCII words).
\<close>

definition toLowerChar :: "char \<Rightarrow> char" where
  "toLowerChar c = (let n = (of_char c :: nat) in if 65 \<le> n \<and> n \<le> 90 then char_of (n + 32) else c)"

definition toUpperChar :: "char \<Rightarrow> char" where
  "toUpperChar c = (let n = (of_char c :: nat) in if 97 \<le> n \<and> n \<le> 122 then char_of (n - 32) else c)"

definition toLowerCase :: "string \<Rightarrow> string" where
  "toLowerCase s = map toLowerChar s"

definition toUpperCase :: "string \<Rightarrow> string" where
  "toUpperCase s = map toUpperChar s"

fun startsWith :: "string \<Rightarrow> string \<Rightarrow> bool" where
  "startsWith s [] = True"
| "startsWith [] (p # ps) = False"
| "startsWith (c # cs) (p # ps) = (c = p \<and> startsWith cs ps)"

text \<open>\<^verbatim>\<open>s.includes(p)\<close>: \<open>p\<close> occurs somewhere in \<open>s\<close>.\<close>

fun includes_str :: "string \<Rightarrow> string \<Rightarrow> bool" where
  "includes_str [] p = (p = [])"
| "includes_str (c # cs) p = (startsWith (c # cs) p \<or> includes_str cs p)"

section \<open>The call queue and the retry scheduler (outgoing-call.js)\<close>

text \<open>
  The Twilio options stored with a queue row: the caller number chosen for the service,
  the callee, and the query parameters of the TwiML URL (each \<^verbatim>\<open>x || ''\<close>). The
  remaining options are constants of the source.
\<close>

record call_options =
  co_from :: string
  co_to :: sqlval
  co_params :: "sqlval list"

record queue_row =
  q_queue_id :: nat
  q_contact_id :: sqlval
  q_phone_number :: sqlval
  q_first_name :: sqlval
  q_full_name :: sqlval
  q_email :: sqlval
  q_service :: sqlval
  q_province :: sqlval
  q_retry_stage :: int
  q_status :: string
  q_scheduled_at :: int
  q_call_options :: call_options
  q_available_slots_text :: sqlval
  q_initial_signed_url :: sqlval
  q_first_attempt_timestamp :: int
  q_last_attempt_at :: sqlval
  q_last_error :: sqlval

text \<open>
  The configuration the scheduler reads, and the time zone of the host process.
  \<^verbatim>\<open>Date.prototype.setHours\<close> and \<^verbatim>\<open>setDate\<close> work in that zone. The zone is given
  as ECMAScript specifies it, by \<open>LocalTZA(t, isUTC)\<close>: the offset in milliseconds in force
  at the instant \<open>t\<close> when \<open>isUTC\<close> is true, and the offset by which the local time \<open>t\<close>
  is read when it is false (for a local time that a clock change skips or repeats, the
  offset before the change).
\<close>

record config =
  OUTGOING_PHONE_NUMBER_1 :: string
  OUTGOING_PHONE_NUMBER_2 :: string
  OUTGOING_TWILIO_PHONE_NUMBER :: string
  LocalTZA :: "int \<Rightarrow> bool \<Rightarrow> int"

definition getPhoneNumberForService :: "config \<Rightarrow> sqlval \<Rightarrow> string" where
  "getPhoneNumberForService cfg service =
    (if service = TextV ''Infissi'' then
       (if OUTGOING_PHONE_NUMBER_2 cfg \<noteq> [] then OUTGOING_PHONE_NUMBER_2 cfg
        else OUTGOING_TWILIO_PHONE_NUMBER cfg)
     else if service = TextV ''Vetrate'' \<or> service = TextV ''Pergole'' then
       (if OUTGOING_PHONE_NUMBER_1 cfg \<noteq> [] then OUTGOING_PHONE_NUMBER_1 cfg
        else OUTGOING_TWILIO_PHONE_NUMBER cfg)
     else OUTGOING_TWILIO_PHONE_NUMBER cfg)"

datatype effect =
    NonFatalNotification string
  | NormalNotification string
  | FatalNotification string
  | TwilioCompleteCall string
  | CrmNote sqlval
  | CrmWorkflow string
  | CallsStatusUpdate string
  | PostCallAnalysis string

text \<open>What a call into a collaborator does: it returns a value or it throws.\<close>

datatype 'a outcome = Returned 'a | Threw string

record db_state =
  calls :: calls_table
  call_queue :: "queue_row list"
  next_queue_id :: nat

datatype schedule_entry = Immediate | Delay int | NextTime int

definition RETRY_SCHEDULE :: "schedule_entry list" where
  "RETRY_SCHEDULE =
    [Immediate, Delay 1, Immediate, NextTime 9, Immediate, NextTime 14, Immediate,
     NextTime 19, Immediate]"

definition MAX_TOTAL_ATTEMPTS :: int where
  "MAX_TOTAL_ATTEMPTS = 10"

text \<open>\<^verbatim>\<open>RETRY_SCHEDULE[i] || { type: 'immediate' }\<close>: an index outside the array reads undefined.\<close>

definition scheduleConfig :: "int \<Rightarrow> schedule_entry" where
  "scheduleConfig i =
    (if 0 \<le> i \<and> i < int (length RETRY_SCHEDULE) then RETRY_SCHEDULE ! nat i else Immediate)"

definition day_ms :: int where
  "day_ms = 86400000"

text \<open>
  \<open>LocalTime(t) = t + LocalTZA(t, true)\<close> and \<open>UTC(t) = t - LocalTZA(t, false)\<close>.
  \<^verbatim>\<open>setHours(hour, min, 0, 0)\<close> keeps the local calendar day and sets the time of day;
  \<^verbatim>\<open>setDate(getDate() + n)\<close> moves the local calendar day and keeps the time of day.
\<close>

definition LocalTime :: "config \<Rightarrow> int \<Rightarrow> int" where
  "LocalTime cfg t = t + LocalTZA cfg t True"

definition UTC :: "config \<Rightarrow> int \<Rightarrow> int" where
  "UTC cfg t = t - LocalTZA cfg t False"

definition setHours :: "config \<Rightarrow> int \<Rightarrow> int \<Rightarrow> int \<Rightarrow> int" where
  "setHours cfg t hour minute =
    (let local = LocalTime cfg t
     in UTC cfg (local - local mod day_ms + hour * 3600000 + minute * 60000))"

definition addDays :: "config \<Rightarrow> int \<Rightarrow> int \<Rightarrow> int" where
  "addDays cfg t n = UTC cfg (LocalTime cfg t + n * day_ms)"

text \<open>
  \<^verbatim>\<open>target = new Date(now); target.setHours(hour, 0, 0, 0); if (now >= target)
  target.setDate(target.getDate() + 1)\<close>.
\<close>

definition next_time :: "config \<Rightarrow> int \<Rightarrow> int \<Rightarrow> int" where
  "next_time cfg hour now =
    (let target = setHours cfg now hour 0
     in if now \<ge> target then addDays cfg target 1 else target)"



text \<open>
  A clock that is steady around the computation: over the span of \<open>now\<close>, today's
  \<open>hour:00\<close> and the instant computed, the offsets in force differ by at most two hours,
  and \<open>hour:00\<close> of today and of the day computed are on the local clock (not skipped by a
  clock change) and are read at one instant only (not repeated).
\<close>

definition steady_clock :: "config \<Rightarrow> int \<Rightarrow> int \<Rightarrow> bool" where
  "steady_clock cfg hour now =
    (let today = setHours cfg now hour 0;
         t = next_time cfg hour now;
         lo = min now (min today t);
         hi = max now (max today t)
     in LocalTime cfg today = LocalTime cfg now - LocalTime cfg now mod day_ms + hour * 3600000
        \<and> (now \<ge> today \<longrightarrow> LocalTime cfg t = LocalTime cfg today + day_ms)
        \<and> (\<forall>a b. lo \<le> a \<and> a \<le> hi \<and> lo \<le> b \<and> b \<le> hi \<longrightarrow>
               LocalTZA cfg a True - LocalTZA cfg b True \<le> 7200000)
        \<and> (\<forall>u. lo \<le> u \<and> u \<le> hi \<and> LocalTime cfg u = LocalTime cfg today \<longrightarrow> u = today)
        \<and> (\<forall>u. lo \<le> u \<and> u \<le> hi \<and> LocalTime cfg u = LocalTime cfg t \<longrightarrow> u = t))"

definition scheduled_at_base :: "config \<Rightarrow> bool \<Rightarrow> schedule_entry \<Rightarrow> int \<Rightarrow> int" where
  "scheduled_at_base cfg forceImmediate sc now =
    (if forceImmediate \<or> sc = Immediate then now
     else case sc of
       Delay hours \<Rightarrow> now + hours * 60 * 60 * 1000
     | NextTime hour \<Rightarrow> next_time cfg hour now
     | Immediate \<Rightarrow> now)"

text \<open>
  \<^verbatim>\<open>Number(callData.retry_count)\<close> of a cell of the INTEGER column: NULL is 0, the empty
  text is 0, any other text is NaN (\<open>None\<close>).
\<close>

fun toNumber :: "sqlval \<Rightarrow> int option" where
  "toNumber Null = Some 0"
| "toNumber (IntV n) = Some n"
| "toNumber (TextV s) = (if s = [] then Some 0 else None)"
| "toNumber (TimeV t) = None"

text \<open>
  \<^verbatim>\<open>x ? new Date(x) : new Date()\<close> followed by \<^verbatim>\<open>toISOString()\<close>: a text that is not
  an instant gives an Invalid Date, whose \<^verbatim>\<open>toISOString\<close> throws (\<open>None\<close>).
\<close>

fun firstAttemptTimestamp :: "sqlval \<Rightarrow> int \<Rightarrow> int option" where
  "firstAttemptTimestamp Null now = Some now"
| "firstAttemptTimestamp (IntV n) now = (if n = 0 then Some now else Some n)"
| "firstAttemptTimestamp (TextV s) now = (if s = [] then Some now else None)"
| "firstAttemptTimestamp (TimeV t) now = Some t"

definition or_empty :: "sqlval \<Rightarrow> sqlval" where
  "or_empty v = (if truthy v then v else TextV [])"

record retry_options =
  reason :: string
  forceImmediate :: bool

text \<open>
  \<^verbatim>\<open>scheduleRetry(callDataForRetryLogic, failedCallSid, options)\<close>. A NaN attempt number
  compares false with every bound and is then refused by the NOT NULL column
  \<open>retry_stage\<close>; a NULL \<open>contact_id\<close> or \<open>phone_number\<close> is refused likewise; the
  \<^verbatim>\<open>catch\<close> around the insert sends a notification and no row is added.
\<close>

definition isPermanentIssue :: "row \<Rightarrow> retry_options \<Rightarrow> bool" where
  "isPermanentIssue callData options =
    (reason options = ''no_sales_reps'' \<or> reason options = ''permanent_failure'' \<or>
     (callData ''province'' = TextV ''unknown'' \<and>
      (case toNumber (callData ''retry_count'') of Some n \<Rightarrow> n \<ge> 2 | None \<Rightarrow> False)))"

definition retry_row :: "config \<Rightarrow> int \<Rightarrow> row \<Rightarrow> retry_options \<Rightarrow> int \<Rightarrow> int \<Rightarrow> nat \<Rightarrow> queue_row" where
  "retry_row cfg now callData options nextAttemptNumberForDB first_ts qid =
    \<lparr> q_queue_id = qid,
      q_contact_id = callData ''contactId'',
      q_phone_number = callData ''to'',
      q_first_name = callData ''firstName'',
      q_full_name = callData ''fullName'',
      q_email = callData ''email'',
      q_service = callData ''service'',
      q_province = callData ''province'',
      q_retry_stage = nextAttemptNumberForDB,
      q_status = ''pending'',
      q_scheduled_at = scheduled_at_base cfg (forceImmediate options)
                         (scheduleConfig (nextAttemptNumberForDB - 1)) now,
      q_call_options =
        \<lparr> co_from = getPhoneNumberForService cfg (callData ''service''),
          co_to = callData ''to'',
          co_params = map or_empty
            [callData ''firstName'', callData ''fullName'', callData ''email'',
             callData ''to'', callData ''contactId'', callData ''service''] \<rparr>,
      q_available_slots_text =
        (if truthy (callData ''availableSlots'') then callData ''availableSlots''
         else TextV ''No availability information found.''),
      q_initial_signed_url = callData ''signedUrl'',
      q_first_attempt_timestamp = first_ts,
      q_last_attempt_at = Null,
      q_last_error = Null \<rparr>"

definition scheduleRetry ::
  "config \<Rightarrow> int \<Rightarrow> row \<Rightarrow> retry_options \<Rightarrow> db_state \<Rightarrow> db_state \<times> effect list" where
  "scheduleRetry cfg now callData options s =
    (if isPermanentIssue callData options then
       (s, [NonFatalNotification ''Call Retry Stopped - Permanent Issue''])
     else case toNumber (callData ''retry_count'') of
       None \<Rightarrow> (s, [NonFatalNotification ''DB Retry Scheduling Error''])
     | Some currentAttemptNumber \<Rightarrow>
         if currentAttemptNumber \<ge> MAX_TOTAL_ATTEMPTS - 1 then (s, [])
         else case firstAttemptTimestamp (callData ''first_attempt_timestamp'') now of
           None \<Rightarrow> (s, [NonFatalNotification ''DB Retry Scheduling Error''])
         | Some first_ts \<Rightarrow>
             if callData ''contactId'' = Null \<or> callData ''to'' = Null then
               (s, [NonFatalNotification ''DB Retry Scheduling Error''])
             else
               (s\<lparr> call_queue := call_queue s @
                      [retry_row cfg now callData options (currentAttemptNumber + 1) first_ts
                         (next_queue_id s)],
                    next_queue_id := Suc (next_queue_id s) \<rparr>, []))"

section \<open>The status callback (outgoing-call.js, POST call-status)\<close>

text \<open>
  One callback: the posted \<open>CallStatus\<close> and \<open>AnsweredBy\<close> (absent is \<open>None\<close>), the
  clock when it is handled, and what \<^verbatim>\<open>twilioClient.calls(sid).fetch()\<close> answers
  (\<open>None\<close> when it throws).
\<close>

record status_event =
  CallStatus :: string
  AnsweredBy :: "string option"
  ev_now :: int
  ev_twilio_status :: "string option"

definition machineDetectionStatuses :: "string list" where
  "machineDetectionStatuses =
    [''machine_start'', ''fax'', ''machine_beep'', ''machine_end_silence'',
     ''machine_end_other'', ''machine_end_beep'']"

definition terminal_statuses :: "string list" where
  "terminal_statuses = [''completed'', ''canceled'', ''failed'']"

definition isMachineDetected :: "string option \<Rightarrow> sqlval \<Rightarrow> bool" where
  "isMachineDetected answeredBy currentAnsweredBy =
    ((case answeredBy of
        Some a \<Rightarrow> a \<noteq> [] \<and> toLowerCase a \<in> set machineDetectionStatuses
      | None \<Rightarrow> False) \<or>
     (case currentAnsweredBy of
        TextV c \<Rightarrow> c \<noteq> [] \<and> toLowerCase c \<in> set machineDetectionStatuses
      | _ \<Rightarrow> False))"

definition isRetryableFailure :: "string \<Rightarrow> bool \<Rightarrow> bool" where
  "isRetryableFailure st machine =
    ((st \<in> set [''completed'', ''canceled''] \<and> machine) \<or>
     st = ''no-answer'' \<or> st = ''busy'' \<or> st = ''failed'')"

text \<open>
  The handler from the point where \<^verbatim>\<open>await getCallData(CallSid)\<close> has answered:
  \<open>call\<close> is the row as it was read, \<open>s\<close> is the database as it is now. The latch is
  tested on the row read; the writes go to the database.
\<close>

definition call_status_resume ::
  "config \<Rightarrow> string \<Rightarrow> status_event \<Rightarrow> row option \<Rightarrow> db_state
     \<Rightarrow> string \<times> db_state \<times> effect list" where
  "call_status_resume cfg CallSid ev read s =
    (case read of
       None \<Rightarrow>
         (''OK. No call data found in calls table.'', s,
          [NonFatalNotification ''Call Status: Call Data Not Found''])
     | Some call \<Rightarrow>
         if truthy (call ''retry_scheduled'') then (''OK. Retry already handled.'', s, [])
         else
           let currentAnsweredBy = call ''answeredBy'';
               machine = isMachineDetected (AnsweredBy ev) currentAnsweredBy;
               newAnswered = (case AnsweredBy ev of
                                Some a \<Rightarrow> a \<noteq> [] \<and> TextV a \<noteq> currentAnsweredBy
                              | None \<Rightarrow> False);
               s1 = (if newAnswered
                     then s\<lparr> calls := updateCallData CallSid
                               [(''answeredBy'', TextV (the (AnsweredBy ev)))] (calls s) \<rparr>
                     else s);
               call1 = (if newAnswered
                        then update_row call [(''answeredBy'', TextV (the (AnsweredBy ev)))]
                        else call)
           in
           if machine \<and> CallStatus ev \<notin> set terminal_statuses then
             let s2 = s1\<lparr> calls := updateCallData CallSid [(''retry_scheduled'', IntV 1)] (calls s1) \<rparr>;
                 hangup = (case ev_twilio_status ev of
                             Some st \<Rightarrow> (if st \<notin> set terminal_statuses
                                          then [TwilioCompleteCall CallSid] else [])
                           | None \<Rightarrow> []);
                 (s3, es) = scheduleRetry cfg (ev_now ev) call1
                              \<lparr> reason = ''machine_detected'', forceImmediate = False \<rparr> s2
             in (''OK. Machine detected, call ended, retry scheduled.'', s3, hangup @ es)
           else if isRetryableFailure (CallStatus ev) machine then
             let s2 = s1\<lparr> calls := updateCallData CallSid [(''retry_scheduled'', IntV 1)] (calls s1) \<rparr>;
                 (s3, es) = scheduleRetry cfg (ev_now ev) call1
                              \<lparr> reason = ''retryable_failure'', forceImmediate = False \<rparr> s2
             in (''OK. Retryable failure, retry scheduled.'', s3, es)
           else if CallStatus ev = ''completed'' \<and> \<not> machine then
             (''OK. Human answered, no retry.'', s1, [])
           else if CallStatus ev \<in> set [''completed'', ''canceled''] \<and> \<not> machine then
             (''OK. Call ended, no retry.'', s1, [])
           else (''OK'', s1, []))"

text \<open>A handler that runs alone: it reads the row and goes on at once.\<close>

definition call_status ::
  "config \<Rightarrow> string \<Rightarrow> status_event \<Rightarrow> db_state \<Rightarrow> string \<times> db_state \<times> effect list" where
  "call_status cfg CallSid ev s =
    call_status_resume cfg CallSid ev (getCallData CallSid (calls s)) s"

text \<open>
  Handlers of callbacks that arrive together. A handler gives way at each \<^verbatim>\<open>await\<close>,
  the first of which is the read of the row, and nothing holds the row between that read
  and the write of the latch. \<open>Arrive\<close> starts a handler up to the answer of its read and
  keeps what it has read; \<open>Resume i\<close> runs the rest of the \<open>i\<close>-th waiting handler, in one
  piece (one of the orders its awaits allow).
\<close>

datatype handler_step = Arrive status_event | Resume nat

fun run_handlers ::
  "config \<Rightarrow> string \<Rightarrow> handler_step list \<Rightarrow> db_state \<times> (status_event \<times> row option) list
     \<Rightarrow> db_state \<times> (status_event \<times> row option) list" where
  "run_handlers cfg CallSid [] (s, waiting) = (s, waiting)"
| "run_handlers cfg CallSid (Arrive ev # steps) (s, waiting) =
     run_handlers cfg CallSid steps (s, waiting @ [(ev, getCallData CallSid (calls s))])"
| "run_handlers cfg CallSid (Resume i # steps) (s, waiting) =
     (if i < length waiting then
        run_handlers cfg CallSid steps
          (fst (snd (call_status_resume cfg CallSid (fst (waiting ! i)) (snd (waiting ! i)) s)),
           take i waiting @ drop (Suc i) waiting)
      else run_handlers cfg CallSid steps (s, waiting))"

text \<open>Callbacks handled in turn: each handler ends before the next callback arrives.\<close>

definition in_turn :: "status_event list \<Rightarrow> handler_step list" where
  "in_turn evs = concat (map (\<lambda>ev. [Arrive ev, Resume 0]) evs)"

definition handled_in_turn :: "config \<Rightarrow> string \<Rightarrow> status_event list \<Rightarrow> db_state \<Rightarrow> db_state" where
  "handled_in_turn cfg CallSid evs s = fst (run_handlers cfg CallSid (in_turn evs) (s, []))"

definition latched :: "string \<Rightarrow> db_state \<Rightarrow> bool" where
  "latched CallSid s =
    (case getCallData CallSid (calls s) of
       Some call \<Rightarrow> truthy (call ''retry_scheduled'')
     | None \<Rightarrow> False)"

section \<open>The queue worker (queue-processor.js)\<close>

text \<open>
  The body of the loop of \<^verbatim>\<open>processCallQueue\<close> for one claimed job: the CRM token
  check, the claim (\<open>processing\<close>), the Twilio call, the \<open>calls\<close> row written under the
  new sid, the CRM note, and the removal of the job; a failure marks the job \<open>failed\<close>.
\<close>

record job_env =
  job_token :: "string option outcome"
  job_create :: "string outcome"
  job_now :: int

definition mark_failed :: "nat \<Rightarrow> string \<Rightarrow> queue_row list \<Rightarrow> queue_row list" where
  "mark_failed qid err qs =
    map (\<lambda>q. if q_queue_id q = qid then q\<lparr> q_status := ''failed'', q_last_error := TextV err \<rparr>
              else q) qs"

definition mark_processing :: "nat \<Rightarrow> int \<Rightarrow> queue_row list \<Rightarrow> queue_row list" where
  "mark_processing qid now qs =
    map (\<lambda>q. if q_queue_id q = qid \<and> q_status q = ''pending''
              then q\<lparr> q_status := ''processing'', q_last_attempt_at := TimeV now \<rparr>
              else q) qs"

definition delete_job :: "nat \<Rightarrow> queue_row list \<Rightarrow> queue_row list" where
  "delete_job qid qs = filter (\<lambda>q. q_queue_id q \<noteq> qid) qs"

definition job_call_data :: "queue_row \<Rightarrow> int \<Rightarrow> jsobj" where
  "job_call_data callJob now =
    map_of
      [(''to'', q_phone_number callJob),
       (''contactId'', q_contact_id callJob),
       (''retry_count'', IntV (q_retry_stage callJob)),
       (''status'', TextV ''initiated''),
       (''created_at'', TimeV now),
       (''signedUrl'', q_initial_signed_url callJob),
       (''fullName'', q_full_name callJob),
       (''firstName'', q_first_name callJob),
       (''email'', q_email callJob),
       (''availableSlots'', q_available_slots_text callJob),
       (''first_attempt_timestamp'', TimeV (q_first_attempt_timestamp callJob)),
       (''service'', q_service callJob),
       (''province'', q_province callJob)]"

definition token_missing :: "db_state \<Rightarrow> queue_row \<Rightarrow> db_state \<times> effect list" where
  "token_missing s callJob =
    (s\<lparr> call_queue := mark_failed (q_queue_id callJob) ''GoHighLevel tokens not available''
                          (call_queue s) \<rparr>,
     [NonFatalNotification ''Queue Processor - GHL Token Missing''])"

definition process_job :: "job_env \<Rightarrow> queue_row \<Rightarrow> db_state \<Rightarrow> db_state \<times> effect list" where
  "process_job env callJob s =
    (case job_token env of
       Threw e \<Rightarrow> (s, [])
     | Returned None \<Rightarrow> token_missing s callJob
     | Returned (Some goHighLevelToken) \<Rightarrow>
         if goHighLevelToken = [] then token_missing s callJob
         else
           let s1 = s\<lparr> call_queue := mark_processing (q_queue_id callJob) (job_now env)
                                        (call_queue s) \<rparr>
           in case job_create env of
                Threw msg \<Rightarrow>
                  (s1\<lparr> call_queue :=
                         mark_failed (q_queue_id callJob)
                           (if msg = [] then ''Unknown call initiation error'' else msg)
                           (call_queue s1) \<rparr>,
                   [NonFatalNotification ''Queue Processor - Call Initiation Error''])
              | Returned sid \<Rightarrow>
                  (s1\<lparr> calls := setCallData sid (Some (job_call_data callJob (job_now env)))
                                   (calls s1),
                        call_queue := delete_job (q_queue_id callJob) (call_queue s1) \<rparr>,
                   (if truthy (q_contact_id callJob) then [CrmNote (q_contact_id callJob)]
                    else [])))"

text \<open>
  A retry chain, newest attempt first: the scheduler, run for the \<open>calls\<close> row of an
  attempt, inserted a queue row, and the worker placed that job and wrote the \<open>calls\<close>
  row of the next attempt.
\<close>

inductive retry_chain :: "config \<Rightarrow> row list \<Rightarrow> bool" for cfg :: config where
  first_attempt: "retry_chain cfg [c]"
| next_attempt:
    "retry_chain cfg (c # cs) \<Longrightarrow>
     call_queue (fst (scheduleRetry cfg now c opts s)) = call_queue s @ [q] \<Longrightarrow>
     job_token env = Returned (Some tok) \<Longrightarrow> tok \<noteq> [] \<Longrightarrow>
     job_create env = Returned sid \<Longrightarrow> sid \<noteq> [] \<Longrightarrow>
     calls (fst (process_job env q s')) sid = Some c' \<Longrightarrow>
     retry_chain cfg (c' # c # cs)"


section \<open>Example data\<close>

definition example_cfg :: config where
  "example_cfg =
    \<lparr> OUTGOING_PHONE_NUMBER_1 = ''+390200000001'', OUTGOING_PHONE_NUMBER_2 = ''+390200000002'',
      OUTGOING_TWILIO_PHONE_NUMBER = [], LocalTZA = (\<lambda>t isUTC. 0) \<rparr>"

text \<open>
  A host set to Europe/Rome, with the clock changes of 2025: one hour ahead of UTC, two
  hours from 2025-03-30 01:00 UTC to 2025-10-26 01:00 UTC. Read as local time, the hours
  from 2025-03-30 03:00 up to 2025-10-26 03:00 are taken two hours ahead.
\<close>

definition rome_LocalTZA :: "int \<Rightarrow> bool \<Rightarrow> int" where
  "rome_LocalTZA t isUTC =
    (if isUTC then (if 1743296400000 \<le> t \<and> t < 1761440400000 then 7200000 else 3600000)
     else (if 1743303600000 \<le> t \<and> t < 1761447600000 then 7200000 else 3600000))"

definition rome_cfg :: config where
  "rome_cfg =
    \<lparr> OUTGOING_PHONE_NUMBER_1 = ''+390200000001'', OUTGOING_PHONE_NUMBER_2 = ''+390200000002'',
      OUTGOING_TWILIO_PHONE_NUMBER = [], LocalTZA = rome_LocalTZA \<rparr>"

definition example_call :: "int \<Rightarrow> string \<Rightarrow> int \<Rightarrow> sqlval \<Rightarrow> row" where
  "example_call r prov latch slots =
    new_row
      [(''callSid'', TextV ''CA1''), (''to'', TextV ''+390612345678''),
       (''contactId'', TextV ''C1''), (''retry_count'', IntV r),
       (''status'', TextV ''initiated''), (''signedUrl'', TextV ''wss://signed''),
       (''availableSlots'', slots), (''first_attempt_timestamp'', TimeV 1736900000000),
       (''service'', TextV ''Infissi''), (''retry_scheduled'', IntV latch),
       (''province'', TextV prov)]"

definition example_state :: "row \<Rightarrow> db_state" where
  "example_state c = \<lparr> calls = [''CA1'' \<mapsto> c], call_queue = [], next_queue_id = 1 \<rparr>"

definition no_answer :: "int \<Rightarrow> status_event" where
  "no_answer now =
    \<lparr> CallStatus = ''no-answer'', AnsweredBy = None, ev_now = now, ev_twilio_status = None \<rparr>"


section \<open>The follow-up sweeper (followup/manager.js)\<close>

text \<open>
  The end of the loop body of \<^verbatim>\<open>checkAndProcessFollowUps\<close>: the follow-up has been
  posted to the intake endpoint, and \<^verbatim>\<open>fetch\<close> either answers with a status and a
  body or throws. \<^verbatim>\<open>response.ok\<close> is a status from 200 to 299.
\<close>

record follow_up =
  fu_follow_up_id :: nat
  fu_contact_id :: string
  fu_follow_up_at_utc :: int
  fu_status :: string
  fu_province :: sqlval
  fu_service :: sqlval

datatype fetch_result = Response nat string | FetchThrew string

definition response_ok :: "nat \<Rightarrow> bool" where
  "response_ok st = (200 \<le> st \<and> st \<le> 299)"

definition isPermanentFailure :: "nat \<Rightarrow> string \<Rightarrow> bool" where
  "isPermanentFailure st errorBody =
    (st = 400 \<and>
     (includes_str errorBody ''No sales representatives available'' \<or>
      includes_str errorBody ''service and location'' \<or>
      includes_str errorBody ''not in right area'' \<or>
      includes_str errorBody ''Address is required'' \<or>
      includes_str errorBody ''service field is required''))"

definition deleteFollowUp :: "nat \<Rightarrow> follow_up list \<Rightarrow> follow_up list" where
  "deleteFollowUp followUpId fus = filter (\<lambda>f. fu_follow_up_id f \<noteq> followUpId) fus"

definition resubmitted ::
  "follow_up \<Rightarrow> fetch_result \<Rightarrow> follow_up list \<Rightarrow> follow_up list \<times> effect list" where
  "resubmitted followUp res fus =
    (case res of
       FetchThrew e \<Rightarrow> (fus, [NonFatalNotification ''FollowUp Processing Error''])
     | Response st errorBody \<Rightarrow>
         if response_ok st then (deleteFollowUp (fu_follow_up_id followUp) fus, [])
         else if isPermanentFailure st errorBody then
           (deleteFollowUp (fu_follow_up_id followUp) fus,
            [NonFatalNotification ''FollowUp Permanently Failed - Deleted''])
         else (fus, [NonFatalNotification ''FollowUp Temporary Failure - Will Retry'']))"

definition sentinel_messages :: "string list" where
  "sentinel_messages =
    [''No sales representatives available'', ''not in right area'', ''Address is required'',
     ''service field is required'']"

definition example_follow_up :: follow_up where
  "example_follow_up =
    \<lparr> fu_follow_up_id = 7, fu_contact_id = ''C1'', fu_follow_up_at_utc = 1736942400000,
      fu_status = ''pending'', fu_province = TextV ''RM'', fu_service = TextV ''Infissi'' \<rparr>"

section \<open>Province extraction (utils.js)\<close>

text \<open>Character classes of the regular expressions: \<^verbatim>\<open>[A-Z]\<close>, \<^verbatim>\<open>\d\<close>, \<^verbatim>\<open>\w\<close>, \<^verbatim>\<open>\s\<close>.\<close>

definition is_AZ :: "char \<Rightarrow> bool" where
  "is_AZ c = (let n = (of_char c :: nat) in 65 \<le> n \<and> n \<le> 90)"

definition is_az :: "char \<Rightarrow> bool" where
  "is_az c = (let n = (of_char c :: nat) in 97 \<le> n \<and> n \<le> 122)"

definition is_digit :: "char \<Rightarrow> bool" where
  "is_digit c = (let n = (of_char c :: nat) in 48 \<le> n \<and> n \<le> 57)"

definition is_word :: "char \<Rightarrow> bool" where
  "is_word c = (is_AZ c \<or> is_az c \<or> is_digit c \<or> c = CHR ''_'')"

definition is_space :: "char \<Rightarrow> bool" where
  "is_space c = (let n = (of_char c :: nat) in (9 \<le> n \<and> n \<le> 13) \<or> n = 32 \<or> n = 160)"

definition is_line_terminator :: "char \<Rightarrow> bool" where
  "is_line_terminator c = (let n = (of_char c :: nat) in n = 10 \<or> n = 13)"

definition trim :: "string \<Rightarrow> string" where
  "trim s = rev (dropWhile is_space (rev (dropWhile is_space s)))"

text \<open>An unanchored pattern matches when it matches at some position.\<close>

fun somewhere :: "(string \<Rightarrow> bool) \<Rightarrow> string \<Rightarrow> bool" where
  "somewhere P [] = P []"
| "somewhere P (c # cs) = (P (c # cs) \<or> somewhere P cs)"

text \<open>\<^verbatim>\<open>.*(a|b)\<close> at the start of a string: \<^verbatim>\<open>.\<close> is any character but a line terminator.\<close>

fun dot_star_alt :: "string list \<Rightarrow> string \<Rightarrow> bool" where
  "dot_star_alt alts [] = list_ex (startsWith []) alts"
| "dot_star_alt alts (c # cs) =
     (list_ex (startsWith (c # cs)) alts \<or> (\<not> is_line_terminator c \<and> dot_star_alt alts cs))"

text \<open>\<^verbatim>\<open>lit1\s*-\s*lit2\<close> pieces: a literal, then the rest of the pattern after white space.\<close>

fun after_lit :: "string \<Rightarrow> (string \<Rightarrow> bool) \<Rightarrow> string \<Rightarrow> bool" where
  "after_lit [] k s = k s"
| "after_lit (p # ps) k [] = False"
| "after_lit (p # ps) k (c # cs) = (c = p \<and> after_lit ps k cs)"

fun after_spaces :: "(string \<Rightarrow> bool) \<Rightarrow> string \<Rightarrow> bool" where
  "after_spaces k [] = k []"
| "after_spaces k (c # cs) = (k (c # cs) \<or> (is_space c \<and> after_spaces k cs))"

text \<open>
  The five \<open>placeholderPatterns\<close>, each with the \<^verbatim>\<open>i\<close> flag (the text is lower-cased
  and compared with the lower-case pattern).
\<close>

definition placeholderPatterns :: "(string \<Rightarrow> bool) list" where
  "placeholderPatterns =
    [\<lambda>a. somewhere (after_lit ''follow-up call''
            (dot_star_alt [''address tbd'', ''address to be determined''])) (toLowerCase a),
     \<lambda>a. somewhere (after_lit ''follow-up call''
            (after_spaces (after_lit ''-'' (after_spaces (after_lit ''address tbd'' (\<lambda>r. True))))))
            (toLowerCase a),
     \<lambda>a. includes_str (toLowerCase a) ''address tbd'',
     \<lambda>a. includes_str (toLowerCase a) ''to be determined'',
     \<lambda>a. includes_str (toLowerCase a) ''placeholder'']"

definition validProvinceCodes :: "string list" where
  "validProvinceCodes =
    [''AG'', ''AL'', ''AN'', ''AO'', ''AR'', ''AP'', ''AT'', ''AV'', ''BA'', ''BT'', ''BL'', ''BN'',
     ''BG'', ''BI'', ''BO'', ''BZ'', ''BS'', ''BR'',
     ''CA'', ''CL'', ''CB'', ''CI'', ''CE'', ''CT'', ''CZ'', ''CH'', ''CO'', ''CS'', ''CR'', ''KR'',
     ''CN'', ''EN'', ''FM'', ''FE'', ''FI'', ''FG'',
     ''FC'', ''FR'', ''GE'', ''GO'', ''GR'', ''IM'', ''IS'', ''SP'', ''AQ'', ''LT'', ''LE'', ''LC'',
     ''LI'', ''LO'', ''LU'', ''MC'', ''MN'', ''MS'',
     ''MT'', ''VS'', ''ME'', ''MI'', ''MO'', ''MB'', ''NA'', ''NO'', ''NU'', ''OG'', ''OT'', ''OR'',
     ''PD'', ''PA'', ''PR'', ''PV'', ''PG'', ''PU'',
     ''PE'', ''PC'', ''PI'', ''PT'', ''PN'', ''PZ'', ''PO'', ''RG'', ''RA'', ''RC'', ''RE'', ''RI'',
     ''RN'', ''RM'', ''RO'', ''SA'', ''SS'', ''SV'',
     ''SI'', ''SO'', ''SR'', ''TA'', ''TE'', ''TR'', ''TO'', ''TP'', ''TN'', ''TV'', ''TS'', ''UD'',
     ''VA'', ''VE'', ''VB'', ''VC'', ''VR'', ''VV'', ''VI'', ''VT'']"

text \<open>
  \<^verbatim>\<open>s.match(/\b([A-Z]{2})\b/g)\<close>: the two-letter words of \<open>s\<close> from left to right. The
  flag says whether the character before the current position is a word character.
\<close>

fun two_letter_words :: "bool \<Rightarrow> string \<Rightarrow> string list" where
  "two_letter_words prevw (a # b # rest) =
     (if \<not> prevw \<and> is_AZ a \<and> is_AZ b \<and> (case rest of [] \<Rightarrow> True | c # r \<Rightarrow> \<not> is_word c)
      then [a, b] # two_letter_words True rest
      else two_letter_words (is_word a) (b # rest))"
| "two_letter_words prevw s = []"

definition extractDirectProvinceCode :: "string \<Rightarrow> string option" where
  "extractDirectProvinceCode address =
    find (\<lambda>code. code \<in> set validProvinceCodes) (two_letter_words False (toUpperCase address))"

text \<open>\<^verbatim>\<open>s.match(/\b(\d{5})\b/g)\<close>: the runs of exactly five digits standing as words.\<close>

fun five_digit_words :: "bool \<Rightarrow> string \<Rightarrow> string list" where
  "five_digit_words prevw (a # b # c # d # e # rest) =
     (if \<not> prevw \<and> is_digit a \<and> is_digit b \<and> is_digit c \<and> is_digit d \<and> is_digit e
         \<and> (case rest of [] \<Rightarrow> True | x # r \<Rightarrow> \<not> is_word x)
      then [a, b, c, d, e] # five_digit_words True rest
      else five_digit_words (is_word a) (b # c # d # e # rest))"
| "five_digit_words prevw s = []"

text \<open>
  \<^verbatim>\<open>fetchZipCodeProvinceMapping\<close>: the sheet rows after the header; a row enters the cache
  when its CAP, trimmed, is five digits and its PROVINCIA, trimmed and upper-cased, has
  length two. A later row overwrites an earlier one with the same CAP.
\<close>

fun zip_rows :: "string list list \<Rightarrow> (string \<rightharpoonup> string) \<Rightarrow> (string \<rightharpoonup> string)" where
  "zip_rows [] m = m"
| "zip_rows (row # rows) m =
     (case row of
        comune # cap # provincia # others \<Rightarrow>
          (let cleanCap = trim cap; cleanProvincia = toUpperCase (trim provincia)
           in if cap \<noteq> [] \<and> provincia \<noteq> [] \<and> length cleanCap = 5 \<and> list_all is_digit cleanCap
                 \<and> length cleanProvincia = 2
              then zip_rows rows (m(cleanCap \<mapsto> cleanProvincia))
              else zip_rows rows m)
      | _ \<Rightarrow> zip_rows rows m)"

definition fetchZipCodeProvinceMapping :: "string list list \<Rightarrow> (string \<rightharpoonup> string)" where
  "fetchZipCodeProvinceMapping rows = zip_rows (tl rows) Map.empty"

fun first_mapped :: "(string \<rightharpoonup> string) \<Rightarrow> string list \<Rightarrow> string option" where
  "first_mapped m [] = None"
| "first_mapped m (z # zs) =
     (case m z of
        Some province \<Rightarrow> (if province \<noteq> [] then Some province else first_mapped m zs)
      | None \<Rightarrow> first_mapped m zs)"

definition extractProvinceFromZipCode :: "(string \<rightharpoonup> string) \<Rightarrow> string \<Rightarrow> string option" where
  "extractProvinceFromZipCode zipCodeMapping address =
    first_mapped zipCodeMapping (five_digit_words False address)"

text \<open>
  \<^verbatim>\<open>extractProvinceViaGemini\<close>: without an API key, or when the call throws, null; else the
  answer is trimmed and upper-cased, its first two-letter word is taken and kept only when
  it is a valid code.
\<close>

record gemini =
  GEMINI_API_KEY :: string
  generateContent :: "string \<Rightarrow> string outcome"

definition extractProvinceViaGemini :: "gemini \<Rightarrow> string \<Rightarrow> string option" where
  "extractProvinceViaGemini g address =
    (if GEMINI_API_KEY g = [] then None
     else case generateContent g address of
       Threw e \<Rightarrow> None
     | Returned answer \<Rightarrow>
         (case two_letter_words False (toUpperCase (trim answer)) of
            [] \<Rightarrow> None
          | provinceCode # others \<Rightarrow>
              if provinceCode \<in> set validProvinceCodes then Some provinceCode else None))"

definition extractProvinceFromAddress ::
  "(string \<rightharpoonup> string) \<Rightarrow> gemini \<Rightarrow> string \<Rightarrow> string option" where
  "extractProvinceFromAddress zipCodeMapping g address =
    (if address = [] then None
     else if list_ex (\<lambda>pattern. pattern address) placeholderPatterns then None
     else case extractDirectProvinceCode address of
       Some directCode \<Rightarrow> Some directCode
     | None \<Rightarrow>
         (case extractProvinceFromZipCode zipCodeMapping address of
            Some zipCodeProvince \<Rightarrow> Some zipCodeProvince
          | None \<Rightarrow> extractProvinceViaGemini g address))"

definition example_sheet :: "string list list" where
  "example_sheet =
    [[''COMUNE'', ''CAP'', ''PROVINCIA'', ''REGIONE''],
     [''Roma'', ''00100'', ''RM'', ''Lazio''],
     [''Carbonia'', ''09013'', ''SU'', ''Sardegna'']]"

definition no_gemini :: gemini where
  "no_gemini = \<lparr> GEMINI_API_KEY = [], generateContent = (\<lambda>a. Threw ''no key'') \<rparr>"

section \<open>The post-call webhook (elevenlabs/routes.js)\<close>

text \<open>\<^verbatim>\<open>s.split(sep)\<close> for a one-character separator.\<close>

fun split_on :: "char \<Rightarrow> string \<Rightarrow> string list" where
  "split_on sep [] = [[]]"
| "split_on sep (c # cs) =
     (if c = sep then [] # split_on sep cs
      else case split_on sep cs of
             w # ws \<Rightarrow> (c # w) # ws
           | [] \<Rightarrow> [[c]])"

text \<open>
  \<^verbatim>\<open>parseInt(s)\<close>: leading white space and a sign are skipped, a \<^verbatim>\<open>0x\<close> prefix
  selects radix 16, and the longest run of digits is read; no digit gives NaN (\<open>None\<close>).
\<close>

definition digit_value :: "char \<Rightarrow> int option" where
  "digit_value c =
    (let n = (of_char c :: int) in
     if 48 \<le> n \<and> n \<le> 57 then Some (n - 48)
     else if 97 \<le> n \<and> n \<le> 102 then Some (n - 87)
     else if 65 \<le> n \<and> n \<le> 70 then Some (n - 55)
     else None)"

fun read_digits :: "int \<Rightarrow> string \<Rightarrow> int option \<Rightarrow> int option" where
  "read_digits radix [] acc = acc"
| "read_digits radix (c # cs) acc =
     (case digit_value c of
        Some d \<Rightarrow> (if d < radix
                   then read_digits radix cs (Some ((case acc of Some a \<Rightarrow> a | None \<Rightarrow> 0) * radix + d))
                   else acc)
      | None \<Rightarrow> acc)"

definition parse_magnitude :: "string \<Rightarrow> int option" where
  "parse_magnitude s =
    (if startsWith s ''0x'' \<or> startsWith s ''0X'' then read_digits 16 (drop 2 s) None
     else read_digits 10 s None)"

definition parseInt :: "string \<Rightarrow> int option" where
  "parseInt s =
    (case dropWhile is_space s of
       [] \<Rightarrow> None
     | c # cs \<Rightarrow>
         if c = CHR ''-'' then map_option uminus (parse_magnitude cs)
         else if c = CHR ''+'' then parse_magnitude cs
         else parse_magnitude (c # cs))"

text \<open>
  The request as the handler sees it. \<open>wr_body\<close> is \<^verbatim>\<open>request.body\<close>: falsy (a JSON
  \<^verbatim>\<open>null\<close>, \<^verbatim>\<open>0\<close>, \<^verbatim>\<open>false\<close> or empty string), a truthy value that is not an
  object, or an object. \<open>wr_raw\<close> is the body as it was sent; the JSON content-type parser
  of this module copies it to \<^verbatim>\<open>request.rawBody\<close>, another parser (form bodies) does
  not, and \<open>wr_stringified\<close> is \<^verbatim>\<open>JSON.stringify(request.body)\<close>.
\<close>

record webhook_data =
  wd_agent_id :: string
  wd_conversation_id :: string
  wd_status :: string
  wd_contactId :: string
  wd_call_successful :: string
  wd_transcript_length :: nat

record webhook_body =
  wb_type :: string
  wb_data :: "webhook_data option"

datatype request_body = Falsy | NotAnObject | Object webhook_body

record webhook_request =
  wr_body :: request_body
  wr_signature :: "string option"
  wr_raw :: string
  wr_parsed_as_json :: bool
  wr_stringified :: string

record webhook_env =
  ELEVENLABS_WEBHOOK_SECRET :: string
  createHmac_sha256_hex :: "string \<Rightarrow> string \<Rightarrow> string"
  Date_now :: int
  ENABLE_POST_CALL_ANALYSIS :: bool
  wh_calls_with_conversation :: "string \<Rightarrow> bool"

definition SIGNATURE_TOLERANCE_MINUTES :: int where
  "SIGNATURE_TOLERANCE_MINUTES = 30"

text \<open>The header \<^verbatim>\<open>t=...,v0=...\<close>; \<open>None\<close> is the parse error of the source.\<close>

definition parse_signature :: "string \<Rightarrow> (string \<times> string) option" where
  "parse_signature signature =
    (case split_on CHR '','' signature of
       [p0, p1] \<Rightarrow>
         (case split_on CHR ''='' p0 of
            [k0, timestamp] \<Rightarrow>
              (if k0 \<noteq> ''t'' then None
               else case split_on CHR ''='' p1 of
                      [k1, hash] \<Rightarrow>
                        (if k1 \<noteq> ''v0'' then None
                         else if timestamp = [] \<or> hash = [] then None
                         else Some (timestamp, hash))
                    | _ \<Rightarrow> None)
          | _ \<Rightarrow> None)
     | _ \<Rightarrow> None)"

definition timestamp_ok :: "webhook_env \<Rightarrow> string \<Rightarrow> bool" where
  "timestamp_ok env timestamp =
    (case parseInt timestamp of
       None \<Rightarrow> False
     | Some timestampInt \<Rightarrow>
         let tolerance = Date_now env div 1000 - SIGNATURE_TOLERANCE_MINUTES * 60
         in \<not> timestampInt < tolerance)"

definition rawBody :: "webhook_request \<Rightarrow> string" where
  "rawBody request =
    (if wr_parsed_as_json request \<and> wr_raw request \<noteq> [] then wr_raw request
     else wr_stringified request)"

definition fullPayloadToSign :: "string \<Rightarrow> webhook_request \<Rightarrow> string" where
  "fullPayloadToSign timestamp request = timestamp @ ''.'' @ rawBody request"

text \<open>STEP 3 to STEP 10: what the handler does with a request it has let through.\<close>

definition process_webhook :: "webhook_env \<Rightarrow> webhook_body \<Rightarrow> nat \<times> effect list" where
  "process_webhook env body =
    (if wb_type body = [] then
       (500, [NonFatalNotification ''CRITICAL: ElevenLabs Webhook Processing Failed''])
     else if wb_type body \<noteq> ''post_call_transcription'' then
       (200, [NormalNotification ''ElevenLabs Webhook - Unsupported Type''])
     else case wb_data body of
       None \<Rightarrow> (500, [NonFatalNotification ''CRITICAL: ElevenLabs Webhook Processing Failed''])
     | Some d \<Rightarrow>
         if wd_conversation_id d = [] \<or> wd_agent_id d = [] \<or> wd_status d = [] then
           (500, [NonFatalNotification ''CRITICAL: ElevenLabs Webhook Processing Failed''])
         else
           let tracked = (wd_contactId d \<noteq> [] \<and> wd_contactId d \<noteq> wd_conversation_id d) in
           (200,
            (if tracked then [CrmNote (TextV (wd_contactId d))] else []) @
            (if wh_calls_with_conversation env (wd_conversation_id d)
             then [CallsStatusUpdate (wd_conversation_id d)] else []) @
            [NormalNotification
               (if wd_call_successful d = ''success'' then ''Chiamata AI Completata con Successo''
                else if wd_call_successful d = ''failure'' then ''Chiamata AI Non Riuscita''
                else if wd_call_successful d = ''partial'' then ''Chiamata AI Parzialmente Riuscita''
                else ''Chiamata AI Completata'')] @
            (if ENABLE_POST_CALL_ANALYSIS env
                \<and> (wd_call_successful d = ''success'' \<or> wd_call_successful d = ''partial'')
                \<and> wd_transcript_length d > 0 \<and> tracked
             then [PostCallAnalysis (wd_conversation_id d)] else [])))"

definition elevenlabs_webhook :: "webhook_env \<Rightarrow> webhook_request \<Rightarrow> nat \<times> effect list" where
  "elevenlabs_webhook env request =
    (case wr_body request of
       Falsy \<Rightarrow> (400, [NonFatalNotification ''ElevenLabs Webhook - Missing Request Body''])
     | NotAnObject \<Rightarrow> (400, [NonFatalNotification ''ElevenLabs Webhook - Invalid Request Body''])
     | Object body \<Rightarrow>
         if ELEVENLABS_WEBHOOK_SECRET env \<noteq> [] then
           (case wr_signature request of
              None \<Rightarrow> (401, [NonFatalNotification ''ElevenLabs Webhook - Missing Signature''])
            | Some signature \<Rightarrow>
                if signature = [] then
                  (401, [NonFatalNotification ''ElevenLabs Webhook - Missing Signature''])
                else case parse_signature signature of
                  None \<Rightarrow> (401, [NonFatalNotification ''ElevenLabs Webhook - Signature Parse Error''])
                | Some (timestamp, hash) \<Rightarrow>
                    if \<not> timestamp_ok env timestamp then
                      (401, [NonFatalNotification
                               ''ElevenLabs Webhook - Timestamp Validation Error''])
                    else if hash \<noteq> createHmac_sha256_hex env (ELEVENLABS_WEBHOOK_SECRET env)
                                     (fullPayloadToSign timestamp request) then
                      (401, [NonFatalNotification ''ElevenLabs Webhook - HMAC Validation Failed''])
                    else process_webhook env body)
         else
           (let (code, es) = process_webhook env body
            in (code, NonFatalNotification ''ElevenLabs Webhook - No Security Configured'' # es)))"

text \<open>The effects of processing, as against the alerts of a rejection.\<close>

fun is_processing :: "effect \<Rightarrow> bool" where
  "is_processing (CrmNote c) = True"
| "is_processing (CallsStatusUpdate c) = True"
| "is_processing (PostCallAnalysis c) = True"
| "is_processing (NormalNotification t) = True"
| "is_processing e = False"

text \<open>A stand-in digest for the examples: any function that tells two payloads apart will do.\<close>

definition example_digest :: "string \<Rightarrow> string \<Rightarrow> string" where
  "example_digest secret payload = rev (secret @ payload)"

definition example_webhook_env :: webhook_env where
  "example_webhook_env =
    \<lparr> ELEVENLABS_WEBHOOK_SECRET = ''s3cret'', createHmac_sha256_hex = example_digest,
      Date_now = 1736942400000, ENABLE_POST_CALL_ANALYSIS = True,
      wh_calls_with_conversation = (\<lambda>c. True) \<rparr>"

definition example_webhook_body :: webhook_body where
  "example_webhook_body =
    \<lparr> wb_type = ''post_call_transcription'',
      wb_data = Some \<lparr> wd_agent_id = ''agent1'', wd_conversation_id = ''conv1'',
                       wd_status = ''done'', wd_contactId = ''C1'',
                       wd_call_successful = ''success'', wd_transcript_length = 4 \<rparr> \<rparr>"

definition example_request :: "request_body \<Rightarrow> string \<Rightarrow> bool \<Rightarrow> webhook_request" where
  "example_request b sig json =
    \<lparr> wr_body = b, wr_signature = Some sig, wr_raw = ''{\"type\": \"post_call_transcription\"}'',
      wr_parsed_as_json = json, wr_stringified = ''{\"type\":\"post_call_transcription\"}'' \<rparr>"

section \<open>Free slots and the booking fallback (ghl/api.js, ghl/routes.js)\<close>

text \<open>
  A slot is an instant (the ISO string of the CRM, by its milliseconds since the epoch) and
  the rep it belongs to, if known. The CRM is a collaborator: asked for a window and a rep
  filter it lists free instants, or the call fails (no token, an HTTP error, an exception),
  which the fetch functions turn into their \<^verbatim>\<open>null\<close> sentinel (\<open>None\<close>).
\<close>

record slot =
  sl_datetime :: int
  sl_userId :: "string option"

type_synonym crm = "int \<Rightarrow> int \<Rightarrow> string list \<Rightarrow> int list option"

text \<open>\<^verbatim>\<open>fetchGHLCalendarSlots(location, calendar, start, end)\<close> with no rep: the bare instants.\<close>

definition fetchGHLCalendarSlots :: "crm \<Rightarrow> int \<Rightarrow> int \<Rightarrow> slot list option" where
  "fetchGHLCalendarSlots api startMillis endMillis =
    map_option (map (\<lambda>t. \<lparr> sl_datetime = t, sl_userId = None \<rparr>)) (api startMillis endMillis [])"

text \<open>
  \<^verbatim>\<open>fetchGHLCalendarSlotsForUsers\<close>: every listed instant is given the rep
  \<^verbatim>\<open>userIds[allFoundSlots.length % userIds.length]\<close>; the slots are sorted by instant and
  only the first three are returned.
\<close>

fun assign_round_robin :: "string list \<Rightarrow> nat \<Rightarrow> int list \<Rightarrow> slot list" where
  "assign_round_robin userIds i [] = []"
| "assign_round_robin userIds i (t # ts) =
     \<lparr> sl_datetime = t, sl_userId = Some (userIds ! (i mod length userIds)) \<rparr>
       # assign_round_robin userIds (Suc i) ts"

definition fetchGHLCalendarSlotsForUsers ::
  "crm \<Rightarrow> int \<Rightarrow> int \<Rightarrow> string list \<Rightarrow> slot list option" where
  "fetchGHLCalendarSlotsForUsers api startMillis endMillis userIds =
    (if userIds = [] then Some []
     else case api startMillis endMillis userIds of
       None \<Rightarrow> None
     | Some listed \<Rightarrow>
         let allFoundSlots = assign_round_robin userIds 0 listed
         in Some (take 3 (sort_key sl_datetime allFoundSlots)))"

text \<open>
  \<^verbatim>\<open>findAndFormatAlternativesForTwoDays\<close>. The key of a slot is its UTC date
  \<^verbatim>\<open>toISOString().split('T')[0]\<close>, taken here as the number of the UTC day, which orders
  as the text \<open>YYYY-MM-DD\<close> does.
\<close>

definition dateKey :: "slot \<Rightarrow> int" where
  "dateKey s = sl_datetime s div day_ms"

definition first_two_dates :: "slot list \<Rightarrow> slot list" where
  "first_two_dates allSlotDates =
    (case sort (remdups (map dateKey allSlotDates)) of
       [] \<Rightarrow> []
     | [d0] \<Rightarrow> filter (\<lambda>s. dateKey s = d0) allSlotDates
     | d0 # d1 # ds \<Rightarrow>
         filter (\<lambda>s. dateKey s = d0) allSlotDates @ filter (\<lambda>s. dateKey s = d1) allSlotDates)"

definition findAndFormatAlternativesForTwoDays :: "crm \<Rightarrow> int \<Rightarrow> string option \<Rightarrow> slot list" where
  "findAndFormatAlternativesForTwoDays api originalFailedSlotUTC userIdForAlternatives =
    (let searchStartBaseUTC = originalFailedSlotUTC - originalFailedSlotUTC mod day_ms;
         searchWindowEndUTC = searchStartBaseUTC + 7 * day_ms;
         rawSlots =
           (case userIdForAlternatives of
              Some u \<Rightarrow>
                if u \<noteq> [] then fetchGHLCalendarSlotsForUsers api searchStartBaseUTC searchWindowEndUTC [u]
                else fetchGHLCalendarSlots api searchStartBaseUTC searchWindowEndUTC
            | None \<Rightarrow> fetchGHLCalendarSlots api searchStartBaseUTC searchWindowEndUTC)
     in case rawSlots of
          None \<Rightarrow> []
        | Some raw \<Rightarrow>
            let allSlotDates =
                  sort_key sl_datetime (filter (\<lambda>s. sl_datetime s \<ge> originalFailedSlotUTC) raw)
            in first_two_dates allSlotDates)"

text \<open>
  \<^verbatim>\<open>POST /bookAppointment\<close> from the point where the requested time has been parsed:
  the CRM booking succeeds (2xx) or fails, and a failure looks for alternatives.
\<close>

definition bookAppointment ::
  "crm \<Rightarrow> bool \<Rightarrow> int \<Rightarrow> string option \<Rightarrow> nat \<times> string \<times> slot list" where
  "bookAppointment api booking_ok targetSlotStartUTC userId =
    (if booking_ok then (201, ''success'', [])
     else
       let alternatives = findAndFormatAlternativesForTwoDays api targetSlotStartUTC userId
       in if length alternatives > 0
          then (200, ''booking_failed_alternatives_available'', alternatives)
          else (409, ''booking_failed_no_alternatives'', []))"

text \<open>
  An example calendar: on 2025-03-17 rep \<open>U1\<close> is free at 08:00, 09:00, 10:00 and 17:00
  UTC, and on 2025-03-18 at 08:30 UTC.
\<close>

definition example_crm :: crm where
  "example_crm startMillis endMillis userIds =
    Some (filter (\<lambda>t. startMillis \<le> t \<and> t < endMillis)
      [1742198400000, 1742202000000, 1742205600000, 1742230800000, 1742286600000])"

section \<open>The slot display string (outgoing-call.js, intake)\<close>

text \<open>
  The intake renders the slots into the text the voice agent reads. An instant is shown
  in Italian civil time through \<^verbatim>\<open>toLocaleDateString\<close> and \<^verbatim>\<open>toLocaleTimeString\<close>;
  these renderings are taken as given: the Rome calendar day of an instant (which orders as
  the \<^verbatim>\<open>en-CA\<close> date text does), the capitalised short weekday, the date
  \<open>DD-MM-YYYY\<close>, and the time \<open>HH:MM\<close>. The lines are joined with the two characters
  backslash and \<open>n\<close> (the source writes \<^verbatim>\<open>'\\n'\<close>), not with a line feed.
\<close>

record rome_clock =
  loc_day :: "int \<Rightarrow> int"
  loc_weekday :: "int \<Rightarrow> string"
  loc_datePart :: "int \<Rightarrow> string"
  loc_time :: "int \<Rightarrow> string"

definition bs_n :: string where
  "bs_n = [CHR 0x5C, CHR ''n'']"

fun join :: "string \<Rightarrow> string list \<Rightarrow> string" where
  "join sep [] = []"
| "join sep [x] = x"
| "join sep (x # y # ys) = x @ sep @ join sep (y # ys)"

text \<open>First occurrences in order: the keys of an object, the elements of a \<^verbatim>\<open>Set\<close>.\<close>

fun uniq :: "'a list \<Rightarrow> 'a list" where
  "uniq [] = []"
| "uniq (x # xs) = x # removeAll x (uniq xs)"

text \<open>\<^verbatim>\<open>slotObj.userId || null\<close>.\<close>

definition slot_userId :: "slot \<Rightarrow> string option" where
  "slot_userId s = (case sl_userId s of Some u \<Rightarrow> (if u = [] then None else Some u) | None \<Rightarrow> None)"

definition uniqueUserIds :: "slot list \<Rightarrow> string list" where
  "uniqueUserIds allSlots = uniq (List.map_filter slot_userId allSlots)"

definition slot_day :: "rome_clock \<Rightarrow> slot \<Rightarrow> int" where
  "slot_day rc s = loc_day rc (sl_datetime s)"

definition slot_header :: "rome_clock \<Rightarrow> slot \<Rightarrow> string" where
  "slot_header rc s = loc_weekday rc (sl_datetime s) @ '' '' @ loc_datePart rc (sl_datetime s)"

definition timeWithUser :: "rome_clock \<Rightarrow> slot \<Rightarrow> string" where
  "timeWithUser rc s =
    (case slot_userId s of
       Some u \<Rightarrow> loc_time rc (sl_datetime s) @ ''|'' @ u
     | None \<Rightarrow> loc_time rc (sl_datetime s))"

definition sortedDateKeys :: "rome_clock \<Rightarrow> slot list \<Rightarrow> int list" where
  "sortedDateKeys rc slots = sort (uniq (map (slot_day rc) slots))"

definition day_group :: "rome_clock \<Rightarrow> slot list \<Rightarrow> int \<Rightarrow> slot list" where
  "day_group rc slots k = filter (\<lambda>s. slot_day rc s = k) slots"

text \<open>The header of a group is the one of the slot that opened it.\<close>

definition group_header :: "rome_clock \<Rightarrow> slot list \<Rightarrow> string" where
  "group_header rc g = (case g of [] \<Rightarrow> [] | s # ss \<Rightarrow> slot_header rc s)"

definition codes :: "string list" where
  "codes = [''A'', ''B'', ''C'']"

text \<open>Strategy 1: one rep. The times lose their rep and a trailer names the rep.\<close>

definition single_rep_lines :: "rome_clock \<Rightarrow> slot list \<Rightarrow> string \<Rightarrow> string list" where
  "single_rep_lines rc allSlots singleUserId =
    map (\<lambda>dateKey.
           group_header rc (day_group rc allSlots dateKey) @ '': '' @
           join '', '' (sort (map (\<lambda>s. hd (split_on CHR ''|'' (timeWithUser rc s)))
                                  (day_group rc allSlots dateKey))))
        (sortedDateKeys rc allSlots)
    @ [bs_n @ ''Sales Rep: '' @ singleUserId]"

text \<open>Strategy 2: up to three reps. The times carry a letter and a legend maps the letters.\<close>

text \<open>
  \<^verbatim>\<open>userIdMap\<close> and \<^verbatim>\<open>repGroups\<close> are plain objects written and read by rep id. A
  key that names a member every object inherits is found by a read even when it was never
  written. In \<^verbatim>\<open>userIdMap\<close> the write of \<^verbatim>\<open>__proto__\<close> stores nothing, and a read
  that finds an inherited member is rendered by the template as text.
\<close>

definition inherited_members :: "string list" where
  "inherited_members =
    [''constructor'', ''__defineGetter__'', ''__defineSetter__'', ''hasOwnProperty'',
     ''__lookupGetter__'', ''__lookupSetter__'', ''isPrototypeOf'', ''propertyIsEnumerable'',
     ''toString'', ''valueOf'', ''__proto__'', ''toLocaleString'']"

definition userIdMap_get :: "(string \<times> string) list \<Rightarrow> string \<Rightarrow> string" where
  "userIdMap_get userIdMap userId =
    (if userId = ''__proto__'' then ''[object Object]''
     else case map_of userIdMap userId of
            Some c \<Rightarrow> c
          | None \<Rightarrow>
              if userId \<in> set inherited_members
              then ''function '' @ (if userId = ''constructor'' then ''Object'' else userId) @
                   ''() { [native code] }''
              else ''undefined'')"

definition time_with_code :: "(string \<times> string) list \<Rightarrow> string \<Rightarrow> string" where
  "time_with_code userIdMap tw =
    (case split_on CHR ''|'' tw of
       time # userId # others \<Rightarrow>
         (if userId \<noteq> [] then time @ ''('' @ userIdMap_get userIdMap userId @ '')'' else time)
     | [time] \<Rightarrow> time
     | [] \<Rightarrow> [])"

definition abbreviated_lines :: "rome_clock \<Rightarrow> slot list \<Rightarrow> string list" where
  "abbreviated_lines rc allSlots =
    (let userIdMap = zip (uniqueUserIds allSlots) codes in
     map (\<lambda>dateKey.
            group_header rc (day_group rc allSlots dateKey) @ '': '' @
            join '', '' (sort_key (\<lambda>a. hd (split_on CHR ''('' a))
                           (map (\<lambda>s. time_with_code userIdMap (timeWithUser rc s))
                                (day_group rc allSlots dateKey))))
         (sortedDateKeys rc allSlots)
     @ [bs_n @ ''Sales Reps:'']
     @ map (\<lambda>(userId, code). code @ '' = '' @ userId) userIdMap)"

text \<open>
  Strategy 3: four reps or more. One section per rep (a slot with no rep goes under
  \<open>unknown\<close>), opened by the rep id and a colon, with the rep's days below it. For a rep
  id that names an inherited member, \<^verbatim>\<open>repGroups[userId]\<close> is that member, no section is
  opened, and reading \<^verbatim>\<open>.slots[italianDateKey]\<close> of it throws.
\<close>

definition rep_key :: "slot \<Rightarrow> string" where
  "rep_key s = (case slot_userId s of Some u \<Rightarrow> u | None \<Rightarrow> ''unknown'')"

text \<open>
  \<^verbatim>\<open>Object.entries\<close> lists the keys that are array indices (canonical decimal numbers
  below \<open>2\<^sup>3\<^sup>2 - 1\<close>) first, in ascending order, and then the other keys in the order
  of their insertion.
\<close>

definition is_index_key :: "string \<Rightarrow> bool" where
  "is_index_key k =
    (k \<noteq> [] \<and> list_all is_digit k \<and> (k = ''0'' \<or> hd k \<noteq> CHR ''0'') \<and>
     (case read_digits 10 k None of Some v \<Rightarrow> v < 4294967295 | None \<Rightarrow> False))"

definition index_value :: "string \<Rightarrow> int" where
  "index_value k = (case read_digits 10 k None of Some v \<Rightarrow> v | None \<Rightarrow> 0)"

definition own_keys :: "string list \<Rightarrow> string list" where
  "own_keys ks =
    sort_key index_value (filter is_index_key ks) @ filter (\<lambda>k. \<not> is_index_key k) ks"

definition rep_grouped_lines :: "rome_clock \<Rightarrow> slot list \<Rightarrow> string list outcome" where
  "rep_grouped_lines rc allSlots =
    (if list_ex (\<lambda>s. rep_key s \<in> set inherited_members) allSlots then Threw ''TypeError''
     else Returned
       (concat (map (\<lambda>userId.
                   let mine = filter (\<lambda>s. rep_key s = userId) allSlots in
                   (bs_n @ userId @ '':'') #
                   map (\<lambda>dateKey.
                          ''  '' @ group_header rc (day_group rc mine dateKey) @ '': '' @
                          join '', '' (sort (map (\<lambda>s. loc_time rc (sl_datetime s))
                                                 (day_group rc mine dateKey))))
                       (sortedDateKeys rc mine))
                (own_keys (uniq (map rep_key allSlots))))))"

definition formatSlots :: "rome_clock \<Rightarrow> slot list \<Rightarrow> string outcome" where
  "formatSlots rc allSlots =
    (case (case uniqueUserIds allSlots of
             [singleUserId] \<Rightarrow> Returned (single_rep_lines rc allSlots singleUserId)
           | us \<Rightarrow> if length us \<le> 3 then Returned (abbreviated_lines rc allSlots)
                   else rep_grouped_lines rc allSlots) of
       Threw e \<Rightarrow> Threw e
     | Returned formattedLines \<Rightarrow> Returned (join bs_n formattedLines))"

definition example_clock :: rome_clock where
  "example_clock =
    \<lparr> loc_day = (\<lambda>t. (t + 3600000) div day_ms),
      loc_weekday = (\<lambda>t. if (t + 3600000) div day_ms = 20164 then ''Lun'' else ''Mar''),
      loc_datePart = (\<lambda>t. if (t + 3600000) div day_ms = 20164 then ''17-03-2025'' else ''18-03-2025''),
      loc_time = (\<lambda>t. if (t + 3600000) mod day_ms = 32400000 then ''09:00''
                        else if (t + 3600000) mod day_ms = 36000000 then ''10:00''
                        else if (t + 3600000) mod day_ms = 34200000 then ''09:30''
                        else ''14:00'') \<rparr>"

definition example_slot :: "int \<Rightarrow> string \<Rightarrow> slot" where
  "example_slot t u = \<lparr> sl_datetime = t, sl_userId = Some u \<rparr>"


section \<open>The intake endpoint (outgoing-call.js, POST outbound-call)\<close>

text \<open>The router: the active reps whose services and provinces hold the pair asked for.\<close>

record sales_rep =
  ghlUserId :: string
  rep_name :: string
  rep_services :: "string list"
  rep_provinces :: "string list"
  rep_active :: bool

definition getSalesRepsByServiceAndProvince :: "sales_rep list \<Rightarrow> string \<Rightarrow> string \<Rightarrow> sales_rep list" where
  "getSalesRepsByServiceAndProvince reps service province =
    filter (\<lambda>rep. rep_active rep \<and> service \<in> set (rep_services rep)
                  \<and> province \<in> set (rep_provinces rep)) reps"

text \<open>
  The request after the alternative field names have been folded (\<^verbatim>\<open>phone ||
  request.body.phoneNumber || ...\<close>); an absent field is the empty string.
\<close>

record intake_request =
  ir_phone :: string
  ir_contact_id :: string
  ir_first_name :: string
  ir_full_name :: string
  ir_email :: string
  ir_Service :: string
  ir_full_address :: string
  ir_isAbruptEndingRetry :: bool
  ir_pastCallSummary :: string
  ir_originalConversationId :: string

text \<open>
  What the collaborators answer during one request: the voice-AI signed URL, the CRM token,
  the sheet and the language model behind province extraction, the \<open>sales_reps\<close> table,
  and the slot fetch that the handler calls (for no rep, one rep, or several), which
  returns slots, returns the \<^verbatim>\<open>null\<close> sentinel, or throws.
\<close>

record intake_env =
  ie_now :: int
  ie_getSignedUrl :: "string outcome"
  ie_getValidGoHighlevelToken :: "string option outcome"
  ie_CALENDAR_ID :: string
  ie_zipCodeMapping :: "string \<rightharpoonup> string"
  ie_gemini :: gemini
  ie_sales_reps :: "sales_rep list"
  ie_fetchGHLCalendarSlots :: "int \<Rightarrow> int \<Rightarrow> string option \<Rightarrow> slot list option outcome"
  ie_fetchGHLCalendarSlotsForUsers :: "int \<Rightarrow> int \<Rightarrow> string list \<Rightarrow> slot list option outcome"
  ie_clock :: rome_clock

record intake_reply =
  reply_code :: nat
  reply_critical :: bool
  reply_error :: string

definition ALLOWED_SERVICES :: "string list" where
  "ALLOWED_SERVICES = [''Infissi'', ''Vetrate'', ''Pergole'']"

text \<open>
  \<^verbatim>\<open>startDate.setDate(startDate.getDate() + 1); startDate.setHours(8, 30, 0, 0)\<close> and
  \<^verbatim>\<open>endDate = new Date(startDate); endDate.setDate(startDate.getDate() + 14);
  endDate.setHours(21, 30, 0, 0)\<close>: tomorrow 08:30 and fourteen days later 21:30, in the
  local time of the host.
\<close>

definition window_start :: "config \<Rightarrow> int \<Rightarrow> int" where
  "window_start cfg now = setHours cfg (addDays cfg now 1) 8 30"

definition window_end :: "config \<Rightarrow> int \<Rightarrow> int" where
  "window_end cfg now = setHours cfg (addDays cfg (window_start cfg now) 14) 21 30"

definition intake_row :: "config \<Rightarrow> intake_env \<Rightarrow> intake_request \<Rightarrow> string option \<Rightarrow> string \<Rightarrow> string \<Rightarrow> nat \<Rightarrow> queue_row" where
  "intake_row cfg env rq province formattedSlotsString signedUrl qid =
    \<lparr> q_queue_id = qid,
      q_contact_id = TextV (ir_contact_id rq),
      q_phone_number = TextV (ir_phone rq),
      q_first_name = (if ir_first_name rq = [] then Null else TextV (ir_first_name rq)),
      q_full_name = (if ir_full_name rq = [] then Null else TextV (ir_full_name rq)),
      q_email = (if ir_email rq = [] then Null else TextV (ir_email rq)),
      q_service = TextV (ir_Service rq),
      q_province = (case province of Some p \<Rightarrow> TextV p | None \<Rightarrow> Null),
      q_retry_stage = 0,
      q_status = ''pending'',
      q_scheduled_at = ie_now env,
      q_call_options =
        \<lparr> co_from = getPhoneNumberForService cfg (TextV (ir_Service rq)),
          co_to = TextV (ir_phone rq),
          co_params =
            map TextV [ir_first_name rq, ir_full_name rq, ir_email rq, ir_phone rq,
                       ir_contact_id rq, ir_Service rq]
            @ (if ir_isAbruptEndingRetry rq
               then map TextV [''true'', ir_pastCallSummary rq, ir_originalConversationId rq]
               else []) \<rparr>,
      q_available_slots_text = TextV formattedSlotsString,
      q_initial_signed_url = (if signedUrl = [] then Null else TextV signedUrl),
      q_first_attempt_timestamp = ie_now env,
      q_last_attempt_at = Null,
      q_last_error = Null \<rparr>"

text \<open>
  The slot step: which fetch is called, and what \<open>allSlots\<close> is afterwards. The two
  single fetches keep the initial empty array when the fetch does not return an array; the
  fetch for several reps is assigned as it is, the \<^verbatim>\<open>null\<close> sentinel included.
\<close>

definition fetch_allSlots ::
  "config \<Rightarrow> intake_env \<Rightarrow> bool \<Rightarrow> string list \<Rightarrow> slot list option outcome" where
  "fetch_allSlots cfg env isAbruptEndingRetry targetUserIds =
    (let startDate = window_start cfg (ie_now env); endDate = window_end cfg (ie_now env) in
     if targetUserIds = [] \<and> isAbruptEndingRetry then
       (case ie_fetchGHLCalendarSlots env startDate endDate None of
          Threw e \<Rightarrow> Threw e
        | Returned None \<Rightarrow> Returned (Some [])
        | Returned (Some rawSlots) \<Rightarrow> Returned (Some rawSlots))
     else if length targetUserIds = 1 then
       (case ie_fetchGHLCalendarSlots env startDate endDate (Some (hd targetUserIds)) of
          Threw e \<Rightarrow> Threw e
        | Returned None \<Rightarrow> Returned (Some [])
        | Returned (Some rawSlots) \<Rightarrow> Returned (Some rawSlots))
     else if length targetUserIds > 1 then
       ie_fetchGHLCalendarSlotsForUsers env startDate endDate targetUserIds
     else Returned (Some []))"

definition slots_text :: "rome_clock \<Rightarrow> slot list option \<Rightarrow> string outcome" where
  "slots_text rc allSlots =
    (case allSlots of
       None \<Rightarrow> Returned ''Errore nel recupero degli slot GHL.''
     | Some slots \<Rightarrow>
         if slots \<noteq> [] then formatSlots rc slots
         else Returned (''Nessuno slot disponibile nell'' @ [CHR 0x27] @
                        ''intervallo richiesto (vuoto o non valido).''))"

text \<open>The end of the handler: the two critical checks have passed, the job is queued.\<close>

definition enqueue_call ::
  "config \<Rightarrow> intake_env \<Rightarrow> intake_request \<Rightarrow> string option \<Rightarrow> string \<Rightarrow> string \<Rightarrow> db_state
     \<Rightarrow> intake_reply \<times> db_state \<times> effect list" where
  "enqueue_call cfg env rq province formattedSlotsString signedUrl s =
    (\<lparr> reply_code = 202, reply_critical = False, reply_error = [] \<rparr>,
     s\<lparr> call_queue := call_queue s @
            [intake_row cfg env rq province formattedSlotsString signedUrl (next_queue_id s)],
          next_queue_id := Suc (next_queue_id s) \<rparr>,
     (case ie_getValidGoHighlevelToken env of
        Returned (Some tok) \<Rightarrow> (if tok \<noteq> [] then [CrmWorkflow ''call-scheduled''] else [])
      | Returned None \<Rightarrow> []
      | Threw e \<Rightarrow> [NonFatalNotification ''GHL Call Scheduled Workflow Error'']))"

definition critical_check ::
  "config \<Rightarrow> intake_env \<Rightarrow> intake_request \<Rightarrow> string option \<Rightarrow> sales_rep list
     \<Rightarrow> slot list option \<Rightarrow> string \<Rightarrow> string \<Rightarrow> db_state
     \<Rightarrow> intake_reply \<times> db_state \<times> effect list" where
  "critical_check cfg env rq province targetSalesReps allSlots formattedSlotsString signedUrl s =
    (if length targetSalesReps > 0 \<and> \<not> ir_isAbruptEndingRetry rq then
       let hasSlotError = (includes_str formattedSlotsString ''Errore'' \<or> allSlots = None);
           hasNoSlots = (includes_str formattedSlotsString ''Nessuno slot disponibile''
                          \<or> allSlots = Some [])
       in if hasSlotError \<or> hasNoSlots then
            (\<lparr> reply_code = 500, reply_critical = True,
               reply_error = (if hasSlotError
                  then ''Calendar API error: Cannot fetch available slots for sales representatives''
                  else ''No calendar slots available for assigned sales representatives'') \<rparr>,
             s,
             [FatalNotification (if hasSlotError
                then ''FATAL: GHL Calendar API Error with Sales Reps Available''
                else ''FATAL: No Calendar Slots Available with Sales Reps'')])
          else enqueue_call cfg env rq province formattedSlotsString signedUrl s
     else enqueue_call cfg env rq province formattedSlotsString signedUrl s)"

text \<open>
  The \<^verbatim>\<open>catch\<close> block around the fetch and the formatting: with reps at hand and no
  abrupt-ending retry the reply is the critical one; otherwise the handler goes on with the
  error text.
\<close>

definition slot_exception ::
  "config \<Rightarrow> intake_env \<Rightarrow> intake_request \<Rightarrow> string option \<Rightarrow> sales_rep list
     \<Rightarrow> slot list option \<Rightarrow> string \<Rightarrow> db_state
     \<Rightarrow> intake_reply \<times> db_state \<times> effect list" where
  "slot_exception cfg env rq province targetSalesReps allSlots signedUrl s =
    (if length targetSalesReps > 0 \<and> \<not> ir_isAbruptEndingRetry rq then
       (\<lparr> reply_code = 500, reply_critical = True,
          reply_error = ''Calendar API exception: Cannot fetch available slots for sales representatives'' \<rparr>,
        s,
        [FatalNotification ''FATAL: GHL Calendar API Exception with Sales Reps Available''])
     else
       critical_check cfg env rq province targetSalesReps allSlots
         ''Errore durante il controllo degli slot.'' signedUrl s)"

definition outbound_call ::
  "config \<Rightarrow> intake_env \<Rightarrow> intake_request \<Rightarrow> db_state \<Rightarrow> intake_reply \<times> db_state \<times> effect list" where
  "outbound_call cfg env rq s =
    (let service = ir_Service rq; address = ir_full_address rq in
     if service = [] then
       (\<lparr> reply_code = 400, reply_critical = False, reply_error = ''A valid service field is required'' \<rparr>, s,
        [NonFatalNotification ''Missing Service - Call Blocked''])
     else if service \<notin> set ALLOWED_SERVICES then
       (\<lparr> reply_code = 400, reply_critical = False, reply_error = ''Invalid service value'' \<rparr>, s, [])
     else if \<not> ir_isAbruptEndingRetry rq \<and> trim address = [] then
       (\<lparr> reply_code = 400, reply_critical = False,
          reply_error = ''Address is required to determine sales rep assignment'' \<rparr>, s,
        [NonFatalNotification ''Missing Address - Call Blocked''])
     else if ir_phone rq = [] \<or> ir_contact_id rq = [] then
       (\<lparr> reply_code = 400, reply_critical = False, reply_error = ''phone and contactId are required'' \<rparr>, s, [])
     else case ie_getSignedUrl env of
       Threw e \<Rightarrow> (\<lparr> reply_code = 500, reply_critical = False, reply_error = e \<rparr>, s, [])
     | Returned signedUrl \<Rightarrow>
        (case ie_getValidGoHighlevelToken env of
           Threw e \<Rightarrow>
             critical_check cfg env rq None [] (Some [])
               ''Errore durante il controllo degli slot.'' signedUrl s
         | Returned tok \<Rightarrow>
             if tok = None \<or> tok = Some [] then
               (\<lparr> reply_code = 500, reply_critical = False,
                  reply_error = ''GoHighLevel integration not available. Cannot process calls at this time.'' \<rparr>,
                s, [NonFatalNotification ''GoHighLevel Token Missing - Call Blocked''])
             else if ie_CALENDAR_ID env = [] then
               critical_check cfg env rq None [] (Some [])
                 ''Calendar ID not configured for slot checking.'' signedUrl s
             else
               let province = (if address \<noteq> []
                               then extractProvinceFromAddress (ie_zipCodeMapping env) (ie_gemini env) address
                               else None);
                   province = (case province of Some p \<Rightarrow> (if p = [] then None else Some p)
                               | None \<Rightarrow> None);
                   targetSalesReps =
                     (case province of
                        Some p \<Rightarrow> getSalesRepsByServiceAndProvince (ie_sales_reps env) service p
                      | None \<Rightarrow> [])
               in
               if targetSalesReps = [] \<and> \<not> ir_isAbruptEndingRetry rq then
                 (\<lparr> reply_code = 400, reply_critical = False,
                    reply_error = ''No sales representatives available for this service and location'' \<rparr>,
                  s, [NormalNotification ''No Sales Rep Available'', CrmWorkflow ''no-sales-rep''])
               else
                 (case fetch_allSlots cfg env (ir_isAbruptEndingRetry rq) (map ghlUserId targetSalesReps) of
                    Threw e \<Rightarrow>
                      slot_exception cfg env rq province targetSalesReps (Some []) signedUrl s
                  | Returned allSlots \<Rightarrow>
                      (case slots_text (ie_clock env) allSlots of
                         Threw e \<Rightarrow>
                           slot_exception cfg env rq province targetSalesReps allSlots signedUrl s
                       | Returned formattedSlotsString \<Rightarrow>
                           critical_check cfg env rq province targetSalesReps allSlots
                             formattedSlotsString signedUrl s))))"

definition example_intake_request :: intake_request where
  "example_intake_request =
    \<lparr> ir_phone = ''+390612345678'', ir_contact_id = ''C1'', ir_first_name = ''Ada'',
      ir_full_name = ''Ada Rossi'', ir_email = [], ir_Service = ''Infissi'',
      ir_full_address = ''Via Roma 1, 00100 Roma (RM)'', ir_isAbruptEndingRetry = False,
      ir_pastCallSummary = [], ir_originalConversationId = [] \<rparr>"

definition example_intake_env :: "slot list option outcome \<Rightarrow> intake_env" where
  "example_intake_env fetched =
    \<lparr> ie_now = 1742130000000, ie_getSignedUrl = Returned ''wss://signed'',
      ie_getValidGoHighlevelToken = Returned (Some ''token''), ie_CALENDAR_ID = ''cal1'',
      ie_zipCodeMapping = Map.empty, ie_gemini = no_gemini,
      ie_sales_reps =
        [\<lparr> ghlUserId = ''U1'', rep_name = ''Rep Uno'', rep_services = [''Infissi''],
            rep_provinces = [''RM''], rep_active = True \<rparr>],
      ie_fetchGHLCalendarSlots = (\<lambda>a b u. fetched),
      ie_fetchGHLCalendarSlotsForUsers = (\<lambda>a b us. fetched),
      ie_clock = example_clock \<rparr>"

section \<open>Recovering the rep from the agent's pick (outgoing-call.js, book\_appointment)\<close>

definition is_alnum :: "char \<Rightarrow> bool" where
  "is_alnum c = (is_AZ c \<or> is_az c \<or> is_digit c)"

text \<open>
  \<^verbatim>\<open>/^(.+?)(\([A-C]\))$/\<close>: the text ends with a letter A to C in brackets, after a
  non-empty part free of line terminators; the part and the letter are returned.
\<close>

definition abbreviatedMatch :: "string \<Rightarrow> (string \<times> char) option" where
  "abbreviatedMatch a =
    (case rev a of
       cl # x # op # p \<Rightarrow>
         (if cl = CHR '')'' \<and> op = CHR ''('' \<and> x \<in> set ''ABC'' \<and> p \<noteq> []
             \<and> \<not> list_ex is_line_terminator p
          then Some (rev p, x) else None)
     | _ \<Rightarrow> None)"

text \<open>
  \<^verbatim>\<open>new RegExp(`${abbreviation} = ([a-zA-Z0-9]+)`)\<close>: the leftmost place where the
  letter, \<open> = \<close> and at least one letter or digit stand; the run of letters and digits is
  returned.
\<close>

fun legendMatch :: "char \<Rightarrow> string \<Rightarrow> string option" where
  "legendMatch x [] = None"
| "legendMatch x (c # cs) =
     (if startsWith (c # cs) [x, CHR '' '', CHR ''='', CHR '' ''] \<and>
         takeWhile is_alnum (drop 4 (c # cs)) \<noteq> []
      then Some (takeWhile is_alnum (drop 4 (c # cs)))
      else legendMatch x cs)"

text \<open>\<^verbatim>\<open>/Sales Rep: ([a-zA-Z0-9]+)$/\<close>: the text ends with the trailer and a rep id.\<close>

fun singleRepMatch :: "string \<Rightarrow> string option" where
  "singleRepMatch [] = None"
| "singleRepMatch (c # cs) =
     (if startsWith (c # cs) ''Sales Rep: '' \<and> drop 11 (c # cs) \<noteq> [] \<and>
         list_all is_alnum (drop 11 (c # cs))
      then Some (drop 11 (c # cs))
      else singleRepMatch cs)"

text \<open>\<^verbatim>\<open>cleanAppointmentDate.replace(/^\d{2}-\d{2}-\d{4} /, '')\<close>.\<close>

definition date_shape :: "string \<Rightarrow> bool" where
  "date_shape d =
    (case d of
       [d1, d2, h1, m1, m2, h2, y1, y2, y3, y4] \<Rightarrow>
         is_digit d1 \<and> is_digit d2 \<and> h1 = CHR ''-'' \<and> is_digit m1 \<and> is_digit m2 \<and>
         h2 = CHR ''-'' \<and> is_digit y1 \<and> is_digit y2 \<and> is_digit y3 \<and> is_digit y4
     | _ \<Rightarrow> False)"

definition timeOnly :: "string \<Rightarrow> string" where
  "timeOnly a =
    (if date_shape (take 10 a) \<and> startsWith (drop 10 a) '' '' then drop 11 a else a)"

text \<open>
  The rep-section pattern, built by \<^verbatim>\<open>new RegExp\<close> from a template in which
  \<^verbatim>\<open>\\n\<close> is the line feed and \<^verbatim>\<open>[^\\\\n]\<close> is any character but a backslash and
  the letter \<open>n\<close>: a line feed, a rep id (letters and digits) and a colon, white space
  holding a line feed, a line that opens with three letters, a blank, a date, a colon and a
  blank, and on it, before any backslash or \<open>n\<close>, the chosen time.
\<close>

fun time_on_line :: "string \<Rightarrow> string \<Rightarrow> bool" where
  "time_on_line time [] = (time = [])"
| "time_on_line time (c # cs) =
     (startsWith (c # cs) time \<or> (c \<noteq> CHR 0x5C \<and> c \<noteq> CHR ''n'' \<and> time_on_line time cs))"

definition date_line :: "string \<Rightarrow> string \<Rightarrow> bool" where
  "date_line time r =
    (list_all (\<lambda>c. is_AZ c \<or> is_az c) (take 3 r) \<and> length (take 3 r) = 3 \<and>
     startsWith (drop 3 r) '' '' \<and> date_shape (take 10 (drop 4 r)) \<and>
     startsWith (drop 14 r) '': '' \<and> time_on_line time (drop 16 r))"

definition rep_section_at :: "string \<Rightarrow> string \<Rightarrow> string option" where
  "rep_section_at time s =
    (case s of
       [] \<Rightarrow> None
     | nl # rest \<Rightarrow>
         let cap = takeWhile is_alnum rest; r1 = dropWhile is_alnum rest in
         if nl = CHR 0x0A \<and> cap \<noteq> [] \<and> startsWith r1 '':'' \<and>
            CHR 0x0A \<in> set (takeWhile is_space (drop 1 r1)) \<and>
            date_line time (dropWhile is_space (drop 1 r1))
         then Some cap else None)"

fun repSectionMatch :: "string \<Rightarrow> string \<Rightarrow> string option" where
  "repSectionMatch time [] = None"
| "repSectionMatch time (c # cs) =
     (case rep_section_at time (c # cs) of
        Some cap \<Rightarrow> Some cap
      | None \<Rightarrow> repSectionMatch time cs)"

text \<open>
  The rep id that \<^verbatim>\<open>book_appointment\<close> sends along: from the legend when the chosen
  time carries a letter; otherwise from the trailer, overridden by the rep section when
  that pattern matches. \<open>slotsText\<close> is \<^verbatim>\<open>callData.availableSlots\<close>.
\<close>

definition book_appointment_userId :: "string \<Rightarrow> string \<Rightarrow> string option" where
  "book_appointment_userId slotsText appointmentDate =
    (if appointmentDate = [] then None
     else
       let am = abbreviatedMatch appointmentDate;
           cleanAppointmentDate = (case am of Some (p, x) \<Rightarrow> p | None \<Rightarrow> appointmentDate);
           userId = (case am of
                       Some (p, x) \<Rightarrow> (if slotsText \<noteq> [] then legendMatch x slotsText else None)
                     | None \<Rightarrow> None)
       in case userId of
            Some u \<Rightarrow> Some u
          | None \<Rightarrow>
              if slotsText \<noteq> [] then
                (case repSectionMatch (timeOnly cleanAppointmentDate) slotsText of
                   Some u \<Rightarrow> Some u
                 | None \<Rightarrow> singleRepMatch slotsText)
              else None)"

text \<open>
  What the agent reads for a slot and sends back: the date, a blank, and the time as it is
  displayed, with its letter in the abbreviated format.
\<close>

definition displayed_time :: "rome_clock \<Rightarrow> slot list \<Rightarrow> slot \<Rightarrow> string" where
  "displayed_time rc allSlots s =
    (case uniqueUserIds allSlots of
       [singleUserId] \<Rightarrow> loc_time rc (sl_datetime s)
     | us \<Rightarrow> if length us \<le> 3
             then time_with_code (zip us codes) (timeWithUser rc s)
             else loc_time rc (sl_datetime s))"

definition pick :: "rome_clock \<Rightarrow> slot list \<Rightarrow> slot \<Rightarrow> string" where
  "pick rc allSlots s = loc_datePart rc (sl_datetime s) @ '' '' @ displayed_time rc allSlots s"

text \<open>The shapes of the renderings: \<open>HH:MM\<close>, three letters, \<open>DD-MM-YYYY\<close>.\<close>

definition time_shape :: "string \<Rightarrow> bool" where
  "time_shape t =
    (case t of
       [h1, h2, c, m1, m2] \<Rightarrow> is_digit h1 \<and> is_digit h2 \<and> c = CHR '':'' \<and> is_digit m1 \<and> is_digit m2
     | _ \<Rightarrow> False)"

definition weekday_shape :: "string \<Rightarrow> bool" where
  "weekday_shape w = (length w = 3 \<and> list_all (\<lambda>c. is_AZ c \<or> is_az c) w)"

definition clock_shape :: "rome_clock \<Rightarrow> int \<Rightarrow> bool" where
  "clock_shape rc t =
    (time_shape (loc_time rc t) \<and> weekday_shape (loc_weekday rc t) \<and> date_shape (loc_datePart rc t))"



text \<open>The rep ids the parser can read back: letters and digits only.\<close>

definition id_shape :: "slot \<Rightarrow> bool" where
  "id_shape s = (case sl_userId s of None \<Rightarrow> True | Some u \<Rightarrow> list_all is_alnum u)"

text \<open>The characters of a display, the equals sign of the legend apart.\<close>

definition display_char :: "char \<Rightarrow> bool" where
  "display_char c = (is_alnum c \<or> c \<in> set '' :,-()|'' \<or> c = CHR 0x5C)"

text \<open>
  Two example calendars on 2025-03-17: reps \<open>U1\<close> and \<open>U2\<close> at 09:00 and 10:00; and
  reps \<open>ab-cd\<close> and \<open>ab\<close> at the same times.
\<close>

definition example_two_reps :: "slot list" where
  "example_two_reps = [example_slot 1742198400000 ''U1'', example_slot 1742202000000 ''U2'']"

definition example_hyphen_reps :: "slot list" where
  "example_hyphen_reps = [example_slot 1742198400000 ''ab-cd'', example_slot 1742202000000 ''ab'']"

section \<open>setCallData replaces the whole row\<close>

lemma map_of_collect_fields:
  "map_of (collect_fields cols d) c =
     (if c \<in> set cols \<and> c \<noteq> ''callSid'' then d c else None)"
  by (induction cols) (auto split: option.splits)

lemma setCallData_row:
  assumes "callSid \<noteq> []"
  shows "setCallData callSid (Some d) db callSid =
     Some (\<lambda>c. if c = ''callSid'' then TextV callSid
                else if c \<in> set columns then (case d c of Some v \<Rightarrow> v | None \<Rightarrow> column_default c)
                else column_default c)"
  using assms
  by (auto simp: setCallData_def insert_or_replace_def new_row_def map_of_collect_fields
           split: option.splits intro!: ext)

text \<open>
  C10. After \<open>setCallData\<close> on a sid that already has a row, the row of that sid is
  rebuilt from the supplied object alone: it does not depend on the row that was there,
  every column other than the key that the object does not supply holds its schema default
  (NULL, or 0 for \<open>retry_count\<close> and \<open>retry_scheduled\<close>), in particular
  \<open>answeredBy\<close>, \<open>conversationId\<close>, \<open>streamSid\<close> and the \<open>retry_scheduled\<close> latch, and
  a whitelisted column that the object supplies holds the supplied value.
\<close>

theorem setCallData_replaces_row:
  assumes "callSid \<noteq> []" and "db callSid = Some old"
  shows "\<exists>r. setCallData callSid (Some d) db callSid = Some r
     \<and> setCallData callSid (Some d) Map.empty callSid = Some r
     \<and> r ''callSid'' = TextV callSid
     \<and> (\<forall>c. c \<noteq> ''callSid'' \<and> d c = None \<longrightarrow> r c = column_default c)
     \<and> (\<forall>c v. c \<in> set columns \<and> c \<noteq> ''callSid'' \<and> d c = Some v \<longrightarrow> r c = v)
     \<and> (d ''answeredBy'' = None \<longrightarrow> r ''answeredBy'' = Null)
     \<and> (d ''conversationId'' = None \<longrightarrow> r ''conversationId'' = Null)
     \<and> r ''streamSid'' = Null
     \<and> r ''retry_scheduled'' = IntV 0"
proof -
  define r where "r = (\<lambda>c. if c = ''callSid'' then TextV callSid
                else if c \<in> set columns then (case d c of Some v \<Rightarrow> v | None \<Rightarrow> column_default c)
                else column_default c)"
  have 1: "setCallData callSid (Some d) db callSid = Some r"
    unfolding r_def by (rule setCallData_row [OF assms(1)])
  have 2: "setCallData callSid (Some d) Map.empty callSid = Some r"
    unfolding r_def by (rule setCallData_row [OF assms(1)])
  have 3: "r ''callSid'' = TextV callSid" by (simp add: r_def)
  have 4: "\<forall>c. c \<noteq> ''callSid'' \<and> d c = None \<longrightarrow> r c = column_default c"
    by (simp add: r_def)
  have 5: "\<forall>c v. c \<in> set columns \<and> c \<noteq> ''callSid'' \<and> d c = Some v \<longrightarrow> r c = v"
    by (simp add: r_def)
  have 6: "d ''answeredBy'' = None \<longrightarrow> r ''answeredBy'' = Null"
    by (simp add: r_def column_default_def calls_schema_def)
  have 7: "d ''conversationId'' = None \<longrightarrow> r ''conversationId'' = Null"
    by (simp add: r_def column_default_def calls_schema_def)
  have 8: "r ''streamSid'' = Null"
    by (simp add: r_def column_default_def calls_schema_def columns_def)
  have 9: "r ''retry_scheduled'' = IntV 0"
    by (simp add: r_def column_default_def calls_schema_def columns_def)
  show ?thesis
    apply (rule exI [of _ r])
    apply (intro conjI)
    apply (rule 1, rule 2, rule 3, rule 4, rule 5, rule 6, rule 7, rule 8, rule 9)
    done
qed

theorem setCallData_replaces_row_witness:
  "\<exists>r. setCallData ''CA1''
          (Some [''to'' \<mapsto> TextV ''+39061234'', ''retry_count'' \<mapsto> IntV 1])
          [''CA1'' \<mapsto> (\<lambda>c. if c = ''retry_scheduled'' then IntV 1
                             else if c = ''answeredBy'' then TextV ''human'' else Null)]
          ''CA1'' = Some r
     \<and> r ''to'' = TextV ''+39061234'' \<and> r ''retry_count'' = IntV 1
     \<and> r ''answeredBy'' = Null \<and> r ''conversationId'' = Null \<and> r ''streamSid'' = Null
     \<and> r ''retry_scheduled'' = IntV 0"
proof -
  define d :: jsobj where "d = [''to'' \<mapsto> TextV ''+39061234'', ''retry_count'' \<mapsto> IntV 1]"
  define old :: row where "old = (\<lambda>c. if c = ''retry_scheduled'' then IntV 1
                   else if c = ''answeredBy'' then TextV ''human'' else Null)"
  define db :: calls_table where "db = [''CA1'' \<mapsto> old]"
  have a: "''CA1'' \<noteq> []" by simp
  have b: "db ''CA1'' = Some old" by (simp add: db_def)
  obtain r where r: "setCallData ''CA1'' (Some d) db ''CA1'' = Some r"
    and sup: "\<forall>c v. c \<in> set columns \<and> c \<noteq> ''callSid'' \<and> d c = Some v \<longrightarrow> r c = v"
    and ab: "d ''answeredBy'' = None \<longrightarrow> r ''answeredBy'' = Null"
    and cv: "d ''conversationId'' = None \<longrightarrow> r ''conversationId'' = Null"
    and ss: "r ''streamSid'' = Null" and rs: "r ''retry_scheduled'' = IntV 0"
    using setCallData_replaces_row [where callSid = "''CA1''" and db = db and old = old and d = d, OF a b]
    by (elim exE conjE)
  have t: "r ''to'' = TextV ''+39061234''"
    using sup [rule_format, of "''to''" "TextV ''+39061234''"] by (simp add: columns_def d_def)
  have c: "r ''retry_count'' = IntV 1"
    using sup [rule_format, of "''retry_count''" "IntV 1"] by (simp add: columns_def d_def)
  have ab': "r ''answeredBy'' = Null" using ab by (simp add: d_def)
  have cv': "r ''conversationId'' = Null" using cv by (simp add: d_def)
  show ?thesis
    apply (rule exI [of _ r])
    using r t c ab' cv' ss rs by (simp add: d_def db_def old_def)
qed

section \<open>The retry scheduler and the status callback\<close>



text \<open>A host whose offset from UTC never changes has a steady clock, at every hour.\<close>

lemma constant_offset_steady:
  assumes "\<forall>t isUTC. LocalTZA cfg t isUTC = off"
  shows "steady_clock cfg h now"
  using assms
  by (simp add: steady_clock_def Let_def next_time_def setHours_def addDays_def LocalTime_def
        UTC_def day_ms_def)

lemma scheduleRetry_calls: "calls (fst (scheduleRetry cfg now c opts s)) = calls s"
  by (simp add: scheduleRetry_def split: option.splits)

lemma scheduleRetry_queue_cases:
  "call_queue (fst (scheduleRetry cfg now c opts s)) = call_queue s \<or>
   (\<exists>r t. toNumber (c ''retry_count'') = Some r \<and> r \<le> 8 \<and>
      firstAttemptTimestamp (c ''first_attempt_timestamp'') now = Some t \<and>
      call_queue (fst (scheduleRetry cfg now c opts s)) =
        call_queue s @ [retry_row cfg now c opts (r + 1) t (next_queue_id s)])"
  by (simp add: scheduleRetry_def MAX_TOTAL_ATTEMPTS_def split: option.splits)

lemma scheduleRetry_inserted:
  assumes "call_queue (fst (scheduleRetry cfg now c opts s)) = call_queue s @ [q]"
  shows "\<exists>r. toNumber (c ''retry_count'') = Some r \<and> r \<le> 8 \<and> q_retry_stage q = r + 1"
  using assms scheduleRetry_queue_cases [of cfg now c opts s]
  by (auto simp: retry_row_def)

lemma scheduleRetry_exhausted:
  assumes "toNumber (c ''retry_count'') = Some r" and "9 \<le> r"
  shows "call_queue (fst (scheduleRetry cfg now c opts s)) = call_queue s"
  using assms by (simp add: scheduleRetry_def MAX_TOTAL_ATTEMPTS_def)

lemma process_job_row:
  assumes "job_token env = Returned (Some tok)" and "tok \<noteq> []"
    and "job_create env = Returned sid" and "sid \<noteq> []"
    and "calls (fst (process_job env q s)) sid = Some c'"
  shows "c' ''retry_count'' = IntV (q_retry_stage q)"
proof -
  have "calls (fst (process_job env q s)) =
        setCallData sid (Some (job_call_data q (job_now env))) (calls s)"
    using assms(1-3) by (simp add: process_job_def Let_def)
  then have "Some c' = setCallData sid (Some (job_call_data q (job_now env))) (calls s) sid"
    using assms(5) by simp
  then show ?thesis
    using setCallData_row [OF assms(4), of "job_call_data q (job_now env)" "calls s"]
    by (simp add: job_call_data_def columns_def)
qed

lemma retry_chain_counts:
  assumes "retry_chain cfg cs" and "toNumber (last cs ''retry_count'') = Some r0"
  shows "\<forall>i<length cs. toNumber ((rev cs ! i) ''retry_count'') = Some (r0 + int i)
          \<and> (0 < i \<longrightarrow> r0 + int i \<le> 9)"
  using assms
proof (induction rule: retry_chain.induct)
  case (first_attempt c)
  then show ?case by simp
next
  case (next_attempt c cs now opts s q env tok sid s' c')
  have l: "toNumber (last (c # cs) ''retry_count'') = Some r0"
    using next_attempt.prems by simp
  note IH = next_attempt.IH [OF l]
  have c: "toNumber (c ''retry_count'') = Some (r0 + int (length cs))"
    using IH [rule_format, of "length cs"] by (simp add: nth_append)
  obtain r where r: "toNumber (c ''retry_count'') = Some r" "r \<le> 8" "q_retry_stage q = r + 1"
    using scheduleRetry_inserted [OF next_attempt.hyps(2)] by blast
  have c': "c' ''retry_count'' = IntV (q_retry_stage q)"
    by (rule process_job_row [OF next_attempt.hyps(3-7)])
  have new: "toNumber (c' ''retry_count'') = Some (r0 + int (length (c # cs)))"
    using c r c' by simp
  have bound: "r0 + int (length (c # cs)) \<le> 9" using c r by simp
  show ?case
  proof (intro allI impI)
    fix i assume i: "i < length (c' # c # cs)"
    show "toNumber ((rev (c' # c # cs) ! i) ''retry_count'') = Some (r0 + int i)
          \<and> (0 < i \<longrightarrow> r0 + int i \<le> 9)"
    proof (cases "i < length (c # cs)")
      case True
      then have "rev (c' # c # cs) ! i = rev (c # cs) ! i" by (simp add: nth_append)
      then show ?thesis using IH [rule_format, OF True] by simp
    next
      case False
      then have e: "i = length (c # cs)" using i by simp
      then have "rev (c' # c # cs) ! i = c'" by (simp add: nth_append)
      then show ?thesis using new bound e by simp
    qed
  qed
qed

lemma updateCallData_latch:
  assumes "getCallData sid db = Some call"
  shows "\<exists>c. getCallData sid (updateCallData sid [(''retry_scheduled'', IntV 1)] db) = Some c
           \<and> truthy (c ''retry_scheduled'')"
  using assms by (auto simp: getCallData_def updateCallData_def update_row_def split: if_splits)

lemma scheduleRetry_latched: "latched sid (fst (scheduleRetry cfg now c opts s)) = latched sid s"
  by (simp add: latched_def scheduleRetry_calls)

lemma scheduleRetry_grow:
  "\<exists>rows. call_queue (fst (scheduleRetry cfg now c opts s)) = call_queue s @ rows \<and> length rows \<le> 1"
  using scheduleRetry_queue_cases [of cfg now c opts s] by auto

lemma call_status_latched_noop:
  assumes "latched sid s"
  shows "call_status cfg sid ev s = (''OK. Retry already handled.'', s, [])"
  using assms by (simp add: call_status_def call_status_resume_def latched_def split: option.splits)

lemma call_status_step:
  "\<exists>rows. call_queue (fst (snd (call_status cfg sid ev s))) = call_queue s @ rows
      \<and> length rows \<le> 1
      \<and> (rows \<noteq> [] \<longrightarrow> latched sid (fst (snd (call_status cfg sid ev s))))"
proof (cases "getCallData sid (calls s)")
  case None
  then show ?thesis by (simp add: call_status_def call_status_resume_def)
next
  case (Some call)
  show ?thesis
  proof (cases "truthy (call ''retry_scheduled'')")
    case True
    then show ?thesis using Some by (simp add: call_status_def call_status_resume_def)
  next
    case False
    define newAnswered where "newAnswered =
      (case AnsweredBy ev of Some a \<Rightarrow> a \<noteq> [] \<and> TextV a \<noteq> call ''answeredBy'' | None \<Rightarrow> False)"
    define s1 where "s1 = (if newAnswered
                     then s\<lparr> calls := updateCallData sid
                               [(''answeredBy'', TextV (the (AnsweredBy ev)))] (calls s) \<rparr>
                     else s)"
    define call1 where "call1 = (if newAnswered
                        then update_row call [(''answeredBy'', TextV (the (AnsweredBy ev)))]
                        else call)"
    define s2 where "s2 = s1\<lparr> calls := updateCallData sid [(''retry_scheduled'', IntV 1)] (calls s1) \<rparr>"
    have q1: "call_queue s1 = call_queue s" by (simp add: s1_def)
    have q2: "call_queue s2 = call_queue s" by (simp add: s2_def q1)
    have g1: "\<exists>c. getCallData sid (calls s1) = Some c"
      using Some by (auto simp: s1_def getCallData_def updateCallData_def split: if_splits)
    then obtain c1 where c1: "getCallData sid (calls s1) = Some c1" by blast
    have l2: "latched sid s2"
      using updateCallData_latch [OF c1] by (auto simp: latched_def s2_def)
    define P where "P = (\<lambda>s'. \<exists>rows. call_queue s' = call_queue s @ rows \<and> length rows \<le> 1
        \<and> (rows \<noteq> [] \<longrightarrow> latched sid s'))"
    have sched: "\<And>opts. P (fst (scheduleRetry cfg (ev_now ev) call1 opts s2))"
      using scheduleRetry_grow [of cfg "ev_now ev" call1 _ s2] l2
      by (simp add: P_def q2 scheduleRetry_latched)
    have P1: "P s1" by (simp add: P_def q1)
    have "P (fst (snd (call_status cfg sid ev s)))"
      using Some False sched P1
      unfolding call_status_def call_status_resume_def
      by (simp add: Let_def newAnswered_def [symmetric] s1_def [symmetric] call1_def [symmetric]
            s2_def [symmetric] split_beta)
    then show ?thesis by (simp add: P_def)
  qed
qed

lemma handled_in_turn_Nil: "handled_in_turn cfg sid [] s = s"
  by (simp add: handled_in_turn_def in_turn_def)

lemma handled_in_turn_Cons:
  "handled_in_turn cfg sid (ev # evs) s =
     handled_in_turn cfg sid evs (fst (snd (call_status cfg sid ev s)))"
  by (simp add: handled_in_turn_def in_turn_def call_status_def)

lemma handled_in_turn_latched:
  "latched sid s \<Longrightarrow> handled_in_turn cfg sid evs s = s"
  by (induction evs) (simp_all add: handled_in_turn_Nil handled_in_turn_Cons call_status_latched_noop)

lemma handled_in_turn_grow:
  "\<exists>rows. call_queue (handled_in_turn cfg sid evs s) = call_queue s @ rows
      \<and> length rows \<le> 1
      \<and> (rows \<noteq> [] \<longrightarrow> latched sid (handled_in_turn cfg sid evs s))"
proof (induction evs arbitrary: s)
  case Nil
  then show ?case by (simp add: handled_in_turn_Nil)
next
  case (Cons ev evs)
  define s1 where "s1 = fst (snd (call_status cfg sid ev s))"
  obtain rows1 where r1: "call_queue s1 = call_queue s @ rows1" "length rows1 \<le> 1"
      "rows1 \<noteq> [] \<longrightarrow> latched sid s1"
    using call_status_step [of cfg sid ev s] unfolding s1_def by blast
  have step: "handled_in_turn cfg sid (ev # evs) s = handled_in_turn cfg sid evs s1"
    by (simp add: handled_in_turn_Cons s1_def)
  show ?case
  proof (cases "rows1 = []")
    case True
    obtain rows where "call_queue (handled_in_turn cfg sid evs s1) = call_queue s1 @ rows"
      "length rows \<le> 1" "rows \<noteq> [] \<longrightarrow> latched sid (handled_in_turn cfg sid evs s1)"
      using Cons.IH [of s1] by blast
    then show ?thesis using r1 True by (simp add: step)
  next
    case False
    then have "latched sid s1" using r1 by simp
    then have "handled_in_turn cfg sid evs s1 = s1" by (rule handled_in_turn_latched)
    then show ?thesis using r1 False \<open>latched sid s1\<close> by (simp add: step)
  qed
qed

text \<open>
  Callbacks handled in turn add at most one row; once a row has been added the latch of the
  sid is set, and a callback that finds the latch set answers at once and changes nothing.
\<close>

lemma handled_in_turn_one_retry:
  "(\<exists>rows. call_queue (handled_in_turn cfg CallSid evs s) = call_queue s @ rows
      \<and> length rows \<le> 1
      \<and> (rows \<noteq> [] \<longrightarrow> latched CallSid (handled_in_turn cfg CallSid evs s)))
   \<and> (latched CallSid s \<longrightarrow>
        call_status cfg CallSid ev s = (''OK. Retry already handled.'', s, [])
        \<and> handled_in_turn cfg CallSid evs s = s)"
  using handled_in_turn_grow [of cfg CallSid evs s] call_status_latched_noop [of CallSid s cfg ev]
    handled_in_turn_latched [of CallSid s cfg evs]
  by simp


lemma scheduleRetry_row:
  assumes "c ''retry_count'' = IntV r" and "r \<le> 8"
    and "\<not> (c ''province'' = TextV ''unknown'' \<and> 2 \<le> r)"
    and "c ''contactId'' \<noteq> Null" and "c ''to'' \<noteq> Null"
    and "c ''first_attempt_timestamp'' = TimeV t0"
    and "reason opts = ''machine_detected'' \<or> reason opts = ''retryable_failure''"
  shows "scheduleRetry cfg now c opts s =
     (s\<lparr> call_queue := call_queue s @ [retry_row cfg now c opts (r + 1) t0 (next_queue_id s)],
          next_queue_id := Suc (next_queue_id s) \<rparr>, [])"
  using assms by (auto simp: scheduleRetry_def isPermanentIssue_def MAX_TOTAL_ATTEMPTS_def)




lemma ex_cols:
  "example_call r prov latch slots ''retry_scheduled'' = IntV latch"
  "example_call r prov latch slots ''retry_count'' = IntV r"
  "example_call r prov latch slots ''province'' = TextV prov"
  "example_call r prov latch slots ''contactId'' = TextV ''C1''"
  "example_call r prov latch slots ''to'' = TextV ''+390612345678''"
  "example_call r prov latch slots ''first_attempt_timestamp'' = TimeV 1736900000000"
  "example_call r prov latch slots ''answeredBy'' = Null"
  "example_call r prov latch slots ''availableSlots'' = slots"
  "example_call r prov latch slots ''service'' = TextV ''Infissi''"
  "example_call r prov latch slots ''signedUrl'' = TextV ''wss://signed''"
  by (simp_all add: example_call_def new_row_def column_default_def calls_schema_def)




lemmas ex_defs = call_status_def call_status_resume_def getCallData_def example_state_def
  example_call_def new_row_def
  column_default_def calls_schema_def no_answer_def isMachineDetected_def isRetryableFailure_def
  terminal_statuses_def updateCallData_def update_row_def scheduleRetry_def isPermanentIssue_def
  MAX_TOTAL_ATTEMPTS_def retry_row_def scheduled_at_base_def scheduleConfig_def RETRY_SCHEDULE_def
  next_time_def setHours_def addDays_def LocalTime_def UTC_def day_ms_def example_cfg_def
  rome_cfg_def rome_LocalTZA_def Let_def


text \<open>
  C2 at a failing input. The \<open>no-answer\<close> callback of a call is delivered twice, 50 ms
  apart, and the second handler has read the row before the first has written the latch.
  Both find the latch unset, both write it, and both call the scheduler: two rows of stage
  1 are queued for the one sid. Handled in turn, the same two callbacks queue one row.
\<close>

theorem overlapping_callbacks_two_retries:
  "map q_retry_stage (call_queue (fst (run_handlers example_cfg ''CA1''
       [Arrive (no_answer 1736942400000), Arrive (no_answer 1736942400050), Resume 0, Resume 0]
       (example_state (example_call 0 ''RM'' 0 (TextV ''Lun 20-01-2025: 09:00'')), [])))) = [1, 1]
   \<and> map q_retry_stage (call_queue (fst (run_handlers example_cfg ''CA1''
       [Arrive (no_answer 1736942400000), Resume 0, Arrive (no_answer 1736942400050), Resume 0]
       (example_state (example_call 0 ''RM'' 0 (TextV ''Lun 20-01-2025: 09:00'')), [])))) = [1]"
  by (simp add: ex_defs)

text \<open>
  C3. Along a retry chain that starts at \<open>retry_count = r0\<close>, the \<open>i\<close>-th attempt has
  \<open>retry_count = r0 + i\<close>, every attempt after the first has \<open>retry_count \<le> 9\<close> (all of
  them when the chain starts at most at 9); and the scheduler, run for a call whose
  \<open>retry_count\<close> is 9 or more, leaves \<open>call_queue\<close> as it is.
\<close>

theorem retry_count_bounded:
  "(retry_chain cfg cs \<and> toNumber (last cs ''retry_count'') = Some r0 \<longrightarrow>
      (\<forall>i<length cs. toNumber ((rev cs ! i) ''retry_count'') = Some (r0 + int i)
          \<and> (0 < i \<or> r0 \<le> 9 \<longrightarrow> r0 + int i \<le> 9)))
   \<and> (toNumber (c ''retry_count'') = Some r \<and> 9 \<le> r \<longrightarrow>
        call_queue (fst (scheduleRetry cfg now c opts s)) = call_queue s)"
proof (intro conjI impI)
  assume a: "retry_chain cfg cs \<and> toNumber (last cs ''retry_count'') = Some r0"
  then have ch: "retry_chain cfg cs" and l: "toNumber (last cs ''retry_count'') = Some r0"
    by simp_all
  note cnt = retry_chain_counts [OF ch l]
  show "\<forall>i<length cs. toNumber ((rev cs ! i) ''retry_count'') = Some (r0 + int i)
          \<and> (0 < i \<or> r0 \<le> 9 \<longrightarrow> r0 + int i \<le> 9)"
  proof (intro allI impI)
    fix i assume i: "i < length cs"
    from cnt i have 1: "toNumber ((rev cs ! i) ''retry_count'') = Some (r0 + int i)"
      and 2: "0 < i \<longrightarrow> r0 + int i \<le> 9" by simp_all
    show "toNumber ((rev cs ! i) ''retry_count'') = Some (r0 + int i)
          \<and> (0 < i \<or> r0 \<le> 9 \<longrightarrow> r0 + int i \<le> 9)"
      using 1 2 by (cases "i = 0") auto
  qed
next
  assume "toNumber (c ''retry_count'') = Some r \<and> 9 \<le> r"
  then show "call_queue (fst (scheduleRetry cfg now c opts s)) = call_queue s"
    using scheduleRetry_exhausted by blast
qed

theorem retry_count_bounded_witness:
  "\<exists>c'. retry_chain example_cfg [c', example_call 0 ''RM'' 0 Null]
      \<and> toNumber (c' ''retry_count'') = Some 1
      \<and> call_queue (fst (scheduleRetry example_cfg 1736942400000 (example_call 9 ''RM'' 0 Null)
            \<lparr> reason = ''retryable_failure'', forceImmediate = False \<rparr>
            (example_state (example_call 9 ''RM'' 0 Null)))) = []"
proof -
  let ?c = "example_call 0 ''RM'' 0 Null"
  let ?opts = "\<lparr> reason = ''retryable_failure'', forceImmediate = False \<rparr>"
  let ?s = "example_state ?c"
  let ?q = "retry_row example_cfg 1736942400000 ?c ?opts (0 + 1) 1736900000000 (next_queue_id ?s)"
  let ?env = "\<lparr> job_token = Returned (Some ''tok''), job_create = Returned ''CA2'', job_now = 1736942410000 \<rparr>"
  have sch: "call_queue (fst (scheduleRetry example_cfg 1736942400000 ?c ?opts ?s)) = call_queue ?s @ [?q]"
    by (subst scheduleRetry_row [where r = 0 and ?t0.0 = 1736900000000]) (simp_all add: ex_cols)
  obtain c' where c': "calls (fst (process_job ?env ?q ?s)) ''CA2'' = Some c'"
    by (simp add: process_job_def Let_def setCallData_def insert_or_replace_def)
  have chain: "retry_chain example_cfg [c', ?c]"
    by (rule retry_chain.next_attempt [where tok = "''tok''" and sid = "''CA2''",
          OF retry_chain.first_attempt sch _ _ _ _ c']) simp_all
  have l: "toNumber (last [c', ?c] ''retry_count'') = Some 0" by (simp add: ex_cols)
  have nine: "toNumber (example_call 9 ''RM'' 0 Null ''retry_count'') = Some 9 \<and> (9::int) \<le> 9"
    by (simp add: ex_cols)
  from retry_count_bounded [where cfg = example_cfg and cs = "[c', ?c]" and ?r0.0 = 0
      and c = "example_call 9 ''RM'' 0 Null" and r = 9 and now = 1736942400000 and opts = ?opts
      and s = "example_state (example_call 9 ''RM'' 0 Null)"]
  have A: "\<forall>i<length [c', ?c]. toNumber ((rev [c', ?c] ! i) ''retry_count'') = Some (0 + int i)
          \<and> (0 < i \<or> (0::int) \<le> 9 \<longrightarrow> 0 + int i \<le> 9)"
    and B: "call_queue (fst (scheduleRetry example_cfg 1736942400000 (example_call 9 ''RM'' 0 Null) ?opts
            (example_state (example_call 9 ''RM'' 0 Null)))) =
         call_queue (example_state (example_call 9 ''RM'' 0 Null))"
    using chain l nine by blast+
  from A [rule_format, of 1] have "toNumber (c' ''retry_count'') = Some 1" by simp
  moreover from B have "call_queue (fst (scheduleRetry example_cfg 1736942400000 (example_call 9 ''RM'' 0 Null) ?opts
            (example_state (example_call 9 ''RM'' 0 Null)))) = []" by (simp add: example_state_def)
  ultimately show ?thesis using chain by blast
qed

section \<open>The outcome of a follow-up resubmission\<close>

text \<open>
  C9 (amended). The resubmission of a due follow-up ends in exactly one of three ways: on a
  2xx response the row is deleted and nothing is sent; on a response with status 400 whose
  body contains one of the four sentinel messages or \<open>service and location\<close> the row is
  deleted and the permanent-failure notification is sent; in every other case (another
  status, another body, or a \<^verbatim>\<open>fetch\<close> that throws) the table is left as it is.
\<close>

theorem resubmission_outcomes:
  "(response_ok st \<longrightarrow>
      resubmitted followUp (Response st body) fus = (deleteFollowUp (fu_follow_up_id followUp) fus, []))
   \<and> (st = 400 \<and> (\<exists>m \<in> set (''service and location'' # sentinel_messages). includes_str body m) \<longrightarrow>
      resubmitted followUp (Response st body) fus =
        (deleteFollowUp (fu_follow_up_id followUp) fus,
         [NonFatalNotification ''FollowUp Permanently Failed - Deleted'']))
   \<and> (\<not> response_ok st \<and>
       \<not> (st = 400 \<and> (\<exists>m \<in> set (''service and location'' # sentinel_messages). includes_str body m)) \<longrightarrow>
      fst (resubmitted followUp (Response st body) fus) = fus)
   \<and> fst (resubmitted followUp (FetchThrew e) fus) = fus
   \<and> (\<forall>f \<in> set (deleteFollowUp (fu_follow_up_id followUp) fus).
         fu_follow_up_id f \<noteq> fu_follow_up_id followUp)"
  by (auto simp: resubmitted_def isPermanentFailure_def sentinel_messages_def response_ok_def
        deleteFollowUp_def)

theorem resubmission_outcomes_witness:
  "resubmitted example_follow_up (Response 202 ''{\"success\":true}'') [example_follow_up] = ([], [])
   \<and> resubmitted example_follow_up
        (Response 400 ''{\"error\":\"Address is required to determine sales rep assignment\"}'')
        [example_follow_up] = ([], [NonFatalNotification ''FollowUp Permanently Failed - Deleted''])
   \<and> fst (resubmitted example_follow_up (Response 500 ''{\"success\":false}'') [example_follow_up])
       = [example_follow_up]"
proof -
  let ?b = "''{\"error\":\"Address is required to determine sales rep assignment\"}''"
  have i: "\<exists>m \<in> set (''service and location'' # sentinel_messages). includes_str ?b m"
    by (simp add: sentinel_messages_def)
  have d: "deleteFollowUp (fu_follow_up_id example_follow_up) [example_follow_up] = []"
    by (simp add: deleteFollowUp_def)
  have n: "\<not> response_ok 500 \<and>
       \<not> ((500::nat) = 400 \<and> (\<exists>m \<in> set (''service and location'' # sentinel_messages).
             includes_str ''{\"success\":false}'' m))"
    by (simp add: response_ok_def)
  have 1: "resubmitted example_follow_up (Response 202 ''{\"success\":true}'') [example_follow_up] = ([], [])"
    using resubmission_outcomes [of 202 example_follow_up "''{\"success\":true}''" "[example_follow_up]"]
    by (simp add: response_ok_def d)
  have 2: "resubmitted example_follow_up (Response 400 ?b) [example_follow_up] =
       ([], [NonFatalNotification ''FollowUp Permanently Failed - Deleted''])"
    using resubmission_outcomes [of 400 example_follow_up ?b "[example_follow_up]"] i
    by (simp add: d)
  have 3: "fst (resubmitted example_follow_up (Response 500 ''{\"success\":false}'') [example_follow_up])
       = [example_follow_up]"
    using resubmission_outcomes [of 500 example_follow_up "''{\"success\":false}''" "[example_follow_up]"] n
    by blast
  from 1 2 3 show ?thesis by simp
qed

text \<open>
  The claim as written fails twice: a 404 whose body holds a sentinel message is not a
  permanent failure (the row is kept), and a 400 whose body holds \<open>service and location\<close>
  and none of the four messages of the claim is one (the row is deleted).
\<close>

theorem resubmission_outcomes_counterexample:
  "fst (resubmitted example_follow_up (Response 404 ''{\"error\":\"Address is required\"}'')
         [example_follow_up]) = [example_follow_up]
   \<and> resubmitted example_follow_up (Response 400 ''{\"error\":\"bad service and location\"}'')
         [example_follow_up] = ([], [NonFatalNotification ''FollowUp Permanently Failed - Deleted''])
   \<and> \<not> (\<exists>m \<in> set sentinel_messages. includes_str ''{\"error\":\"bad service and location\"}'' m)"
  by (simp add: resubmitted_def isPermanentFailure_def response_ok_def deleteFollowUp_def
        sentinel_messages_def example_follow_up_def)

section \<open>What province extraction returns\<close>

lemma first_mapped_Some:
  "first_mapped m zs = Some p \<Longrightarrow> \<exists>z \<in> set zs. m z = Some p"
  by (induction zs) (auto split: option.splits if_splits)

lemma extractDirectProvinceCode_valid:
  "extractDirectProvinceCode address = Some code \<Longrightarrow> code \<in> set validProvinceCodes"
  unfolding extractDirectProvinceCode_def by (auto simp: find_Some_iff)

lemma extractProvinceViaGemini_valid:
  "extractProvinceViaGemini g address = Some code \<Longrightarrow> code \<in> set validProvinceCodes"
  unfolding extractProvinceViaGemini_def
  by (auto split: if_splits outcome.splits list.splits)

lemma zip_rows_values:
  "(\<forall>z p. m z = Some p \<longrightarrow> length p = 2) \<Longrightarrow> zip_rows rows m z = Some p \<Longrightarrow> length p = 2"
proof (induction rows arbitrary: m)
  case Nil
  then show ?case by simp
next
  case (Cons row rows)
  show ?case
  proof (cases row)
    case Nil
    then show ?thesis using Cons by simp
  next
    case r1: (Cons comune r')
    show ?thesis
    proof (cases r')
      case Nil
      then show ?thesis using Cons r1 by simp
    next
      case r2: (Cons cap r'')
      show ?thesis
      proof (cases r'')
        case Nil
        then show ?thesis using Cons r1 r2 by simp
      next
        case r3: (Cons provincia others)
        show ?thesis
        proof (cases "cap \<noteq> [] \<and> provincia \<noteq> [] \<and> length (trim cap) = 5 \<and> list_all is_digit (trim cap)
                 \<and> length (toUpperCase (trim provincia)) = 2")
          case True
          define m' where "m' = m(trim cap \<mapsto> toUpperCase (trim provincia))"
          have inv: "\<forall>z p. m' z = Some p \<longrightarrow> length p = 2"
            using Cons.prems(1) True by (auto simp: m'_def)
          have "zip_rows (row # rows) m = zip_rows rows m'"
            using True by (simp add: r1 r2 r3 Let_def m'_def)
          then have "zip_rows rows m' z = Some p" using Cons.prems(2) by simp
          then show ?thesis by (rule Cons.IH [OF inv])
        next
          case False
          have "zip_rows (row # rows) m = zip_rows rows m"
            using False by (auto simp add: r1 r2 r3 Let_def)
          then have "zip_rows rows m z = Some p" using Cons.prems(2) by simp
          then show ?thesis by (rule Cons.IH [OF Cons.prems(1)])
        qed
      qed
    qed
  qed
qed

lemma fetchZipCodeProvinceMapping_values:
  "fetchZipCodeProvinceMapping rows z = Some p \<Longrightarrow> length p = 2"
  unfolding fetchZipCodeProvinceMapping_def
  by (rule zip_rows_values [of Map.empty]) simp_all

text \<open>
  C8 (amended). Province extraction returns null, a member of the list of 110 codes (from
  the two-letter word of the address or from the language model), or the value the
  ZIP-to-province mapping holds for a five-digit word of the address; the mapping loaded
  from the sheet holds values of length two, which are not checked against the list. An
  address that matches one of the five placeholder patterns of the code gives null whatever
  the mapping and the language model hold, so no strategy decides it.
\<close>

theorem province_extraction_result:
  "(extractProvinceFromAddress zm g address = None
    \<or> (\<exists>code \<in> set validProvinceCodes. extractProvinceFromAddress zm g address = Some code)
    \<or> (\<exists>zip \<in> set (five_digit_words False address).
          extractProvinceFromAddress zm g address = zm zip))
   \<and> (\<forall>z p. fetchZipCodeProvinceMapping rows z = Some p \<longrightarrow> length p = 2)
   \<and> (list_ex (\<lambda>pattern. pattern address) placeholderPatterns \<longrightarrow>
        extractProvinceFromAddress zm g address = None)
   \<and> length validProvinceCodes = 110 \<and> distinct validProvinceCodes"
proof (intro conjI)
  show "extractProvinceFromAddress zm g address = None
    \<or> (\<exists>code \<in> set validProvinceCodes. extractProvinceFromAddress zm g address = Some code)
    \<or> (\<exists>zip \<in> set (five_digit_words False address).
          extractProvinceFromAddress zm g address = zm zip)"
  proof (cases "extractProvinceFromAddress zm g address")
    case None
    then show ?thesis by simp
  next
    case (Some p)
    then consider (direct) "extractDirectProvinceCode address = Some p"
      | (zip) "extractProvinceFromZipCode zm address = Some p"
      | (gem) "extractProvinceViaGemini g address = Some p"
      unfolding extractProvinceFromAddress_def by (auto split: if_splits option.splits)
    then show ?thesis
    proof cases
      case direct
      then show ?thesis using Some extractDirectProvinceCode_valid by auto
    next
      case zip
      then obtain z where z: "z \<in> set (five_digit_words False address)" "zm z = Some p"
        unfolding extractProvinceFromZipCode_def using first_mapped_Some by blast
      have "\<exists>zip \<in> set (five_digit_words False address).
          extractProvinceFromAddress zm g address = zm zip"
        by (rule bexI [of _ z]) (simp_all add: z Some)
      then show ?thesis by blast
    next
      case gem
      then show ?thesis using Some extractProvinceViaGemini_valid by auto
    qed
  qed
next
  show "\<forall>z p. fetchZipCodeProvinceMapping rows z = Some p \<longrightarrow> length p = 2"
    using fetchZipCodeProvinceMapping_values by blast
next
  show "list_ex (\<lambda>pattern. pattern address) placeholderPatterns \<longrightarrow>
        extractProvinceFromAddress zm g address = None"
    by (simp add: extractProvinceFromAddress_def)
next
  show "length validProvinceCodes = 110" by (simp add: validProvinceCodes_def)
next
  show "distinct validProvinceCodes" by (simp add: validProvinceCodes_def)
qed

theorem province_extraction_result_witness:
  "list_ex (\<lambda>pattern. pattern ''Follow-up call - Address TBD'') placeholderPatterns
   \<and> extractProvinceFromAddress (fetchZipCodeProvinceMapping example_sheet) no_gemini
        ''Follow-up call - Address TBD'' = None
   \<and> fetchZipCodeProvinceMapping example_sheet ''00100'' = Some ''RM''
   \<and> length ''RM'' = 2"
proof -
  have m: "list_ex (\<lambda>pattern. pattern ''Follow-up call - Address TBD'') placeholderPatterns"
    by code_simp
  have z: "fetchZipCodeProvinceMapping example_sheet ''00100'' = Some ''RM''"
    by code_simp
  from province_extraction_result [of "fetchZipCodeProvinceMapping example_sheet" no_gemini
      "''Follow-up call - Address TBD''" example_sheet] m z
  show ?thesis by blast
qed

text \<open>
  The claim as written fails twice. With the sheet row \<open>Carbonia, 09013, SU\<close> the address
  \<open>Via Roma 1, 09013 Carbonia\<close> gives \<open>SU\<close>, which is not among the 110 codes. And
  \<open>Follow-up call, RM area\<close>, the address the follow-up sweeper composes, matches
  \<^verbatim>\<open>/follow-up call/i\<close> and is not short-circuited: the direct strategy gives \<open>RM\<close>.
\<close>

theorem province_extraction_result_counterexample:
  "extractProvinceFromAddress (fetchZipCodeProvinceMapping example_sheet) no_gemini
        ''Via Roma 1, 09013 Carbonia'' = Some ''SU''
   \<and> ''SU'' \<notin> set validProvinceCodes
   \<and> includes_str (toLowerCase ''Follow-up call, RM area'') ''follow-up call''
   \<and> extractProvinceFromAddress (fetchZipCodeProvinceMapping example_sheet) no_gemini
        ''Follow-up call, RM area'' = Some ''RM''"
  by code_simp

section \<open>Rejection of unsigned and stale webhooks\<close>

lemma parse_signature_nonempty: "parse_signature signature = Some p \<Longrightarrow> signature \<noteq> []"
  by (auto simp: parse_signature_def)

text \<open>
  C5 (amended). With the webhook secret configured, a request whose signature header parses
  to a timestamp \<open>t\<close> and a value \<open>v0\<close> is rejected when \<open>t\<close>, read in seconds, is more
  than 30 minutes behind the clock in whole seconds, and when \<open>v0\<close> differs from the digest
  of \<open>t.payload\<close> under the secret, where the payload is the raw body kept by the JSON
  content-type parser, or \<^verbatim>\<open>JSON.stringify\<close> of the parsed body when none was kept. The
  reply is 401 when the body is an object and 400 when it is not (the body is checked
  first); in both cases exactly one alert is sent and no processing takes place.
\<close>

theorem webhook_rejects:
  assumes "ELEVENLABS_WEBHOOK_SECRET env \<noteq> []"
    and "wr_signature request = Some signature"
    and "parse_signature signature = Some (t, v0)"
    and "(\<exists>n. parseInt t = Some n \<and> Date_now env div 1000 - n > 30 * 60)
         \<or> v0 \<noteq> createHmac_sha256_hex env (ELEVENLABS_WEBHOOK_SECRET env) (t @ ''.'' @ rawBody request)"
  shows "fst (elevenlabs_webhook env request) =
           (case wr_body request of Object b \<Rightarrow> 401 | Falsy \<Rightarrow> 400 | NotAnObject \<Rightarrow> 400)
     \<and> \<not> list_ex is_processing (snd (elevenlabs_webhook env request))
     \<and> (\<exists>title. snd (elevenlabs_webhook env request) = [NonFatalNotification title])"
proof (cases "wr_body request")
  case Falsy
  then show ?thesis by (simp add: elevenlabs_webhook_def)
next
  case NotAnObject
  then show ?thesis by (simp add: elevenlabs_webhook_def)
next
  case (Object b)
  have ne: "signature \<noteq> []" using assms(3) by (rule parse_signature_nonempty)
  have bad: "\<not> timestamp_ok env t \<or>
     v0 \<noteq> createHmac_sha256_hex env (ELEVENLABS_WEBHOOK_SECRET env) (fullPayloadToSign t request)"
    using assms(4)
    by (auto simp: timestamp_ok_def SIGNATURE_TOLERANCE_MINUTES_def fullPayloadToSign_def Let_def)
  show ?thesis
  proof (cases "timestamp_ok env t")
    case False
    then show ?thesis using Object assms(1-3) ne by (simp add: elevenlabs_webhook_def)
  next
    case True
    then have "v0 \<noteq> createHmac_sha256_hex env (ELEVENLABS_WEBHOOK_SECRET env) (fullPayloadToSign t request)"
      using bad by simp
    then show ?thesis using True Object assms(1-3) ne by (simp add: elevenlabs_webhook_def)
  qed
qed

theorem webhook_rejects_witness:
  "elevenlabs_webhook example_webhook_env
      (example_request (Object example_webhook_body) ''t=1736940599,v0=00ff'' True)
    = (401, [NonFatalNotification ''ElevenLabs Webhook - Timestamp Validation Error''])
   \<and> fst (elevenlabs_webhook example_webhook_env
      (example_request (Object example_webhook_body) ''t=1736942100,v0=00ff'' True)) = 401
   \<and> \<not> list_ex is_processing (snd (elevenlabs_webhook example_webhook_env
      (example_request (Object example_webhook_body) ''t=1736942100,v0=00ff'' True)))"
proof -
  let ?r1 = "example_request (Object example_webhook_body) ''t=1736940599,v0=00ff'' True"
  let ?r2 = "example_request (Object example_webhook_body) ''t=1736942100,v0=00ff'' True"
  have s: "ELEVENLABS_WEBHOOK_SECRET example_webhook_env \<noteq> []"
    by (simp add: example_webhook_env_def)
  have h1: "wr_signature ?r1 = Some ''t=1736940599,v0=00ff''" by (simp add: example_request_def)
  have p1: "parse_signature ''t=1736940599,v0=00ff'' = Some (''1736940599'', ''00ff'')" by code_simp
  have pi: "parseInt ''1736940599'' = Some 1736940599" by code_simp
  have c1: "(\<exists>n. parseInt ''1736940599'' = Some n \<and> Date_now example_webhook_env div 1000 - n > 30 * 60)
         \<or> ''00ff'' \<noteq> createHmac_sha256_hex example_webhook_env
               (ELEVENLABS_WEBHOOK_SECRET example_webhook_env) (''1736940599'' @ ''.'' @ rawBody ?r1)"
    by (rule disjI1) (simp add: pi example_webhook_env_def)
  have h2: "wr_signature ?r2 = Some ''t=1736942100,v0=00ff''" by (simp add: example_request_def)
  have p2: "parse_signature ''t=1736942100,v0=00ff'' = Some (''1736942100'', ''00ff'')" by code_simp
  have c2: "(\<exists>n. parseInt ''1736942100'' = Some n \<and> Date_now example_webhook_env div 1000 - n > 30 * 60)
         \<or> ''00ff'' \<noteq> createHmac_sha256_hex example_webhook_env
               (ELEVENLABS_WEBHOOK_SECRET example_webhook_env) (''1736942100'' @ ''.'' @ rawBody ?r2)"
    by (rule disjI2) (simp add: example_webhook_env_def example_digest_def)
  have b: "wr_body ?r1 = Object example_webhook_body" "wr_body ?r2 = Object example_webhook_body"
    by (simp_all add: example_request_def)
  from webhook_rejects [OF s h1 p1 c1] webhook_rejects [OF s h2 p2 c2] b
  have A: "fst (elevenlabs_webhook example_webhook_env ?r1) = 401"
    and B: "fst (elevenlabs_webhook example_webhook_env ?r2) = 401"
    and C: "\<not> list_ex is_processing (snd (elevenlabs_webhook example_webhook_env ?r2))"
    by simp_all
  have D: "elevenlabs_webhook example_webhook_env ?r1
     = (401, [NonFatalNotification ''ElevenLabs Webhook - Timestamp Validation Error''])"
    by code_simp
  from B C D show ?thesis by simp
qed

text \<open>
  The claim as written fails twice. A request with a stale timestamp whose JSON body is
  \<^verbatim>\<open>null\<close> is answered 400, not 401. And a request whose body was not read by the JSON
  parser is checked against \<^verbatim>\<open>JSON.stringify\<close> of the parsed body: signed over that text
  it is accepted and processed although \<open>v0\<close> differs from the digest of the timestamp
  and the raw body.
\<close>

theorem webhook_rejects_counterexample:
  "elevenlabs_webhook example_webhook_env (example_request Falsy ''t=1736940599,v0=00ff'' True)
     = (400, [NonFatalNotification ''ElevenLabs Webhook - Missing Request Body''])
   \<and> parseInt ''1736940599'' = Some 1736940599
   \<and> Date_now example_webhook_env div 1000 - 1736940599 > 30 * 60
   \<and> fst (elevenlabs_webhook example_webhook_env
        (example_request (Object example_webhook_body)
           (''t=1736942100,v0='' @ example_digest ''s3cret''
               (''1736942100.{\"type\":\"post_call_transcription\"}'')) False)) = 200
   \<and> list_ex is_processing (snd (elevenlabs_webhook example_webhook_env
        (example_request (Object example_webhook_body)
           (''t=1736942100,v0='' @ example_digest ''s3cret''
               (''1736942100.{\"type\":\"post_call_transcription\"}'')) False)))
   \<and> example_digest ''s3cret'' (''1736942100.{\"type\":\"post_call_transcription\"}'')
       \<noteq> example_digest ''s3cret''
           (''1736942100.'' @ wr_raw (example_request (Object example_webhook_body) [] False))"
  by code_simp

section \<open>The alternatives offered after a failed booking\<close>

text \<open>
  C7 at a failing input. The booking of 2025-03-17 16:00 UTC for rep \<open>U1\<close> fails. The CRM
  window from 2025-03-17 00:00 UTC to 2025-03-24 00:00 UTC holds two slots at or after the
  requested time (17:00 that day and 08:30 the next), yet the reply is 409 with no
  alternatives: the rep-filtered fetch keeps the three earliest slots of the window only.
  The same request without a rep is answered 200 with both slots.
\<close>

theorem bookAppointment_alternatives_truncated:
  "bookAppointment example_crm False 1742227200000 (Some ''U1'')
     = (409, ''booking_failed_no_alternatives'', [])
   \<and> map_option (filter (\<lambda>t. 1742227200000 \<le> t)) (example_crm 1742169600000 1742774400000 [''U1''])
     = Some [1742230800000, 1742286600000]
   \<and> bookAppointment example_crm False 1742227200000 None
     = (200, ''booking_failed_alternatives_available'',
        [\<lparr> sl_datetime = 1742230800000, sl_userId = None \<rparr>,
         \<lparr> sl_datetime = 1742286600000, sl_userId = None \<rparr>])"
  by code_simp

section \<open>The intake refuses to queue when reps exist and slots do not\<close>

lemma slots_text_error:
  "\<exists>txt. slots_text rc None = Returned txt \<and> includes_str txt ''Errore''"
  by (simp add: slots_text_def)

lemma slots_text_empty:
  "\<exists>txt. slots_text rc (Some []) = Returned txt \<and> includes_str txt ''Nessuno slot disponibile''"
  by (simp add: slots_text_def)

lemma critical_check_fires:
  assumes "targetSalesReps \<noteq> []" and "\<not> ir_isAbruptEndingRetry rq"
    and "includes_str txt ''Errore'' \<or> allSlots = None
         \<or> includes_str txt ''Nessuno slot disponibile'' \<or> allSlots = Some []"
  shows "\<exists>e t. critical_check cfg env rq province targetSalesReps allSlots txt signedUrl s =
     (\<lparr> reply_code = 500, reply_critical = True, reply_error = e \<rparr>, s, [FatalNotification t])"
  using assms unfolding critical_check_def Let_def by auto

text \<open>
  C6. An intake request that is not an abrupt-ending retry, that passes validation and
  reaches the router (signed URL, CRM token and calendar id at hand, province extracted),
  and for which the router finds at least one rep: when the slot fetch the handler calls
  (the single-rep fetch for one rep, the multi-rep fetch for several) throws, returns the
  \<^verbatim>\<open>null\<close> sentinel or returns no slot, the reply is 500 with \<open>critical\<close> set, one
  fatal notification is emitted, and the state, \<open>call_queue\<close> included, is unchanged.
\<close>

theorem intake_critical_on_slot_failure:
  assumes "\<not> ir_isAbruptEndingRetry rq"
    and "ir_Service rq \<in> set ALLOWED_SERVICES"
    and "trim (ir_full_address rq) \<noteq> []"
    and "ir_phone rq \<noteq> []" and "ir_contact_id rq \<noteq> []"
    and "ie_getSignedUrl env = Returned signedUrl"
    and "ie_getValidGoHighlevelToken env = Returned (Some tok)" and "tok \<noteq> []"
    and "ie_CALENDAR_ID env \<noteq> []"
    and "extractProvinceFromAddress (ie_zipCodeMapping env) (ie_gemini env) (ir_full_address rq) = Some p"
    and "p \<noteq> []"
    and "getSalesRepsByServiceAndProvince (ie_sales_reps env) (ir_Service rq) p = reps"
    and "reps \<noteq> []"
    and "fetched =
          (if length reps = 1
           then ie_fetchGHLCalendarSlots env (window_start cfg (ie_now env))
                  (window_end cfg (ie_now env)) (Some (ghlUserId (hd reps)))
           else ie_fetchGHLCalendarSlotsForUsers env (window_start cfg (ie_now env))
                  (window_end cfg (ie_now env)) (map ghlUserId reps))"
    and "(\<exists>e. fetched = Threw e) \<or> fetched = Returned None \<or> fetched = Returned (Some [])"
  shows "\<exists>e t. outbound_call cfg env rq s =
     (\<lparr> reply_code = 500, reply_critical = True, reply_error = e \<rparr>, s, [FatalNotification t])"
proof -
  have addr: "ir_full_address rq \<noteq> []" using assms(3) by (auto simp: trim_def)
  have svc: "ir_Service rq \<noteq> []" using assms(2) by (auto simp: ALLOWED_SERVICES_def)
  define ids where "ids = map ghlUserId reps"
  have ids: "ids \<noteq> []" using assms(13) by (simp add: ids_def)
  have fa: "fetch_allSlots cfg env False ids =
      (if length reps = 1 then
         (case fetched of Threw e \<Rightarrow> Threw e | Returned None \<Rightarrow> Returned (Some [])
          | Returned (Some r) \<Rightarrow> Returned (Some r))
       else fetched)"
  proof (cases "length reps = 1")
    case True
    then have "length ids = 1" by (simp add: ids_def)
    moreover have "hd ids = ghlUserId (hd reps)" using assms(13) by (simp add: ids_def hd_map)
    ultimately show ?thesis using True ids assms(14)
      by (simp add: fetch_allSlots_def Let_def)
  next
    case False
    then have "length ids > 1" using ids by (cases ids) (auto simp: ids_def)
    then show ?thesis using False ids assms(14)
      by (simp add: fetch_allSlots_def Let_def ids_def)
  qed
  have main: "outbound_call cfg env rq s =
     (case fetch_allSlots cfg env False ids of
        Threw e \<Rightarrow> slot_exception cfg env rq (Some p) reps (Some []) signedUrl s
      | Returned allSlots \<Rightarrow>
          (case slots_text (ie_clock env) allSlots of
             Threw e \<Rightarrow> slot_exception cfg env rq (Some p) reps allSlots signedUrl s
           | Returned txt \<Rightarrow> critical_check cfg env rq (Some p) reps allSlots txt signedUrl s))"
    using assms(1-13) addr svc
    by (simp add: outbound_call_def Let_def ids_def split: outcome.splits)
  have exc: "\<exists>e t. slot_exception cfg env rq (Some p) reps allSlots signedUrl s =
     (\<lparr> reply_code = 500, reply_critical = True, reply_error = e \<rparr>, s, [FatalNotification t])"
    for allSlots
    using assms(1) assms(13) by (simp add: slot_exception_def)
  obtain txt0 where txt0: "slots_text (ie_clock env) None = Returned txt0"
    "includes_str txt0 ''Errore''"
    using slots_text_error by blast
  obtain txt1 where txt1: "slots_text (ie_clock env) (Some []) = Returned txt1"
    "includes_str txt1 ''Nessuno slot disponibile''"
    using slots_text_empty by blast
  have null_reply: "\<exists>e t. critical_check cfg env rq (Some p) reps None txt0 signedUrl s =
     (\<lparr> reply_code = 500, reply_critical = True, reply_error = e \<rparr>, s, [FatalNotification t])"
    using txt0(2) by (intro critical_check_fires [OF assms(13) assms(1)]) simp
  have empty_reply: "\<exists>e t. critical_check cfg env rq (Some p) reps (Some []) txt1 signedUrl s =
     (\<lparr> reply_code = 500, reply_critical = True, reply_error = e \<rparr>, s, [FatalNotification t])"
    using txt1(2) by (intro critical_check_fires [OF assms(13) assms(1)]) simp
  from assms(15) consider (threw) e where "fetched = Threw e" | (null) "fetched = Returned None"
    | (empty) "fetched = Returned (Some [])" by blast
  then show ?thesis
  proof cases
    case threw
    then have "fetch_allSlots cfg env False ids = Threw e" by (simp add: fa)
    then show ?thesis using exc [of "Some []"] by (simp add: main)
  next
    case null
    show ?thesis
    proof (cases "length reps = 1")
      case True
      then have "fetch_allSlots cfg env False ids = Returned (Some [])" using null by (simp add: fa)
      then show ?thesis using empty_reply txt1(1) by (simp add: main)
    next
      case False
      then have "fetch_allSlots cfg env False ids = Returned None" using null by (simp add: fa)
      then show ?thesis using null_reply txt0(1) by (simp add: main)
    qed
  next
    case empty
    then have "fetch_allSlots cfg env False ids = Returned (Some [])" by (simp add: fa)
    then show ?thesis using empty_reply txt1(1) by (simp add: main)
  qed
qed

theorem intake_critical_on_slot_failure_witness:
  "(\<exists>e t. outbound_call example_cfg (example_intake_env (Threw ''ECONNRESET'')) example_intake_request
        (example_state (example_call 0 ''RM'' 0 Null)) =
     (\<lparr> reply_code = 500, reply_critical = True, reply_error = e \<rparr>,
      example_state (example_call 0 ''RM'' 0 Null), [FatalNotification t]))
   \<and> reply_code (fst (outbound_call example_cfg
        (example_intake_env (Returned (Some [example_slot 1742198400000 ''U1''])))
        example_intake_request (example_state (example_call 0 ''RM'' 0 Null)))) = 202"
proof -
  let ?env = "example_intake_env (Threw ''ECONNRESET'')"
  let ?rq = example_intake_request
  have 1: "\<not> ir_isAbruptEndingRetry ?rq" by (simp add: example_intake_request_def)
  have 2: "ir_Service ?rq \<in> set ALLOWED_SERVICES"
    by (simp add: example_intake_request_def ALLOWED_SERVICES_def)
  have 3: "trim (ir_full_address ?rq) \<noteq> []" by code_simp
  have 4: "ir_phone ?rq \<noteq> []" "ir_contact_id ?rq \<noteq> []" by (simp_all add: example_intake_request_def)
  have 5: "ie_getSignedUrl ?env = Returned ''wss://signed''" by (simp add: example_intake_env_def)
  have 6: "ie_getValidGoHighlevelToken ?env = Returned (Some ''token'')" "''token'' \<noteq> []"
    by (simp_all add: example_intake_env_def)
  have 7: "ie_CALENDAR_ID ?env \<noteq> []" by (simp add: example_intake_env_def)
  have 8: "extractProvinceFromAddress (ie_zipCodeMapping ?env) (ie_gemini ?env) (ir_full_address ?rq) = Some ''RM''"
    by code_simp
  have 9: "''RM'' \<noteq> []" by simp
  let ?reps = "[\<lparr> ghlUserId = ''U1'', rep_name = ''Rep Uno'', rep_services = [''Infissi''],
            rep_provinces = [''RM''], rep_active = True \<rparr>]"
  have 10: "getSalesRepsByServiceAndProvince (ie_sales_reps ?env) (ir_Service ?rq) ''RM'' = ?reps"
    by (simp add: getSalesRepsByServiceAndProvince_def example_intake_env_def example_intake_request_def)
  have 11: "?reps \<noteq> []" by simp
  have 12: "Threw ''ECONNRESET'' =
          (if length ?reps = 1
           then ie_fetchGHLCalendarSlots ?env (window_start example_cfg (ie_now ?env))
                  (window_end example_cfg (ie_now ?env)) (Some (ghlUserId (hd ?reps)))
           else ie_fetchGHLCalendarSlotsForUsers ?env (window_start example_cfg (ie_now ?env))
                  (window_end example_cfg (ie_now ?env)) (map ghlUserId ?reps))"
    by (simp add: example_intake_env_def)
  have 13: "(\<exists>e. (Threw ''ECONNRESET'' :: slot list option outcome) = Threw e)
     \<or> (Threw ''ECONNRESET'' :: slot list option outcome) = Returned None
     \<or> (Threw ''ECONNRESET'' :: slot list option outcome) = Returned (Some [])"
    by simp
  have A: "\<exists>e t. outbound_call example_cfg ?env ?rq (example_state (example_call 0 ''RM'' 0 Null)) =
     (\<lparr> reply_code = 500, reply_critical = True, reply_error = e \<rparr>,
      example_state (example_call 0 ''RM'' 0 Null), [FatalNotification t])"
    by (rule intake_critical_on_slot_failure [OF 1 2 3 4 5 6 7 8 9 10 11 12 13])
  have B: "reply_code (fst (outbound_call example_cfg
        (example_intake_env (Returned (Some [example_slot 1742198400000 ''U1''])))
        example_intake_request (example_state (example_call 0 ''RM'' 0 Null)))) = 202"
    by code_simp
  from A B show ?thesis by simp
qed

section \<open>The agent's pick resolves to the rep of the slot\<close>

lemma join_snoc: "join sep (xs @ [x]) = (if xs = [] then x else join sep xs @ sep @ x)"
  by (induction sep xs rule: join.induct) auto

lemma join_append:
  "xs \<noteq> [] \<Longrightarrow> join sep (xs @ ys) = join sep xs @ concat (map (\<lambda>y. sep @ y) ys)"
proof (induction ys rule: rev_induct)
  case Nil
  then show ?case by simp
next
  case (snoc z zs)
  have "join sep (xs @ zs @ [z]) = join sep ((xs @ zs) @ [z])" by simp
  also have "\<dots> = join sep (xs @ zs) @ sep @ z"
    using snoc.prems by (simp only: join_snoc) simp
  finally show ?case using snoc by simp
qed

lemma list_all_join:
  "list_all P sep \<Longrightarrow> \<forall>l\<in>set ls. list_all P l \<Longrightarrow> list_all P (join sep ls)"
  by (induction sep ls rule: join.induct) auto

lemma join_last: "ls \<noteq> [] \<Longrightarrow> \<exists>p. join sep ls = p @ last ls"
proof (induction sep ls rule: join.induct)
  case (3 sep x y ys)
  then obtain p where "join sep (y # ys) = p @ last (y # ys)" by auto
  then have "join sep (x # y # ys) = (x @ sep @ p) @ last (x # y # ys)" by simp
  then show ?case by blast
qed auto

lemma set_uniq: "set (uniq xs) = set xs"
  by (induction xs) auto

lemma distinct_uniq: "distinct (uniq xs)"
  by (induction xs) (auto simp: distinct_removeAll)

lemma split_on_nonempty: "split_on c s \<noteq> []"
  by (induction s) (auto split: list.splits)

lemma split_on_chars: "\<forall>w\<in>set (split_on c s). set w \<subseteq> set s"
  by (induction s) (auto split: list.splits)

lemma split_on_none: "c \<notin> set s \<Longrightarrow> split_on c s = [s]"
  by (induction s) auto

lemma split_on_one: "c \<notin> set t \<Longrightarrow> c \<notin> set u \<Longrightarrow> split_on c (t @ c # u) = [t, u]"
  by (induction t) (auto simp: split_on_none)

lemma startsWith_append: "startsWith s p \<longleftrightarrow> (\<exists>r. s = p @ r)"
  by (induction s p rule: startsWith.induct) auto

lemma startsWith_drop: "startsWith s p \<Longrightarrow> s = p @ drop (length p) s"
  by (auto simp: startsWith_append)

lemma alnum_not:
  "is_alnum c \<Longrightarrow> c \<noteq> CHR ''='' \<and> c \<noteq> CHR '':'' \<and> c \<noteq> CHR '' '' \<and> c \<noteq> CHR 0x0A \<and>
     c \<noteq> CHR 0x5C \<and> c \<noteq> CHR ''|'' \<and> c \<noteq> CHR ''('' \<and> c \<noteq> CHR '')'' \<and> c \<noteq> CHR 0x0D"
  by (auto simp: is_alnum_def is_AZ_def is_az_def is_digit_def)

lemma singleRepMatch_Some:
  "singleRepMatch t = Some cap \<Longrightarrow>
     \<exists>p. t = p @ ''Sales Rep: '' @ cap \<and> cap \<noteq> [] \<and> list_all is_alnum cap"
proof (induction t)
  case Nil
  then show ?case by simp
next
  case (Cons c cs)
  show ?case
  proof (cases "startsWith (c # cs) ''Sales Rep: '' \<and> drop 11 (c # cs) \<noteq> [] \<and>
         list_all is_alnum (drop 11 (c # cs))")
    case True
    then obtain r where r: "c # cs = ''Sales Rep: '' @ r"
      by (auto simp: startsWith_append)
    then have "drop 11 (c # cs) = r" by simp
    then have cap: "cap = r" "r \<noteq> []" "list_all is_alnum r"
      using True Cons.prems by auto
    have "c # cs = [] @ ''Sales Rep: '' @ cap" using r cap by simp
    then show ?thesis using True cap by blast
  next
    case False
    then have "singleRepMatch cs = Some cap" using Cons.prems by auto
    then obtain p where "cs = p @ ''Sales Rep: '' @ cap" "cap \<noteq> []" "list_all is_alnum cap"
      using Cons.IH by blast
    then have "c # cs = (c # p) @ ''Sales Rep: '' @ cap" by simp
    then show ?thesis using \<open>cap \<noteq> []\<close> \<open>list_all is_alnum cap\<close> by blast
  qed
qed

lemma tail_after:
  "list_all is_alnum w \<Longrightarrow> \<not> is_alnum a \<Longrightarrow> dropWhile is_alnum (rev (z @ a # w)) = a # rev z"
  by (simp add: dropWhile_append3 list_all_iff)

lemma singleRepMatch_tail:
  assumes "singleRepMatch t = Some cap"
  shows "take 2 (dropWhile is_alnum (rev t)) = '' :''"
proof -
  obtain p where t: "t = p @ ''Sales Rep: '' @ cap" and c: "list_all is_alnum cap"
    using singleRepMatch_Some [OF assms] by blast
  have "t = (p @ ''Sales Rep:'') @ CHR '' '' # cap" using t by simp
  then have "dropWhile is_alnum (rev t) = CHR '' '' # rev (p @ ''Sales Rep:'')"
    using tail_after [OF c, of "CHR '' ''" "p @ ''Sales Rep:''"]
    by (simp add: is_alnum_def is_AZ_def is_az_def is_digit_def)
  then show ?thesis by simp
qed

lemma singleRepMatch_colon:
  assumes "list_all is_alnum w"
  shows "singleRepMatch (z @ CHR '':'' # w) = None"
proof (cases "singleRepMatch (z @ CHR '':'' # w)")
  case (Some cap)
  have "dropWhile is_alnum (rev (z @ CHR '':'' # w)) = CHR '':'' # rev z"
    using tail_after [OF assms, of "CHR '':''" z]
    by (simp add: is_alnum_def is_AZ_def is_az_def is_digit_def)
  then show ?thesis using singleRepMatch_tail [OF Some] by simp
qed simp

lemma singleRepMatch_equals:
  assumes "list_all is_alnum w"
  shows "singleRepMatch (z @ ''= '' @ w) = None"
proof (cases "singleRepMatch (z @ ''= '' @ w)")
  case (Some cap)
  have "z @ ''= '' @ w = (z @ ''='') @ CHR '' '' # w" by simp
  then have "dropWhile is_alnum (rev (z @ ''= '' @ w)) = CHR '' '' # rev (z @ ''='')"
    using tail_after [OF assms, of "CHR '' ''" "z @ ''=''"]
    by (simp add: is_alnum_def is_AZ_def is_az_def is_digit_def)
  then show ?thesis using singleRepMatch_tail [OF Some] by simp
qed simp

lemma singleRepMatch_trailer:
  assumes "list_all is_alnum u" and "u \<noteq> []"
  shows "singleRepMatch (p @ ''Sales Rep: '' @ u) = Some u"
proof (induction p)
  case Nil
  then show ?case using assms by simp
next
  case (Cons c p)
  define cs where "cs = p @ ''Sales Rep: '' @ u"
  have e: "c # cs = (c # p @ ''Sales Rep:'') @ CHR '' '' # u" by (simp add: cs_def)
  have "11 \<le> length (c # p @ ''Sales Rep:'')" by simp
  then have "drop 11 (c # cs) = drop 11 (c # p @ ''Sales Rep:'') @ CHR '' '' # u"
    by (simp only: e drop_append) simp
  then have neg: "\<not> list_all is_alnum (drop 11 (c # cs))"
    by (simp add: is_alnum_def is_AZ_def is_az_def is_digit_def)
  have "singleRepMatch (c # cs) = singleRepMatch cs"
    by (simp only: singleRepMatch.simps neg simp_thms if_False)
  then show ?case using Cons.IH by (simp add: cs_def)
qed

lemma repSectionMatch_no_line_feed: "CHR 0x0A \<notin> set t \<Longrightarrow> repSectionMatch time t = None"
  by (induction t) (auto simp: rep_section_at_def Let_def)

lemma legendMatch_skip:
  assumes "CHR ''='' \<notin> set pre"
    and "rest = [] \<or> (\<exists>b1 b2 r. rest = b1 # b2 # r \<and> b1 \<noteq> CHR ''='' \<and> b2 \<noteq> CHR ''='')"
  shows "legendMatch x (pre @ rest) = legendMatch x rest"
  using assms(1)
proof (induction pre)
  case Nil
  then show ?case by simp
next
  case (Cons c cs)
  have neg: "\<not> startsWith (c # cs @ rest) [x, CHR '' '', CHR ''='', CHR '' '']"
  proof (cases cs)
    case Nil
    then show ?thesis using assms(2) by auto
  next
    case (Cons d ds)
    then show ?thesis using Cons.prems assms(2) by (cases ds) auto
  qed
  have "legendMatch x (c # cs @ rest) = legendMatch x (cs @ rest)"
    by (simp only: legendMatch.simps neg simp_thms if_False)
  then show ?case using Cons by simp
qed

lemma abbreviatedMatch_time:
  "time_shape t \<Longrightarrow> abbreviatedMatch (p @ t) = None"
  by (auto simp: time_shape_def abbreviatedMatch_def is_digit_def split: list.splits)

lemma abbreviatedMatch_code:
  "x \<in> set ''ABC'' \<Longrightarrow> p \<noteq> [] \<Longrightarrow> \<not> list_ex is_line_terminator p \<Longrightarrow>
     abbreviatedMatch (p @ ''('' @ [x] @ '')'') = Some (p, x)"
  by (auto simp: abbreviatedMatch_def list_ex_iff)

lemma display_char_not: "display_char c \<Longrightarrow> c \<noteq> CHR ''='' \<and> c \<noteq> CHR 0x0A \<and> c \<noteq> CHR 0x0D"
  by (auto simp: display_char_def is_alnum_def is_AZ_def is_az_def is_digit_def)

lemma alnum_display: "list_all is_alnum u \<Longrightarrow> list_all display_char u"
  by (simp add: list_all_iff display_char_def)

lemma time_display: "time_shape t \<Longrightarrow> list_all display_char t"
  by (auto simp: time_shape_def display_char_def is_alnum_def split: list.splits)

lemma date_display: "date_shape d \<Longrightarrow> list_all display_char d"
  by (auto simp: date_shape_def display_char_def is_alnum_def split: list.splits)

lemma weekday_display: "weekday_shape w \<Longrightarrow> list_all display_char w"
  by (auto simp: weekday_shape_def display_char_def is_alnum_def list_all_iff)

lemma slot_header_display:
  "clock_shape rc (sl_datetime s) \<Longrightarrow> list_all display_char (slot_header rc s)"
  by (simp add: clock_shape_def slot_header_def weekday_display date_display display_char_def)

lemma group_header_display:
  "\<forall>s\<in>set g. clock_shape rc (sl_datetime s) \<Longrightarrow> list_all display_char (group_header rc g)"
  by (cases g) (simp_all add: group_header_def slot_header_display)

lemma slot_userId_shape:
  "id_shape s \<Longrightarrow> slot_userId s = Some u \<Longrightarrow> u \<noteq> [] \<and> list_all is_alnum u"
  by (auto simp: id_shape_def slot_userId_def split: option.splits if_splits)

lemma timeWithUser_display:
  "clock_shape rc (sl_datetime s) \<Longrightarrow> id_shape s \<Longrightarrow> list_all display_char (timeWithUser rc s)"
  by (cases "slot_userId s")
     (auto simp: timeWithUser_def clock_shape_def time_display alnum_display display_char_def
           dest: slot_userId_shape)

lemma codes_display: "c \<in> set codes \<Longrightarrow> list_all display_char c"
  by (auto simp: codes_def display_char_def is_alnum_def is_AZ_def)

lemma day_group_subset: "set (day_group rc slots k) \<subseteq> set slots"
  by (auto simp: day_group_def)

lemma day_group_nonempty: "k \<in> set (sortedDateKeys rc slots) \<Longrightarrow> day_group rc slots k \<noteq> []"
  by (auto simp: sortedDateKeys_def day_group_def set_uniq filter_empty_conv)

lemma sep_display: "list_all display_char '', ''" "list_all display_char '': ''" "list_all display_char bs_n"
  "list_all display_char ''  ''"
  by (simp_all add: display_char_def bs_n_def is_alnum_def is_az_def)

lemma single_rep_lines_display:
  assumes "\<forall>s\<in>set allSlots. clock_shape rc (sl_datetime s)" and "\<forall>s\<in>set allSlots. id_shape s"
    and "list_all is_alnum u"
  shows "\<forall>l\<in>set (single_rep_lines rc allSlots u). list_all display_char l"
proof -
  have t: "list_all display_char (hd (split_on CHR ''|'' (timeWithUser rc s)))" if "s \<in> set allSlots" for s
  proof -
    have "list_all display_char (timeWithUser rc s)" using that assms by (simp add: timeWithUser_display)
    moreover have "hd (split_on CHR ''|'' (timeWithUser rc s)) \<in> set (split_on CHR ''|'' (timeWithUser rc s))"
      by (simp add: split_on_nonempty)
    ultimately show ?thesis using split_on_chars [of "CHR ''|''" "timeWithUser rc s"]
      by (auto simp: list_all_iff)
  qed
  have d: "list_all display_char
      (group_header rc (day_group rc allSlots k) @ '': '' @
       join '', '' (sort (map (\<lambda>s. hd (split_on CHR ''|'' (timeWithUser rc s))) (day_group rc allSlots k))))" for k
  proof -
    have "list_all display_char (group_header rc (day_group rc allSlots k))"
      using assms(1) day_group_subset [of rc allSlots k] by (intro group_header_display) auto
    moreover have "list_all display_char
       (join '', '' (sort (map (\<lambda>s. hd (split_on CHR ''|'' (timeWithUser rc s))) (day_group rc allSlots k))))"
      using t day_group_subset [of rc allSlots k] by (intro list_all_join sep_display) auto
    ultimately show ?thesis using sep_display by simp
  qed
  have "list_all display_char (bs_n @ ''Sales Rep: '' @ u)"
    using assms(3) sep_display by (simp add: alnum_display display_char_def is_alnum_def is_az_def is_AZ_def)
  then show ?thesis using d by (auto simp: single_rep_lines_def)
qed

lemma legend_rest:
  "concat (map ((@) bs_n) ys) = [] \<or> (\<exists>r. concat (map ((@) bs_n) ys) = CHR 0x5C # CHR ''n'' # r)"
  by (cases ys) (simp_all add: bs_n_def)

lemma legendMatch_legend:
  assumes "\<forall>e\<in>set m. (\<exists>k. snd e = [k]) \<and> fst e \<noteq> [] \<and> list_all is_alnum (fst e)"
    and "x \<in> set ''ABC''"
  shows "legendMatch x (concat (map ((@) bs_n) (map (\<lambda>(userId, code). code @ '' = '' @ userId) m)))
         = map_option fst (find (\<lambda>e. snd e = [x]) m)"
  using assms(1)
proof (induction m)
  case Nil
  then show ?case by simp
next
  case (Cons e m)
  obtain u k where e: "e = (u, [k])" and u: "u \<noteq> []" "list_all is_alnum u"
    using Cons.prems by (cases e) auto
  define rest where "rest = concat (map ((@) bs_n) (map (\<lambda>(userId, code). code @ '' = '' @ userId) m))"
  have r: "rest = [] \<or> (\<exists>r. rest = CHR 0x5C # CHR ''n'' # r)"
    unfolding rest_def by (rule legend_rest)
  have x: "x \<noteq> CHR 0x5C" "x \<noteq> CHR ''n''" "x \<noteq> CHR '' ''" "x \<noteq> CHR ''=''"
    using assms(2) by auto
  have ih: "legendMatch x rest = map_option fst (find (\<lambda>e. snd e = [x]) m)"
    unfolding rest_def using Cons by simp
  have tw: "takeWhile is_alnum (u @ rest) = u"
    using r u(2) by (auto simp: list_all_iff is_alnum_def is_AZ_def is_az_def is_digit_def)
  have eq: "CHR ''='' \<notin> set u" using u(2) alnum_not by (auto simp: list_all_iff)
  have skip: "legendMatch x (u @ rest) = legendMatch x rest"
    using r by (intro legendMatch_skip eq) auto
  have shape: "concat (map ((@) bs_n) (map (\<lambda>(userId, code). code @ '' = '' @ userId) (e # m)))
      = CHR 0x5C # CHR ''n'' # k # CHR '' '' # CHR ''='' # CHR '' '' # u @ rest"
    by (simp add: e rest_def bs_n_def)
  show ?case
  proof (cases "k = x")
    case True
    then show ?thesis unfolding shape using x tw u(1) by (simp add: e)
  next
    case False
    then show ?thesis unfolding shape using x skip ih by (simp add: e)
  qed
qed

lemma uniqueUserIds_set:
  "u \<in> set (uniqueUserIds allSlots) \<longleftrightarrow> (\<exists>s\<in>set allSlots. slot_userId s = Some u)"
  by (auto simp: uniqueUserIds_def set_uniq map_filter_def image_iff)

lemma uniqueUserIds_distinct: "distinct (uniqueUserIds allSlots)"
  by (simp add: uniqueUserIds_def distinct_uniq)

lemma uniqueUserIds_shape:
  "\<forall>s\<in>set allSlots. id_shape s \<Longrightarrow> u \<in> set (uniqueUserIds allSlots) \<Longrightarrow>
     u \<noteq> [] \<and> list_all is_alnum u"
  by (auto simp: uniqueUserIds_set dest: slot_userId_shape)

lemma formatSlots_single:
  "uniqueUserIds allSlots = [u] \<Longrightarrow>
     formatSlots rc allSlots = Returned (join bs_n (single_rep_lines rc allSlots u))"
  by (simp add: formatSlots_def)

lemma formatSlots_abbreviated:
  "length (uniqueUserIds allSlots) \<noteq> 1 \<Longrightarrow> length (uniqueUserIds allSlots) \<le> 3 \<Longrightarrow>
     formatSlots rc allSlots = Returned (join bs_n (abbreviated_lines rc allSlots))"
  by (auto simp: formatSlots_def split: list.splits)

lemma formatSlots_grouped:
  "3 < length (uniqueUserIds allSlots) \<Longrightarrow> formatSlots rc allSlots = Returned t \<Longrightarrow>
     \<exists>ls. rep_grouped_lines rc allSlots = Returned ls \<and> t = join bs_n ls"
  by (auto simp: formatSlots_def split: list.splits outcome.splits)

lemma displayed_time_single:
  "uniqueUserIds allSlots = [u] \<Longrightarrow> displayed_time rc allSlots s = loc_time rc (sl_datetime s)"
  by (simp add: displayed_time_def)

lemma displayed_time_abbreviated:
  "length (uniqueUserIds allSlots) \<noteq> 1 \<Longrightarrow> length (uniqueUserIds allSlots) \<le> 3 \<Longrightarrow>
     displayed_time rc allSlots s =
       time_with_code (zip (uniqueUserIds allSlots) codes) (timeWithUser rc s)"
  by (auto simp: displayed_time_def split: list.splits)

lemma displayed_time_grouped:
  "3 < length (uniqueUserIds allSlots) \<Longrightarrow>
     displayed_time rc allSlots s = loc_time rc (sl_datetime s)"
  by (auto simp: displayed_time_def split: list.splits)

lemma book_plain:
  assumes "abbreviatedMatch a = None" and "a \<noteq> []" and "t \<noteq> []" and "CHR 0x0A \<notin> set t"
  shows "book_appointment_userId t a = singleRepMatch t"
  using assms by (simp add: book_appointment_userId_def repSectionMatch_no_line_feed)

lemma book_coded:
  assumes "abbreviatedMatch a = Some (p, x)" and "a \<noteq> []" and "t \<noteq> []"
    and "legendMatch x t = Some u"
  shows "book_appointment_userId t a = Some u"
  using assms by (simp add: book_appointment_userId_def)

lemma display_no_line_feed: "list_all display_char t \<Longrightarrow> CHR 0x0A \<notin> set t"
  using display_char_not by (auto simp: list_all_iff)

lemma display_no_equals: "list_all display_char t \<Longrightarrow> CHR ''='' \<notin> set t"
  using display_char_not by (auto simp: list_all_iff)

lemma display_char_not_terminator: "display_char c \<Longrightarrow> \<not> is_line_terminator c"
  by (auto simp: display_char_def is_alnum_def is_AZ_def is_az_def is_digit_def
        is_line_terminator_def Let_def)

lemma display_no_terminator: "list_all display_char t \<Longrightarrow> \<not> list_ex is_line_terminator t"
  using display_char_not_terminator by (auto simp: list_all_iff list_ex_iff)

lemma plain_pick:
  assumes "clock_shape rc (sl_datetime s)"
  shows "abbreviatedMatch (loc_datePart rc (sl_datetime s) @ '' '' @ loc_time rc (sl_datetime s)) = None"
proof -
  have "abbreviatedMatch ((loc_datePart rc (sl_datetime s) @ '' '') @ loc_time rc (sl_datetime s)) = None"
    using assms by (intro abbreviatedMatch_time) (simp add: clock_shape_def)
  then show ?thesis by simp
qed

text \<open>One rep.\<close>

lemma single_round_trip:
  assumes clock: "\<forall>s\<in>set allSlots. clock_shape rc (sl_datetime s)"
    and ids: "\<forall>s\<in>set allSlots. id_shape s"
    and s: "s \<in> set allSlots"
    and one: "uniqueUserIds allSlots = [u]"
    and t: "formatSlots rc allSlots = Returned t"
  shows "book_appointment_userId t (pick rc allSlots s) = Some u"
proof -
  have u: "u \<noteq> []" "list_all is_alnum u"
    using uniqueUserIds_shape [OF ids, of u] one by simp_all
  have lines: "t = join bs_n (single_rep_lines rc allSlots u)"
    using t formatSlots_single [OF one, of rc] by simp
  have "\<exists>p. t = p @ ''Sales Rep: '' @ u"
  proof -
    obtain D where D: "single_rep_lines rc allSlots u = D @ [bs_n @ ''Sales Rep: '' @ u]"
      by (simp add: single_rep_lines_def)
    show ?thesis
    proof (cases "D = []")
      case True
      then have "t = bs_n @ ''Sales Rep: '' @ u" using lines D by simp
      then show ?thesis by blast
    next
      case False
      then have "t = (join bs_n D @ bs_n @ bs_n) @ ''Sales Rep: '' @ u"
        using lines D by (simp add: join_snoc)
      then show ?thesis by blast
    qed
  qed
  then obtain p where p: "t = p @ ''Sales Rep: '' @ u" by blast
  have found: "singleRepMatch t = Some u"
    unfolding p using u(2) u(1) by (rule singleRepMatch_trailer)
  have "list_all display_char t"
    unfolding lines using single_rep_lines_display [OF clock ids u(2)]
    by (intro list_all_join sep_display)
  then have nl: "CHR 0x0A \<notin> set t" by (rule display_no_line_feed)
  have ne: "t \<noteq> []" using p by simp
  have pk: "pick rc allSlots s = loc_datePart rc (sl_datetime s) @ '' '' @ loc_time rc (sl_datetime s)"
    by (simp add: pick_def displayed_time_single [OF one])
  have am: "abbreviatedMatch (pick rc allSlots s) = None"
    unfolding pk using clock s by (intro plain_pick) simp
  have "book_appointment_userId t (pick rc allSlots s) = singleRepMatch t"
    using am _ ne nl by (rule book_plain) (simp add: pk)
  then show ?thesis using found by simp
qed

text \<open>Four reps or more.\<close>

lemma set_own_keys: "set (own_keys ks) = set ks"
  by (auto simp: own_keys_def)

lemma time_colon: "time_shape t \<Longrightarrow> \<exists>z w. t = z @ CHR '':'' # w \<and> list_all is_alnum w"
proof -
  assume "time_shape t"
  then obtain h1 h2 m1 m2 where "t = [h1, h2] @ CHR '':'' # [m1, m2]" "is_digit m1" "is_digit m2"
    by (auto simp: time_shape_def split: list.splits)
  then have "t = [h1, h2] @ CHR '':'' # [m1, m2] \<and> list_all is_alnum [m1, m2]"
    by (simp add: is_alnum_def)
  then show ?thesis by blast
qed

lemma times_colon:
  assumes "xs \<noteq> []" and "\<forall>t\<in>set xs. time_shape t"
  shows "\<exists>z w. pre @ join sep xs = z @ CHR '':'' # w \<and> list_all is_alnum w"
proof -
  obtain q where q: "join sep xs = q @ last xs" using join_last [OF assms(1)] by blast
  have "time_shape (last xs)" using assms by simp
  then obtain z w where "last xs = z @ CHR '':'' # w" "list_all is_alnum w"
    using time_colon by blast
  then have "pre @ join sep xs = (pre @ q @ z) @ CHR '':'' # w \<and> list_all is_alnum w"
    using q by simp
  then show ?thesis by blast
qed

lemma rep_key_alnum: "id_shape s \<Longrightarrow> list_all is_alnum (rep_key s)"
  by (cases "slot_userId s")
     (auto simp: rep_key_def is_alnum_def is_az_def dest: slot_userId_shape)

lemma rep_grouped_line:
  assumes clock: "\<forall>s\<in>set allSlots. clock_shape rc (sl_datetime s)"
    and ids: "\<forall>s\<in>set allSlots. id_shape s"
    and ls: "rep_grouped_lines rc allSlots = Returned ls"
    and l: "l \<in> set ls"
  shows "list_all display_char l \<and> (\<exists>z w. l = z @ CHR '':'' # w \<and> list_all is_alnum w)"
proof -
  have lsd: "ls = concat (map (\<lambda>userId.
                   let mine = filter (\<lambda>s. rep_key s = userId) allSlots in
                   (bs_n @ userId @ '':'') #
                   map (\<lambda>dateKey.
                          ''  '' @ group_header rc (day_group rc mine dateKey) @ '': '' @
                          join '', '' (sort (map (\<lambda>s. loc_time rc (sl_datetime s))
                                                 (day_group rc mine dateKey))))
                       (sortedDateKeys rc mine))
                (own_keys (uniq (map rep_key allSlots))))"
    using ls by (simp add: rep_grouped_lines_def split: if_splits)
  obtain userId where key: "userId \<in> set (own_keys (uniq (map rep_key allSlots)))"
    and cases: "l = bs_n @ userId @ '':'' \<or>
      (\<exists>k\<in>set (sortedDateKeys rc (filter (\<lambda>s. rep_key s = userId) allSlots)).
         l = ''  '' @ group_header rc (day_group rc (filter (\<lambda>s. rep_key s = userId) allSlots) k) @ '': '' @
             join '', '' (sort (map (\<lambda>s. loc_time rc (sl_datetime s))
                                    (day_group rc (filter (\<lambda>s. rep_key s = userId) allSlots) k))))"
    using l unfolding lsd by (auto simp: Let_def)
  define mine where "mine = filter (\<lambda>s. rep_key s = userId) allSlots"
  have mine: "set mine \<subseteq> set allSlots" by (auto simp: mine_def)
  from key obtain s0 where "s0 \<in> set allSlots" "userId = rep_key s0"
    by (auto simp: set_own_keys set_uniq)
  then have ua: "list_all is_alnum userId" using ids by (simp add: rep_key_alnum)
  from cases show ?thesis
  proof
    assume h: "l = bs_n @ userId @ '':''"
    have "list_all display_char l"
      using ua sep_display by (simp add: h alnum_display display_char_def)
    moreover have "l = (bs_n @ userId) @ CHR '':'' # [] \<and> list_all is_alnum []"
      by (simp add: h)
    ultimately show ?thesis by blast
  next
    assume "\<exists>k\<in>set (sortedDateKeys rc (filter (\<lambda>s. rep_key s = userId) allSlots)).
         l = ''  '' @ group_header rc (day_group rc (filter (\<lambda>s. rep_key s = userId) allSlots) k) @ '': '' @
             join '', '' (sort (map (\<lambda>s. loc_time rc (sl_datetime s))
                                    (day_group rc (filter (\<lambda>s. rep_key s = userId) allSlots) k)))"
    then obtain k where k: "k \<in> set (sortedDateKeys rc mine)"
      and h: "l = ''  '' @ group_header rc (day_group rc mine k) @ '': '' @
             join '', '' (sort (map (\<lambda>s. loc_time rc (sl_datetime s)) (day_group rc mine k)))"
      unfolding mine_def by blast
    define g where "g = day_group rc mine k"
    define ts where "ts = sort (map (\<lambda>s. loc_time rc (sl_datetime s)) g)"
    have g: "set g \<subseteq> set allSlots" "g \<noteq> []"
      using mine day_group_subset [of rc mine k] day_group_nonempty [OF k] by (auto simp: g_def)
    have shapes: "\<forall>t\<in>set ts. time_shape t"
      using g(1) clock by (auto simp: ts_def clock_shape_def)
    have "length ts = length g" by (simp add: ts_def)
    then have ne: "ts \<noteq> []" using g(2) by auto
    have l': "l = (''  '' @ group_header rc g @ '': '') @ join '', '' ts"
      by (simp add: h g_def ts_def)
    have "list_all display_char (group_header rc g)"
      using g(1) clock by (intro group_header_display) auto
    moreover have "list_all display_char (join '', '' ts)"
      using shapes by (intro list_all_join sep_display) (simp add: time_display)
    ultimately have "list_all display_char l"
      using sep_display by (simp add: l')
    moreover have "\<exists>z w. l = z @ CHR '':'' # w \<and> list_all is_alnum w"
      unfolding l' using ne shapes by (rule times_colon)
    ultimately show ?thesis by blast
  qed
qed

lemma rep_grouped_lines_nonempty:
  assumes "allSlots \<noteq> []" and "rep_grouped_lines rc allSlots = Returned ls"
  shows "ls \<noteq> []"
proof -
  have "set (own_keys (uniq (map rep_key allSlots))) \<noteq> {}"
    using assms(1) by (simp add: set_own_keys set_uniq)
  then obtain k ks where "own_keys (uniq (map rep_key allSlots)) = k # ks"
    by (cases "own_keys (uniq (map rep_key allSlots))") auto
  then show ?thesis using assms(2) by (auto simp: rep_grouped_lines_def Let_def split: if_splits)
qed

lemma grouped_round_trip:
  assumes clock: "\<forall>s\<in>set allSlots. clock_shape rc (sl_datetime s)"
    and ids: "\<forall>s\<in>set allSlots. id_shape s"
    and s: "s \<in> set allSlots"
    and many: "3 < length (uniqueUserIds allSlots)"
    and t: "formatSlots rc allSlots = Returned t"
  shows "book_appointment_userId t (pick rc allSlots s) = None"
proof -
  obtain ls where ls: "rep_grouped_lines rc allSlots = Returned ls" and lines: "t = join bs_n ls"
    using formatSlots_grouped [OF many t] by blast
  have ne: "ls \<noteq> []" using s ls by (intro rep_grouped_lines_nonempty [of allSlots rc]) auto
  have each: "\<forall>l\<in>set ls. list_all display_char l"
    using rep_grouped_line [OF clock ids ls] by blast
  have "last ls \<in> set ls" using ne by simp
  then obtain z w where lw: "last ls = z @ CHR '':'' # w" "list_all is_alnum w"
    using rep_grouped_line [OF clock ids ls] by blast
  obtain p where "t = p @ last ls" unfolding lines using join_last [OF ne] by blast
  then have tz: "t = (p @ z) @ CHR '':'' # w" using lw by simp
  have none: "singleRepMatch t = None"
    unfolding tz using lw(2) by (rule singleRepMatch_colon)
  have "list_all display_char t"
    unfolding lines using each by (intro list_all_join sep_display)
  then have nl: "CHR 0x0A \<notin> set t" by (rule display_no_line_feed)
  have tne: "t \<noteq> []" using tz by simp
  have pk: "pick rc allSlots s = loc_datePart rc (sl_datetime s) @ '' '' @ loc_time rc (sl_datetime s)"
    by (simp add: pick_def displayed_time_grouped [OF many])
  have am: "abbreviatedMatch (pick rc allSlots s) = None"
    unfolding pk using clock s by (intro plain_pick) simp
  have "book_appointment_userId t (pick rc allSlots s) = singleRepMatch t"
    using am _ tne nl by (rule book_plain) (simp add: pk)
  then show ?thesis using none by simp
qed

text \<open>Up to three reps.\<close>

lemma code_of:
  assumes "distinct us" and "length us \<le> 3" and "u \<in> set us"
  shows "\<exists>x\<in>set ''ABC''. map_of (zip us codes) u = Some [x] \<and>
           find (\<lambda>e. snd e = [x]) (zip us codes) = Some (u, [x])"
proof (cases us)
  case Nil
  then show ?thesis using assms by simp
next
  case (Cons a r)
  show ?thesis
  proof (cases r)
    case Nil
    then show ?thesis using assms Cons by (auto simp: codes_def)
  next
    case r: (Cons b r2)
    show ?thesis
    proof (cases r2)
      case Nil
      then show ?thesis using assms Cons r by (auto simp: codes_def)
    next
      case r2: (Cons c r3)
      then have "r3 = []" using assms(2) Cons r by simp
      then show ?thesis using assms Cons r r2 by (auto simp: codes_def)
    qed
  qed
qed

lemma legend_entries:
  assumes "\<forall>s\<in>set allSlots. id_shape s"
    and "e \<in> set (zip (uniqueUserIds allSlots) codes)"
  shows "(\<exists>k. snd e = [k]) \<and> fst e \<noteq> [] \<and> list_all is_alnum (fst e) \<and> snd e \<in> set codes"
proof -
  obtain u c where e: "e = (u, c)" by (cases e)
  have u: "u \<in> set (uniqueUserIds allSlots)" using assms(2) unfolding e by (rule set_zip_leftD)
  have c: "c \<in> set codes" using assms(2) unfolding e by (rule set_zip_rightD)
  have "\<exists>k. c = [k]" using c by (auto simp: codes_def)
  then show ?thesis using uniqueUserIds_shape [OF assms(1) u] c by (simp add: e)
qed

lemma legend_no_line_feed:
  assumes "\<forall>e\<in>set m. list_all is_alnum (fst e) \<and> snd e \<in> set codes"
  shows "CHR 0x0A \<notin> set (concat (map ((@) bs_n) (map (\<lambda>(userId, code). code @ '' = '' @ userId) m)))"
  using assms
proof (induction m)
  case Nil
  then show ?case by simp
next
  case (Cons e m)
  obtain u c where e: "e = (u, c)" by (cases e)
  have ua: "list_all is_alnum u" and cc: "c \<in> set codes" using Cons.prems by (simp_all add: e)
  have "CHR 0x0A \<notin> set u" using ua alnum_not by (auto simp: list_all_iff)
  moreover have "CHR 0x0A \<notin> set c" using cc by (auto simp: codes_def)
  ultimately show ?case using Cons by (simp add: e bs_n_def)
qed

lemma coded_time:
  assumes clock: "clock_shape rc (sl_datetime s)" and id: "id_shape s"
    and u: "slot_userId s = Some u" and c: "map_of m u = Some [x]"
  shows "time_with_code m (timeWithUser rc s) = loc_time rc (sl_datetime s) @ ''('' @ [x] @ '')''"
proof -
  have ua: "u \<noteq> []" "list_all is_alnum u" using slot_userId_shape [OF id u] by simp_all
  have "time_shape (loc_time rc (sl_datetime s))" using clock by (simp add: clock_shape_def)
  then have "CHR ''|'' \<notin> set (loc_time rc (sl_datetime s))"
    by (auto simp: time_shape_def is_digit_def split: list.splits)
  moreover have "CHR ''|'' \<notin> set u" using ua(2) alnum_not by (auto simp: list_all_iff)
  ultimately have "split_on CHR ''|'' (loc_time rc (sl_datetime s) @ CHR ''|'' # u)
      = [loc_time rc (sl_datetime s), u]"
    by (rule split_on_one)
  moreover have "u \<noteq> ''__proto__''" using ua(2) by (auto simp: is_alnum_def is_AZ_def is_az_def is_digit_def)
  ultimately show ?thesis using ua(1) c u
    by (simp add: time_with_code_def timeWithUser_def userIdMap_get_def)
qed

lemma plain_time:
  assumes clock: "clock_shape rc (sl_datetime s)" and u: "slot_userId s = None"
  shows "time_with_code m (timeWithUser rc s) = loc_time rc (sl_datetime s)"
proof -
  have "time_shape (loc_time rc (sl_datetime s))" using clock by (simp add: clock_shape_def)
  then have "CHR ''|'' \<notin> set (loc_time rc (sl_datetime s))"
    by (auto simp: time_shape_def is_digit_def split: list.splits)
  then have "split_on CHR ''|'' (loc_time rc (sl_datetime s)) = [loc_time rc (sl_datetime s)]"
    by (rule split_on_none)
  then show ?thesis using u by (simp add: time_with_code_def timeWithUser_def)
qed

lemma abbreviated_date_lines_display:
  assumes clock: "\<forall>s\<in>set allSlots. clock_shape rc (sl_datetime s)"
    and ids: "\<forall>s\<in>set allSlots. id_shape s"
    and few: "length (uniqueUserIds allSlots) \<le> 3"
  shows "list_all display_char
      (group_header rc (day_group rc allSlots k) @ '': '' @
       join '', '' (sort_key (\<lambda>a. hd (split_on CHR ''('' a))
                      (map (\<lambda>s. time_with_code (zip (uniqueUserIds allSlots) codes) (timeWithUser rc s))
                           (day_group rc allSlots k))))"
proof -
  have t: "list_all display_char (time_with_code (zip (uniqueUserIds allSlots) codes) (timeWithUser rc s))"
    if s: "s \<in> set allSlots" for s
  proof -
    have sc: "clock_shape rc (sl_datetime s)" and si: "id_shape s" using clock ids s by auto
    have td: "list_all display_char (loc_time rc (sl_datetime s))"
      using sc by (simp add: clock_shape_def time_display)
    show ?thesis
    proof (cases "slot_userId s")
      case None
      then show ?thesis using td by (simp add: plain_time [OF sc None])
    next
      case (Some u)
      have "u \<in> set (uniqueUserIds allSlots)" using s Some by (auto simp: uniqueUserIds_set)
      then obtain x where xa: "x \<in> set ''ABC''"
        and x: "map_of (zip (uniqueUserIds allSlots) codes) u = Some [x]"
        using code_of [OF uniqueUserIds_distinct few] by blast
      have "(u, [x]) \<in> set (zip (uniqueUserIds allSlots) codes)" using x by (rule map_of_SomeD)
      then have "[x] \<in> set codes" by (rule set_zip_rightD)
      then have "list_all display_char [x]" by (rule codes_display)
      then have "display_char x" by simp
      then show ?thesis using td
        by (simp add: coded_time [OF sc si Some x] display_char_def)
    qed
  qed
  have "list_all display_char (group_header rc (day_group rc allSlots k))"
    using clock day_group_subset [of rc allSlots k] by (intro group_header_display) auto
  moreover have "list_all display_char
     (join '', '' (sort_key (\<lambda>a. hd (split_on CHR ''('' a))
                      (map (\<lambda>s. time_with_code (zip (uniqueUserIds allSlots) codes) (timeWithUser rc s))
                           (day_group rc allSlots k))))"
    using t day_group_subset [of rc allSlots k]
    by (intro list_all_join sep_display) auto
  ultimately show ?thesis using sep_display by simp
qed

lemma abbreviated_text:
  assumes clock: "\<forall>s\<in>set allSlots. clock_shape rc (sl_datetime s)"
    and ids: "\<forall>s\<in>set allSlots. id_shape s"
    and few: "length (uniqueUserIds allSlots) \<le> 3"
  shows "\<exists>z. join bs_n (abbreviated_lines rc allSlots) =
           (z @ '':'') @
           concat (map ((@) bs_n) (map (\<lambda>(userId, code). code @ '' = '' @ userId)
                                       (zip (uniqueUserIds allSlots) codes))) \<and>
           list_all display_char (z @ '':'')"
proof -
  define D where "D = map (\<lambda>dateKey.
            group_header rc (day_group rc allSlots dateKey) @ '': '' @
            join '', '' (sort_key (\<lambda>a. hd (split_on CHR ''('' a))
                           (map (\<lambda>s. time_with_code (zip (uniqueUserIds allSlots) codes) (timeWithUser rc s))
                                (day_group rc allSlots dateKey))))
         (sortedDateKeys rc allSlots)"
  define L where "L = map (\<lambda>(userId, code). code @ '' = '' @ userId) (zip (uniqueUserIds allSlots) codes)"
  have lines: "abbreviated_lines rc allSlots = (D @ [bs_n @ ''Sales Reps:'']) @ L"
    by (simp add: abbreviated_lines_def Let_def D_def L_def)
  have D: "\<forall>l\<in>set D. list_all display_char l"
    unfolding D_def using abbreviated_date_lines_display [OF clock ids few] by simp
  have h: "list_all display_char (bs_n @ ''Sales Reps'')"
    using sep_display by (simp add: display_char_def is_alnum_def is_az_def is_AZ_def)
  define z where "z = (if D = [] then [] else join bs_n D @ bs_n) @ bs_n @ ''Sales Reps''"
  have pre: "join bs_n (D @ [bs_n @ ''Sales Reps:'']) = z @ '':''"
    by (simp add: join_snoc z_def)
  have "list_all display_char (join bs_n D)"
    using D by (intro list_all_join sep_display)
  then have "list_all display_char (z @ '':'')"
    using h sep_display by (simp add: z_def display_char_def)
  moreover have "join bs_n (abbreviated_lines rc allSlots) = (z @ '':'') @ concat (map ((@) bs_n) L)"
    unfolding lines by (subst join_append) (simp_all add: pre)
  ultimately show ?thesis unfolding L_def by blast
qed

lemma abbreviated_round_trip:
  assumes clock: "\<forall>s\<in>set allSlots. clock_shape rc (sl_datetime s)"
    and ids: "\<forall>s\<in>set allSlots. id_shape s"
    and s: "s \<in> set allSlots"
    and few: "length (uniqueUserIds allSlots) \<noteq> 1" "length (uniqueUserIds allSlots) \<le> 3"
    and t: "formatSlots rc allSlots = Returned t"
  shows "book_appointment_userId t (pick rc allSlots s) = slot_userId s"
proof -
  define us where "us = uniqueUserIds allSlots"
  define m where "m = zip us codes"
  define legend where
    "legend = concat (map ((@) bs_n) (map (\<lambda>(userId, code). code @ '' = '' @ userId) m))"
  have lines: "t = join bs_n (abbreviated_lines rc allSlots)"
    using t formatSlots_abbreviated [OF few, of rc] by simp
  obtain z where tz: "t = (z @ '':'') @ legend" and pre: "list_all display_char (z @ '':'')"
    unfolding lines legend_def m_def us_def using abbreviated_text [OF clock ids few(2)] by blast
  have entries: "\<forall>e\<in>set m. (\<exists>k. snd e = [k]) \<and> fst e \<noteq> [] \<and> list_all is_alnum (fst e) \<and> snd e \<in> set codes"
    unfolding m_def us_def using legend_entries [OF ids] by blast
  have tne: "t \<noteq> []" using tz by simp
  have sc: "clock_shape rc (sl_datetime s)" and si: "id_shape s" using clock ids s by auto
  have dt: "displayed_time rc allSlots s = time_with_code m (timeWithUser rc s)"
    unfolding m_def us_def using few by (rule displayed_time_abbreviated)
  show ?thesis
  proof (cases "slot_userId s")
    case None
    have pk: "pick rc allSlots s = loc_datePart rc (sl_datetime s) @ '' '' @ loc_time rc (sl_datetime s)"
      by (simp add: pick_def dt plain_time [OF sc None])
    have am: "abbreviatedMatch (pick rc allSlots s) = None"
      unfolding pk using sc by (rule plain_pick)
    have "CHR 0x0A \<notin> set legend"
      unfolding legend_def using entries by (intro legend_no_line_feed) blast
    then have nl: "CHR 0x0A \<notin> set t"
      using display_no_line_feed [OF pre] by (simp add: tz)
    have none: "singleRepMatch t = None"
    proof (cases "m = []")
      case True
      then have "t = z @ CHR '':'' # []" by (simp add: tz legend_def)
      then show ?thesis using singleRepMatch_colon [of "[]" z] by simp
    next
      case False
      then have "m = butlast m @ [last m]" by simp
      then obtain m' ul cl where ml: "m = m' @ [(ul, cl)]" by (metis surj_pair)
      then have "list_all is_alnum ul" using entries by simp
      moreover have "t = ((z @ '':'') @ concat (map ((@) bs_n) (map (\<lambda>(userId, code). code @ '' = '' @ userId) m'))
                        @ bs_n @ cl @ '' '') @ ''= '' @ ul"
        by (simp add: tz legend_def ml)
      ultimately show ?thesis using singleRepMatch_equals by metis
    qed
    have "book_appointment_userId t (pick rc allSlots s) = singleRepMatch t"
      using am _ tne nl by (rule book_plain) (simp add: pk)
    then show ?thesis using none None by simp
  next
    case (Some u)
    have "u \<in> set us" unfolding us_def using s Some by (auto simp: uniqueUserIds_set)
    moreover have "distinct us" "length us \<le> 3"
      unfolding us_def using few by (simp_all add: uniqueUserIds_distinct)
    ultimately obtain x where x: "x \<in> set ''ABC''" "map_of m u = Some [x]"
      "find (\<lambda>e. snd e = [x]) m = Some (u, [x])"
      unfolding m_def using code_of [of us u] by blast
    define p where "p = loc_datePart rc (sl_datetime s) @ '' '' @ loc_time rc (sl_datetime s)"
    have pk: "pick rc allSlots s = p @ ''('' @ [x] @ '')''"
      by (simp add: pick_def dt p_def coded_time [OF sc si Some x(2)])
    have "list_all display_char p"
      using sc by (simp add: p_def clock_shape_def date_display time_display display_char_def)
    then have "\<not> list_ex is_line_terminator p" by (rule display_no_terminator)
    moreover have "p \<noteq> []" by (simp add: p_def)
    ultimately have am: "abbreviatedMatch (pick rc allSlots s) = Some (p, x)"
      unfolding pk using x(1) by (intro abbreviatedMatch_code)
    have "legendMatch x t = legendMatch x legend"
      unfolding tz
    proof (rule legendMatch_skip)
      show "CHR ''='' \<notin> set (z @ '':'')" using pre by (rule display_no_equals)
      show "legend = [] \<or> (\<exists>b1 b2 r. legend = b1 # b2 # r \<and> b1 \<noteq> CHR ''='' \<and> b2 \<noteq> CHR ''='')"
        unfolding legend_def
        using legend_rest [of "map (\<lambda>(userId, code). code @ '' = '' @ userId) m"] by auto
    qed
    also have "\<dots> = map_option fst (find (\<lambda>e. snd e = [x]) m)"
      unfolding legend_def using entries x(1) by (intro legendMatch_legend) blast+
    finally have lm: "legendMatch x t = Some u" using x(3) by simp
    have "book_appointment_userId t (pick rc allSlots s) = Some u"
      using am _ tne lm by (rule book_coded) (simp add: pk)
    then show ?thesis using Some by simp
  qed
qed

text \<open>
  C4 (amended). Let every slot be rendered in the shapes of the Italian locale (time
  \<open>HH:MM\<close>, weekday of three letters, date \<open>DD-MM-YYYY\<close>), let every rep id consist of
  letters and digits, and let the formatter return the display string. Then for every slot
  of the list, the time the agent reads for it in the display string, sent back as
  \<open>DD-MM-YYYY HH:MM\<close> with its letter when it has one, is resolved by
  \<^verbatim>\<open>book_appointment\<close> as follows: in the one-rep format to the rep of the trailer; in
  the format for up to three reps to the rep of the slot (no rep for a slot that has none);
  in the rep-grouped format to no rep. It is never another rep.
\<close>

theorem slot_round_trip:
  assumes "\<forall>s\<in>set allSlots. clock_shape rc (sl_datetime s)"
    and "\<forall>s\<in>set allSlots. id_shape s"
    and "s \<in> set allSlots"
    and "formatSlots rc allSlots = Returned formattedSlotsString"
  shows "book_appointment_userId formattedSlotsString (pick rc allSlots s) =
         (case uniqueUserIds allSlots of
            [singleUserId] \<Rightarrow> Some singleUserId
          | us \<Rightarrow> if length us \<le> 3 then slot_userId s else None)"
proof -
  have "length (uniqueUserIds allSlots) = 1 \<or>
        (length (uniqueUserIds allSlots) \<noteq> 1 \<and> length (uniqueUserIds allSlots) \<le> 3) \<or>
        3 < length (uniqueUserIds allSlots)"
    by linarith
  moreover have "\<exists>u. uniqueUserIds allSlots = [u]" if "length (uniqueUserIds allSlots) = 1"
    using that by (cases "uniqueUserIds allSlots") auto
  ultimately consider u where "uniqueUserIds allSlots = [u]"
    | "length (uniqueUserIds allSlots) \<noteq> 1" "length (uniqueUserIds allSlots) \<le> 3"
    | "3 < length (uniqueUserIds allSlots)"
    by blast
  then show ?thesis
  proof cases
    case 1
    then show ?thesis using single_round_trip [OF assms(1-3) 1 assms(4)] by simp
  next
    case 2
    then show ?thesis using abbreviated_round_trip [OF assms(1-3) 2 assms(4)]
      by (auto split: list.splits)
  next
    case 3
    then show ?thesis using grouped_round_trip [OF assms(1-3) 3 assms(4)]
      by (auto split: list.splits)
  qed
qed

text \<open>
  An instance: reps \<open>U1\<close> and \<open>U2\<close>, and the agent picks the 10:00 slot of \<open>U2\<close>.
\<close>

theorem slot_round_trip_witness:
  "formatSlots example_clock example_two_reps =
     Returned (''Lun 17-03-2025: 09:00(A), 10:00(B)'' @ bs_n @ bs_n @ ''Sales Reps:'' @ bs_n @
               ''A = U1'' @ bs_n @ ''B = U2'') \<and>
   pick example_clock example_two_reps (example_slot 1742202000000 ''U2'') = ''17-03-2025 10:00(B)'' \<and>
   book_appointment_userId
     (''Lun 17-03-2025: 09:00(A), 10:00(B)'' @ bs_n @ bs_n @ ''Sales Reps:'' @ bs_n @
      ''A = U1'' @ bs_n @ ''B = U2'')
     (pick example_clock example_two_reps (example_slot 1742202000000 ''U2'')) = Some ''U2''"
proof -
  have a: "\<forall>s\<in>set example_two_reps. clock_shape example_clock (sl_datetime s)" by code_simp
  have b: "\<forall>s\<in>set example_two_reps. id_shape s" by code_simp
  have c: "example_slot 1742202000000 ''U2'' \<in> set example_two_reps"
    by (simp add: example_two_reps_def)
  have d: "formatSlots example_clock example_two_reps =
     Returned (''Lun 17-03-2025: 09:00(A), 10:00(B)'' @ bs_n @ bs_n @ ''Sales Reps:'' @ bs_n @
               ''A = U1'' @ bs_n @ ''B = U2'')"
    by code_simp
  have p: "pick example_clock example_two_reps (example_slot 1742202000000 ''U2'') = ''17-03-2025 10:00(B)''"
    by code_simp
  have "book_appointment_userId
     (''Lun 17-03-2025: 09:00(A), 10:00(B)'' @ bs_n @ bs_n @ ''Sales Reps:'' @ bs_n @
      ''A = U1'' @ bs_n @ ''B = U2'')
     (pick example_clock example_two_reps (example_slot 1742202000000 ''U2'')) =
     (case uniqueUserIds example_two_reps of
            [singleUserId] \<Rightarrow> Some singleUserId
          | us \<Rightarrow> if length us \<le> 3 then slot_userId (example_slot 1742202000000 ''U2'') else None)"
    using a b c d by (rule slot_round_trip)
  also have "\<dots> = Some ''U2''" by code_simp
  finally show ?thesis using d p by simp
qed

text \<open>
  The claim as written fails for a rep id outside letters and digits. With reps \<open>ab-cd\<close>
  and \<open>ab\<close> the display is in the format for up to three reps, the 09:00 slot of
  \<open>ab-cd\<close> is shown as \<open>09:00(A)\<close> and the legend reads \<open>A = ab-cd\<close>; the legend
  pattern \<^verbatim>\<open>A = ([a-zA-Z0-9]+)\<close> stops at the hyphen and the pick resolves to \<open>ab\<close>,
  the other rep.
\<close>

theorem slot_round_trip_counterexample:
  "formatSlots example_clock example_hyphen_reps =
     Returned (''Lun 17-03-2025: 09:00(A), 10:00(B)'' @ bs_n @ bs_n @ ''Sales Reps:'' @ bs_n @
               ''A = ab-cd'' @ bs_n @ ''B = ab'') \<and>
   pick example_clock example_hyphen_reps (example_slot 1742198400000 ''ab-cd'') = ''17-03-2025 09:00(A)'' \<and>
   book_appointment_userId
     (''Lun 17-03-2025: 09:00(A), 10:00(B)'' @ bs_n @ bs_n @ ''Sales Reps:'' @ bs_n @
      ''A = ab-cd'' @ bs_n @ ''B = ab'')
     ''17-03-2025 09:00(A)'' = Some ''ab'' \<and>
   slot_userId (example_slot 1742198400000 ''ab-cd'') = Some ''ab-cd'' \<and>
   slot_userId (example_slot 1742202000000 ''ab'') = Some ''ab''"
  by code_simp

end
